(* ===== verification/Relay_Prelude.thy ===== *)
theory Relay_Prelude
  imports Main "HOL-Library.Word" "HOL-Library.Multiset" "HOL-Library.Monad_Syntax"
begin

text \<open>
  Shared vocabulary of the development: machine integers, byte strings, results and panics,
  checked slice access, big-endian integers and decimal printing, with the lemmas that the
  component theories use.

  \<^item> A fallible Rust function returns \<open>'e + 'a\<close> (\<open>Inl\<close> is \<open>Err\<close>, \<open>Inr\<close> is \<open>Ok\<close>).
  \<^item> A Rust function that could panic returns an option around its result, \<open>None\<close> being the
    panic; indexing and slicing go through \<open>idx\<close> and \<open>slice_of\<close>, which are \<open>None\<close> out of bounds.
  \<^item> A Rust \<open>String\<close> is its UTF-8 byte sequence, a HOL \<open>string\<close> whose characters are bytes.
\<close>

unbundle bit_operations_syntax

section \<open>Names of the machine types\<close>

type_synonym byte = "8 word"
type_synonym u16 = "16 word"
type_synonym u32 = "32 word"
type_synonym u64 = "64 word"
type_synonym u128 = "128 word"
type_synonym bytes = "byte list"

named_theorems panic_free \<open>facts that a computation does not panic\<close>
named_theorems slice_simps \<open>evaluation of checked slice access\<close>

section \<open>Checked slice access\<close>

definition idx :: "'a list \<Rightarrow> nat \<Rightarrow> 'a option" where
  "idx xs i = (if i < length xs then Some (xs ! i) else None)"

definition slice_of :: "'a list \<Rightarrow> nat \<Rightarrow> nat \<Rightarrow> 'a list option" where
  "slice_of xs i j = (if i \<le> j \<and> j \<le> length xs then Some (take (j - i) (drop i xs)) else None)"

definition slice_from :: "'a list \<Rightarrow> nat \<Rightarrow> 'a list option" where
  "slice_from xs i = slice_of xs i (length xs)"

lemma idx_in [slice_simps]: "i < length xs \<Longrightarrow> idx xs i = Some (xs ! i)"
  by (simp add: idx_def)

lemma slice_in [slice_simps]:
  "i \<le> j \<Longrightarrow> j \<le> length xs \<Longrightarrow> slice_of xs i j = Some (take (j - i) (drop i xs))"
  by (simp add: slice_of_def)

lemma slice_from_in [slice_simps]: "i \<le> length xs \<Longrightarrow> slice_from xs i = Some (drop i xs)"
  by (simp add: slice_from_def slice_of_def)

lemma idx_Some_iff: "idx xs i = Some x \<longleftrightarrow> i < length xs \<and> xs ! i = x"
  by (auto simp: idx_def)

lemma slice_Some_iff:
  "slice_of xs i j = Some ys \<longleftrightarrow> i \<le> j \<and> j \<le> length xs \<and> ys = take (j - i) (drop i xs)"
  by (auto simp: slice_of_def)

section \<open>Big-endian integers\<close>

text \<open>\<open>be_nat\<close> is \<open>uN::from_be_bytes\<close>, \<open>to_be k n\<close> the \<open>k\<close> bytes of \<open>to_be_bytes\<close>.\<close>

definition be_nat :: "bytes \<Rightarrow> nat" where
  "be_nat bs = foldl (\<lambda>a b. a * 256 + unat b) 0 bs"

fun to_be :: "nat \<Rightarrow> nat \<Rightarrow> bytes" where
  "to_be 0 n = []"
| "to_be (Suc k) n = to_be k (n div 256) @ [of_nat n]"

lemma be_nat_Nil [simp]: "be_nat [] = 0"
  by (simp add: be_nat_def)

lemma be_nat_snoc [simp]: "be_nat (bs @ [b]) = be_nat bs * 256 + unat b"
  by (simp add: be_nat_def)

lemma length_to_be [simp]: "length (to_be k n) = k"
  by (induction k arbitrary: n) auto

lemma unat_byte_less [simp]: "unat (b :: byte) < 256"
proof -
  have "unat b < 2 ^ LENGTH(8)" by (rule unsigned_less)
  then show ?thesis by simp
qed

lemma unat_byte_le [simp]: "unat (b :: byte) \<le> 255"
  using unat_byte_less [of b] by linarith

lemma unat_of_nat_byte [simp]: "unat (of_nat n :: byte) = n mod 256"
  by (simp add: unat_of_nat)

lemma of_nat_byte_add_256 [simp]: "(of_nat (m * 256 + unat b) :: byte) = b"
proof -
  have "unat (of_nat (m * 256 + unat b) :: byte) = unat b"
    unfolding unat_of_nat_byte by (simp add: mod_less)
  then show ?thesis by (simp only: word_unat_eq_iff)
qed

lemma be_nat_to_be: "be_nat (to_be k n) = n mod 256 ^ k"
proof (induction k arbitrary: n)
  case 0
  then show ?case by simp
next
  case (Suc k)
  have "n mod 256 ^ Suc k = 256 * (n div 256 mod 256 ^ k) + n mod 256"
    using mod_mult2_eq [of n 256 "256 ^ k"] by (simp add: ac_simps)
  with Suc show ?case by (simp add: ac_simps)
qed

lemma to_be_be_nat: "to_be (length bs) (be_nat bs) = bs"
proof (induction bs rule: rev_induct)
  case (snoc b bs)
  have "(be_nat bs * 256 + unat b) div 256 = be_nat bs" by simp
  with snoc show ?case by (simp del: of_nat_add of_nat_mult)
qed simp

lemma be_nat_bound: "be_nat bs < 256 ^ length bs"
  by (metis be_nat_to_be mod_less_divisor to_be_be_nat zero_less_numeral zero_less_power)

lemma be_nat_inj: "length xs = length ys \<Longrightarrow> be_nat xs = be_nat ys \<Longrightarrow> xs = ys"
  by (metis to_be_be_nat)

lemma be_nat_append: "be_nat (xs @ ys) = be_nat xs * 256 ^ length ys + be_nat ys"
proof (induction ys rule: rev_induct)
  case (snoc y ys)
  then show ?case by (simp add: algebra_simps flip: append_assoc)
qed simp

lemma be_nat_replicate_0 [simp]: "be_nat (replicate n 0) = 0"
proof (induction n)
  case (Suc n)
  then show ?case by (simp add: replicate_append_same [symmetric])
qed simp

definition be16 :: "u16 \<Rightarrow> bytes" where
  "be16 w = to_be 2 (unat w)"

definition from_be16 :: "byte \<Rightarrow> byte \<Rightarrow> u16" where
  "from_be16 a b = of_nat (be_nat [a, b])"

definition be32 :: "u32 \<Rightarrow> bytes" where
  "be32 w = to_be 4 (unat w)"

lemma length_be16 [simp]: "length (be16 w) = 2"
  by (simp add: be16_def)

lemma length_be32 [simp]: "length (be32 w) = 4"
  by (simp add: be32_def)

lemma be_nat_two: "be_nat [a, b] = unat a * 256 + unat b"
  by (simp add: be_nat_def)

lemma unat_from_be16: "unat (from_be16 a b) = unat a * 256 + unat b"
proof -
  have "unat a * 256 + unat b < 65536"
    using unat_byte_le [of a] unat_byte_le [of b] by linarith
  then show ?thesis
    unfolding from_be16_def be_nat_two unat_of_nat by simp
qed

lemma unat_u16_less [simp]: "unat (w :: u16) < 65536"
proof -
  have "unat w < 2 ^ LENGTH(16)" by (rule unsigned_less)
  then show ?thesis by simp
qed

lemma be_nat_be16 [simp]: "be_nat (be16 w) = unat w"
  by (simp add: be16_def be_nat_to_be)

lemma be16_cases: "be16 w = [be16 w ! 0, be16 w ! 1]"
  by (rule nth_equalityI) (auto simp: less_Suc_eq numeral_2_eq_2)

lemma from_be16_be16 [simp]: "from_be16 (be16 w ! 0) (be16 w ! 1) = w"
  unfolding from_be16_def be16_cases [symmetric] by simp

section \<open>Strings and decimal numbers\<close>

definition as_bytes :: "string \<Rightarrow> bytes" where
  "as_bytes s = map (\<lambda>c. of_nat (of_char c)) s"

definition bytes_str :: "bytes \<Rightarrow> string" where
  "bytes_str bs = map (\<lambda>b. char_of (unat b)) bs"

lemma length_as_bytes [simp]: "length (as_bytes s) = length s"
  by (simp add: as_bytes_def)

lemma length_bytes_str [simp]: "length (bytes_str bs) = length bs"
  by (simp add: bytes_str_def)

lemma bytes_str_as_bytes [simp]: "bytes_str (as_bytes s) = s"
  by (simp add: bytes_str_def as_bytes_def comp_def)

lemma as_bytes_bytes_str [simp]: "as_bytes (bytes_str bs) = bs"
  by (simp add: bytes_str_def as_bytes_def comp_def)

lemma as_bytes_inj: "as_bytes s = as_bytes t \<Longrightarrow> s = t"
  by (metis bytes_str_as_bytes)

text \<open>Decimal rendering of an unsigned integer, as \<open>Display\<close> prints it.\<close>

definition digit_char :: "nat \<Rightarrow> char" where
  "digit_char d = ''0123456789'' ! d"

fun show_nat :: "nat \<Rightarrow> string" where
  "show_nat n = (if n < 10 then [digit_char n]
                 else show_nat (n div 10) @ [digit_char (n mod 10)])"

declare show_nat.simps [simp del]

end
