(* ===== verification/Codec.thy ===== *)
theory Codec
  imports Relay_Prelude
begin

text \<open>
  The contract of an encoder and a decoder, as two locales: \<open>codec\<close> (every well-formed value is
  decoded back from its encoding) and \<open>exact_codec\<close> (moreover whatever decodes is the encoding
  of the value it decodes to). The providers are the string conversion, the IPv4 printer, the
  DHCPv6 options, the Relay-reply wrapper and the SMF_DPD option; each of them interprets the
  locale it satisfies in its own theory.
\<close>

locale codec =
  fixes enc :: "'a \<Rightarrow> 'b"
    and dec :: "'b \<Rightarrow> 'a option"
    and wf :: "'a \<Rightarrow> bool"
  assumes round_trip: "wf x \<Longrightarrow> dec (enc x) = Some x"
begin

lemma enc_inj: "wf x \<Longrightarrow> wf y \<Longrightarrow> enc x = enc y \<Longrightarrow> x = y"
  by (metis option.inject round_trip)

lemma enc_inj_on: "inj_on enc (Collect wf)"
  by (rule inj_onI) (auto intro: enc_inj)

lemma enc_eq_iff: "wf x \<Longrightarrow> wf y \<Longrightarrow> enc x = enc y \<longleftrightarrow> x = y"
  by (auto intro: enc_inj)

lemma dec_enc_iff: "wf x \<Longrightarrow> dec (enc x) = Some y \<longleftrightarrow> x = y"
  by (simp add: round_trip)

end

locale exact_codec = codec +
  assumes canonical: "dec b = Some x \<Longrightarrow> wf x \<and> enc x = b"
begin

lemma dec_Some_iff: "dec b = Some x \<longleftrightarrow> wf x \<and> enc x = b"
  using canonical round_trip by auto

lemma dec_inj: "dec b = Some x \<Longrightarrow> dec b' = Some x \<Longrightarrow> b = b'"
  using canonical by auto

lemma decodable_iff: "(\<exists>x. dec b = Some x) \<longleftrightarrow> b \<in> enc ` Collect wf"
  by (auto simp: dec_Some_iff)

end

end
