(* ===== verification/Rust_String.thy ===== *)
theory Rust_String
  imports Codec
begin

text \<open>
  Rust strings: \<open>String::from_utf8\<close> and \<open>str::from_utf8\<close> accept exactly the well-formed UTF-8
  byte sequences of the Unicode standard (its table 3-7), \<open>as_bytes\<close> returns them.
\<close>

definition in_range :: "byte \<Rightarrow> byte \<Rightarrow> byte \<Rightarrow> bool" where
  "in_range lo hi b \<longleftrightarrow> lo \<le> b \<and> b \<le> hi"

definition is_cont :: "byte \<Rightarrow> bool" where
  "is_cont b \<longleftrightarrow> in_range 0x80 0xBF b"

text \<open>The second byte allowed after a given lead byte of a three- or four-byte sequence.\<close>

definition second_of_3 :: "byte \<Rightarrow> byte \<Rightarrow> bool" where
  "second_of_3 a b \<longleftrightarrow>
     (a = 0xE0 \<and> in_range 0xA0 0xBF b) \<or>
     (in_range 0xE1 0xEC a \<and> is_cont b) \<or>
     (a = 0xED \<and> in_range 0x80 0x9F b) \<or>
     (in_range 0xEE 0xEF a \<and> is_cont b)"

definition second_of_4 :: "byte \<Rightarrow> byte \<Rightarrow> bool" where
  "second_of_4 a b \<longleftrightarrow>
     (a = 0xF0 \<and> in_range 0x90 0xBF b) \<or>
     (in_range 0xF1 0xF3 a \<and> is_cont b) \<or>
     (a = 0xF4 \<and> in_range 0x80 0x8F b)"

fun utf8_step :: "bytes \<Rightarrow> bytes option" where
  "utf8_step [] = None"
| "utf8_step (a # r) =
     (if a < 0x80 then Some r
      else if in_range 0xC2 0xDF a then
        (case r of b # r' \<Rightarrow> if is_cont b then Some r' else None | _ \<Rightarrow> None)
      else if in_range 0xE0 0xEF a then
        (case r of b # c # r' \<Rightarrow> if second_of_3 a b \<and> is_cont c then Some r' else None
                 | _ \<Rightarrow> None)
      else if in_range 0xF0 0xF4 a then
        (case r of b # c # d # r' \<Rightarrow>
                     if second_of_4 a b \<and> is_cont c \<and> is_cont d then Some r' else None
                 | _ \<Rightarrow> None)
      else None)"

lemma utf8_step_shorter: "utf8_step bs = Some r \<Longrightarrow> length r < length bs"
  by (cases bs) (auto split: if_splits list.splits)

function utf8_valid :: "bytes \<Rightarrow> bool" where
  "utf8_valid bs =
     (if bs = [] then True
      else (case utf8_step bs of None \<Rightarrow> False | Some r \<Rightarrow> utf8_valid r))"
  by pat_completeness auto
termination
  by (relation "measure length") (auto dest: utf8_step_shorter)

declare utf8_valid.simps [simp del]

lemma utf8_valid_Nil [simp]: "utf8_valid []"
  by (simp add: utf8_valid.simps)

lemma utf8_valid_ascii_Cons [simp]: "a < 0x80 \<Longrightarrow> utf8_valid (a # bs) = utf8_valid bs"
  by (subst utf8_valid.simps) simp

lemma utf8_valid_ascii: "(\<And>b. b \<in> set bs \<Longrightarrow> b < 0x80) \<Longrightarrow> utf8_valid bs"
  by (induction bs) auto

definition from_utf8 :: "bytes \<Rightarrow> string option" where
  "from_utf8 bs = (if utf8_valid bs then Some (bytes_str bs) else None)"

text \<open>The invariant of the type \<open>String\<close>.\<close>

definition rust_string :: "string \<Rightarrow> bool" where
  "rust_string s \<longleftrightarrow> utf8_valid (as_bytes s)"

interpretation str: exact_codec as_bytes from_utf8 rust_string
  by unfold_locales (auto simp: from_utf8_def rust_string_def split: if_splits)

lemma from_utf8_None_iff: "from_utf8 bs = None \<longleftrightarrow> \<not> utf8_valid bs"
  by (simp add: from_utf8_def)

end
