(* ===== verification/Net_Addr.thy ===== *)
theory Net_Addr
  imports Relay_Prelude
begin

text \<open>
  The part of Rust's \<open>std::net\<close> that the relay uses: \<open>Ipv4Addr\<close>, \<open>Ipv6Addr\<close>, \<open>IpAddr\<close> and
  \<open>SocketAddr\<close> with their octets, the multicast test, the \<open>Display\<close> of an IPv4 address and the
  \<open>FromStr\<close> parsers of IPv4 and socket addresses. The parsers keep the shape of the standard
  library's recursive-descent parser: each reader returns the value read and the rest of the
  input, or \<open>None\<close>, in which case nothing is consumed.
\<close>

section \<open>Addresses\<close>

datatype ipv4addr = Ipv4Addr byte byte byte byte

datatype ipv6addr = Ipv6Addr u16 u16 u16 u16 u16 u16 u16 u16

datatype ip_addr = V4 ipv4addr | V6 ipv6addr

text \<open>\<open>SocketAddrV6\<close> also carries the flow information and the scope.\<close>

datatype socket_addr =
    SocketAddrV4 ipv4addr u16
  | SocketAddrV6 ipv6addr u16 u32 u32

fun socket_ip :: "socket_addr \<Rightarrow> ip_addr" where
  "socket_ip (SocketAddrV4 a p) = V4 a"
| "socket_ip (SocketAddrV6 a p f s) = V6 a"

fun socket_new :: "ip_addr \<Rightarrow> u16 \<Rightarrow> socket_addr" where
  "socket_new (V4 a) p = SocketAddrV4 a p"
| "socket_new (V6 a) p = SocketAddrV6 a p 0 0"

fun ipv4_octets :: "ipv4addr \<Rightarrow> bytes" where
  "ipv4_octets (Ipv4Addr a b c d) = [a, b, c, d]"

fun ipv6_segments :: "ipv6addr \<Rightarrow> u16 list" where
  "ipv6_segments (Ipv6Addr a b c d e f g h) = [a, b, c, d, e, f, g, h]"

definition ipv6_octets :: "ipv6addr \<Rightarrow> bytes" where
  "ipv6_octets a = concat (map be16 (ipv6_segments a))"

fun ip_octets :: "ip_addr \<Rightarrow> bytes" where
  "ip_octets (V4 a) = ipv4_octets a"
| "ip_octets (V6 a) = ipv6_octets a"

definition IPV4_UNSPECIFIED :: ipv4addr where
  "IPV4_UNSPECIFIED = Ipv4Addr 0 0 0 0"

definition IPV6_UNSPECIFIED :: ipv6addr where
  "IPV6_UNSPECIFIED = Ipv6Addr 0 0 0 0 0 0 0 0"

definition IPV6_LOCALHOST :: ipv6addr where
  "IPV6_LOCALHOST = Ipv6Addr 0 0 0 0 0 0 0 1"

lemma length_ipv4_octets [simp]: "length (ipv4_octets a) = 4"
  by (cases a) simp

lemma length_ipv6_octets [simp]: "length (ipv6_octets a) = 16"
  by (cases a) (simp add: ipv6_octets_def)

lemma ipv4_octets_inj: "ipv4_octets a = ipv4_octets b \<Longrightarrow> a = b"
  by (cases a; cases b) simp

lemma be16_inj: "be16 v = be16 w \<longleftrightarrow> v = w"
  by (metis from_be16_be16)

lemma be16_append_eq: "be16 v @ xs = be16 w @ ys \<longleftrightarrow> v = w \<and> xs = ys"
  by (simp add: be16_inj)

lemma ipv6_octets_inj: "ipv6_octets a = ipv6_octets b \<Longrightarrow> a = b"
  by (cases a; cases b) (simp add: ipv6_octets_def be16_append_eq be16_inj)

section \<open>Multicast\<close>

text \<open>\<open>Ipv4Addr::is_multicast\<close>: 224.0.0.0/4; \<open>Ipv6Addr::is_multicast\<close>: ff00::/8.\<close>

fun ipv4_is_multicast :: "ipv4addr \<Rightarrow> bool" where
  "ipv4_is_multicast (Ipv4Addr a b c d) \<longleftrightarrow> 224 \<le> a \<and> a \<le> 239"

fun ipv6_is_multicast :: "ipv6addr \<Rightarrow> bool" where
  "ipv6_is_multicast (Ipv6Addr a b c d e f g h) \<longleftrightarrow> a AND 0xff00 = 0xff00"

section \<open>Printing and parsing\<close>

fun show_ipv4 :: "ipv4addr \<Rightarrow> string" where
  "show_ipv4 (Ipv4Addr a b c d) =
     show_nat (unat a) @ ''.'' @ show_nat (unat b) @ ''.'' @
     show_nat (unat c) @ ''.'' @ show_nat (unat d)"

text \<open>\<open>char::to_digit\<close> for the radixes 10 and 16.\<close>

definition digit_val :: "nat \<Rightarrow> char \<Rightarrow> nat option" where
  "digit_val radix c =
     (let n = (of_char c :: nat) in
      if 48 \<le> n \<and> n \<le> 57 \<and> n - 48 < radix then Some (n - 48)
      else if radix = 16 \<and> 97 \<le> n \<and> n \<le> 102 then Some (n - 87)
      else if radix = 16 \<and> 65 \<le> n \<and> n \<le> 70 then Some (n - 55)
      else None)"

definition is_digit :: "nat \<Rightarrow> char \<Rightarrow> bool" where
  "is_digit radix c \<longleftrightarrow> digit_val radix c \<noteq> None"

definition digits_val :: "nat \<Rightarrow> string \<Rightarrow> nat" where
  "digits_val radix ds = foldl (\<lambda>a c. a * radix + the (digit_val radix c)) 0 ds"

text \<open>
  \<open>read_number(radix, max_digits, allow_zero_prefix)\<close> into an unsigned type with the largest
  value \<open>maxv\<close>: the longest run of digits, refused when empty, too long, too large, or (where
  that is not allowed) with a leading zero.
\<close>

definition read_number ::
    "nat \<Rightarrow> nat option \<Rightarrow> bool \<Rightarrow> nat \<Rightarrow> string \<Rightarrow> (nat \<times> string) option" where
  "read_number radix max_digits allow_zero maxv s =
     (let ds = takeWhile (is_digit radix) s; rest = dropWhile (is_digit radix) s in
      if ds = [] then None
      else if (case max_digits of None \<Rightarrow> False | Some k \<Rightarrow> k < length ds) then None
      else if \<not> allow_zero \<and> hd ds = CHR ''0'' \<and> 1 < length ds then None
      else if maxv < digits_val radix ds then None
      else Some (digits_val radix ds, rest))"

definition read_given_char :: "char \<Rightarrow> string \<Rightarrow> string option" where
  "read_given_char c s = (case s of [] \<Rightarrow> None | d # r \<Rightarrow> if d = c then Some r else None)"

definition read_separator ::
    "char \<Rightarrow> nat \<Rightarrow> (string \<Rightarrow> ('a \<times> string) option) \<Rightarrow> string \<Rightarrow> ('a \<times> string) option" where
  "read_separator sep i inner s =
     (if 0 < i then Option.bind (read_given_char sep s) inner else inner s)"

definition read_octet :: "nat \<Rightarrow> string \<Rightarrow> (nat \<times> string) option" where
  "read_octet i = read_separator (CHR ''.'') i (read_number 10 (Some 3) False 255)"

definition read_ipv4_addr :: "string \<Rightarrow> (ipv4addr \<times> string) option" where
  "read_ipv4_addr s0 = do {
     (a, s1) \<leftarrow> read_octet 0 s0;
     (b, s2) \<leftarrow> read_octet 1 s1;
     (c, s3) \<leftarrow> read_octet 2 s2;
     (d, s4) \<leftarrow> read_octet 3 s3;
     Some (Ipv4Addr (of_nat a) (of_nat b) (of_nat c) (of_nat d), s4) }"

text \<open>\<open>parse_with\<close>: the whole input must be consumed.\<close>

definition parse_all :: "(string \<Rightarrow> ('a \<times> string) option) \<Rightarrow> string \<Rightarrow> 'a option" where
  "parse_all p s = (case p s of Some (x, []) \<Rightarrow> Some x | _ \<Rightarrow> None)"

definition parse_ipv4 :: "string \<Rightarrow> ipv4addr option" where
  "parse_ipv4 s = (if 15 < length s then None else parse_all read_ipv4_addr s)"

text \<open>
  \<open>read_groups\<close> reads up to \<open>k\<close> groups of an IPv6 address, \<open>i\<close> of them already read; where at
  least two are left it first tries a trailing embedded IPv4 address, which ends the run.
\<close>

fun ipv4_groups :: "ipv4addr \<Rightarrow> u16 list" where
  "ipv4_groups (Ipv4Addr a b c d) = [from_be16 a b, from_be16 c d]"

primrec read_groups :: "nat \<Rightarrow> nat \<Rightarrow> string \<Rightarrow> u16 list \<times> bool \<times> string" where
  "read_groups 0 i s = ([], False, s)"
| "read_groups (Suc k) i s =
     (case (if 0 < k then read_separator (CHR '':'') i read_ipv4_addr s else None) of
        Some (v4, s') \<Rightarrow> (ipv4_groups v4, True, s')
      | None \<Rightarrow>
         (case read_separator (CHR '':'') i (read_number 16 (Some 4) True 65535) s of
            None \<Rightarrow> ([], False, s)
          | Some (g, s') \<Rightarrow>
             (let (gs, v4, s'') = read_groups k (Suc i) s' in (of_nat g # gs, v4, s''))))"

fun ipv6_of_groups :: "u16 list \<Rightarrow> ipv6addr" where
  "ipv6_of_groups [a, b, c, d, e, f, g, h] = Ipv6Addr a b c d e f g h"
| "ipv6_of_groups _ = IPV6_UNSPECIFIED"

definition read_ipv6_addr :: "string \<Rightarrow> (ipv6addr \<times> string) option" where
  "read_ipv6_addr s0 =
     (let (head, head_ipv4, s1) = read_groups 8 0 s0 in
      if length head = 8 then Some (ipv6_of_groups head, s1)
      else if head_ipv4 then None
      else do {
        s2 \<leftarrow> read_given_char (CHR '':'') s1;
        s3 \<leftarrow> read_given_char (CHR '':'') s2;
        let (tail, _, s4) = read_groups (8 - (length head + 1)) 0 s3;
        Some (ipv6_of_groups (head @ replicate (8 - length head - length tail) 0 @ tail), s4) })"

definition read_port :: "string \<Rightarrow> (u16 \<times> string) option" where
  "read_port s = do {
     s1 \<leftarrow> read_given_char (CHR '':'') s;
     (n, s2) \<leftarrow> read_number 10 None True 65535 s1;
     Some (of_nat n, s2) }"

definition read_scope_id :: "string \<Rightarrow> (u32 \<times> string) option" where
  "read_scope_id s = do {
     s1 \<leftarrow> read_given_char (CHR ''%'') s;
     (n, s2) \<leftarrow> read_number 10 None True 4294967295 s1;
     Some (of_nat n, s2) }"

definition read_socket_addr_v4 :: "string \<Rightarrow> (socket_addr \<times> string) option" where
  "read_socket_addr_v4 s = do {
     (ip, s1) \<leftarrow> read_ipv4_addr s;
     (port, s2) \<leftarrow> read_port s1;
     Some (SocketAddrV4 ip port, s2) }"

definition read_socket_addr_v6 :: "string \<Rightarrow> (socket_addr \<times> string) option" where
  "read_socket_addr_v6 s = do {
     s1 \<leftarrow> read_given_char (CHR ''['') s;
     (ip, s2) \<leftarrow> read_ipv6_addr s1;
     let (scope, s3) = (case read_scope_id s2 of Some r \<Rightarrow> r | None \<Rightarrow> (0, s2));
     s4 \<leftarrow> read_given_char (CHR '']'') s3;
     (port, s5) \<leftarrow> read_port s4;
     Some (SocketAddrV6 ip port 0 scope, s5) }"

definition read_socket_addr :: "string \<Rightarrow> (socket_addr \<times> string) option" where
  "read_socket_addr s =
     (case read_socket_addr_v4 s of Some r \<Rightarrow> Some r | None \<Rightarrow> read_socket_addr_v6 s)"

definition parse_socket_addr :: "string \<Rightarrow> socket_addr option" where
  "parse_socket_addr s = parse_all read_socket_addr s"

text \<open>\<open>s.split(':').next()\<close>: the text before the first colon.\<close>

definition before_colon :: "string \<Rightarrow> string" where
  "before_colon s = takeWhile (\<lambda>c. c \<noteq> CHR '':'') s"

lemmas std_parse_defs =
  parse_socket_addr_def parse_ipv4_def parse_all_def read_socket_addr_def
  read_socket_addr_v4_def read_socket_addr_v6_def read_ipv4_addr_def read_octet_def
  read_separator_def read_number_def is_digit_def digit_val_def digits_val_def
  read_given_char_def read_port_def

section \<open>Decimal numbers read back\<close>

lemma less_10_cases: "(d::nat) < 10 \<Longrightarrow>
    d = 0 \<or> d = 1 \<or> d = 2 \<or> d = 3 \<or> d = 4 \<or> d = 5 \<or> d = 6 \<or> d = 7 \<or> d = 8 \<or> d = 9"
  by presburger

lemma digit_val_digit_char [simp]: "d < 10 \<Longrightarrow> digit_val 10 (digit_char d) = Some d"
  by (drule less_10_cases) (auto simp: digit_char_def digit_val_def)

lemma is_digit_digit_char [simp]: "d < 10 \<Longrightarrow> is_digit 10 (digit_char d)"
  by (simp add: is_digit_def)

lemma digit_char_0_iff: "d < 10 \<Longrightarrow> digit_char d = CHR ''0'' \<longleftrightarrow> d = 0"
  by (drule less_10_cases) (auto simp: digit_char_def)

lemma show_nat_not_Nil [simp]: "show_nat n \<noteq> []"
  by (subst show_nat.simps) simp

lemma show_nat_digits: "c \<in> set (show_nat n) \<Longrightarrow> is_digit 10 c"
proof (induction n rule: show_nat.induct)
  case (1 n)
  then show ?case by (auto simp: show_nat.simps [of n] split: if_splits)
qed

lemma digits_val_show_nat [simp]: "digits_val 10 (show_nat n) = n"
proof (induction n rule: show_nat.induct)
  case (1 n)
  then show ?case by (auto simp: show_nat.simps [of n] digits_val_def)
qed

lemma hd_show_nat: "hd (show_nat n) = CHR ''0'' \<longleftrightarrow> n = 0"
proof (induction n rule: show_nat.induct)
  case (1 n)
  show ?case
  proof (cases "n < 10")
    case True
    then show ?thesis by (simp add: show_nat.simps [of n] digit_char_0_iff)
  next
    case False
    with 1 show ?thesis by (simp add: show_nat.simps [of n])
  qed
qed

lemma show_nat_0: "show_nat 0 = ''0''"
  by (simp add: show_nat.simps digit_char_def)

lemma length_show_nat: "n < 10 ^ k \<Longrightarrow> 0 < k \<Longrightarrow> length (show_nat n) \<le> k"
proof (induction k arbitrary: n)
  case (Suc k)
  show ?case
  proof (cases "n < 10")
    case False
    with Suc.prems have "0 < k" by (cases k) auto
    moreover have "n div 10 < 10 ^ k" using Suc.prems by auto
    ultimately show ?thesis using Suc.IH [of "n div 10"] False by (simp add: show_nat.simps [of n])
  qed (simp add: show_nat.simps)
qed simp

lemma read_number_show_nat:
  assumes "n \<le> maxv" and "n < 10 ^ k" and "0 < k" and "r = [] \<or> \<not> is_digit 10 (hd r)"
  shows "read_number 10 (Some k) False maxv (show_nat n @ r) = Some (n, r)"
proof -
  have "takeWhile (is_digit 10) (show_nat n @ r) = show_nat n"
    and "dropWhile (is_digit 10) (show_nat n @ r) = r"
    using assms(4) by (cases r; auto simp: show_nat_digits takeWhile_append2 dropWhile_append2)+
  moreover have "\<not> (hd (show_nat n) = CHR ''0'' \<and> 1 < length (show_nat n))"
    by (auto simp: hd_show_nat show_nat_0)
  ultimately show ?thesis
    using assms length_show_nat [of n k] by (auto simp: read_number_def Let_def)
qed

lemma not_digit_dot [simp]: "\<not> is_digit 10 (CHR ''.'')"
  by (simp add: is_digit_def digit_val_def)

lemma read_octet_0:
  "r = [] \<or> \<not> is_digit 10 (hd r) \<Longrightarrow> read_octet 0 (show_nat (unat (b :: byte)) @ r) = Some (unat b, r)"
  using read_number_show_nat [of "unat b" 255 3 r] unat_byte_less [of b]
  by (simp add: read_octet_def read_separator_def)

lemma read_octet_Suc:
  "r = [] \<or> \<not> is_digit 10 (hd r) \<Longrightarrow>
   read_octet (Suc i) (CHR ''.'' # show_nat (unat (b :: byte)) @ r) = Some (unat b, r)"
  using read_number_show_nat [of "unat b" 255 3 r] unat_byte_less [of b]
  by (simp add: read_octet_def read_separator_def read_given_char_def)

text \<open>Every printed IPv4 address is read back, whatever follows it, if that is no digit.\<close>

lemma read_ipv4_show:
  assumes "r = [] \<or> \<not> is_digit 10 (hd r)"
  shows "read_ipv4_addr (show_ipv4 a @ r) = Some (a, r)"
proof (cases a)
  case (Ipv4Addr w x y z)
  have "read_octet 3 (CHR ''.'' # show_nat (unat z) @ r) = Some (unat z, r)"
    using read_octet_Suc [of r 2 z] assms by simp
  moreover have "read_octet 2 (CHR ''.'' # show_nat (unat y) @ s) = Some (unat y, s)"
    and "read_octet 1 (CHR ''.'' # show_nat (unat x) @ s) = Some (unat x, s)"
    and "read_octet 0 (show_nat (unat w) @ s) = Some (unat w, s)"
    if "s = CHR ''.'' # t" for s t
    using that read_octet_Suc [of s 1 y] read_octet_Suc [of s 0 x] read_octet_0 [of s w]
    by (simp_all add: numeral_2_eq_2)
  ultimately show ?thesis by (simp add: Ipv4Addr read_ipv4_addr_def)
qed

lemma length_show_octet: "length (show_nat (unat (b :: byte))) \<le> 3"
  using length_show_nat [of "unat b" 3] unat_byte_less [of b] by simp

lemma length_show_ipv4: "length (show_ipv4 a) \<le> 15"
proof (cases a)
  case (Ipv4Addr w x y z)
  then show ?thesis
    using length_show_octet [of w] length_show_octet [of x] length_show_octet [of y]
      length_show_octet [of z] by simp
qed

lemma parse_ipv4_show [simp]: "parse_ipv4 (show_ipv4 a) = Some a"
  using read_ipv4_show [of "[]" a] length_show_ipv4 [of a]
  by (simp add: parse_ipv4_def parse_all_def)

end
