(* ===== verification/Relay_Config.thy ===== *)
theory Relay_Config
  imports Rust_String Net_Addr
begin

text \<open>
  The error type of \<open>error.rs\<close> and the configuration of \<open>config.rs\<close>: the records, their
  defaults, the validation of a VSS block and of the whole configuration.
\<close>

section \<open>Errors\<close>

text \<open>An \<open>std::io::Error\<close> is represented by its rendering.\<close>

datatype relay_error =
    Io string
  | Parse string
  | PacketTooLarge nat nat
  | GiaddrSpoof string
  | Option82Mismatch
  | VssNotSupported
  | VpnNotConfigured string
  | DpdStalePacket
  | Config string
  | Transport string

type_synonym 'a relay_result = "relay_error + 'a"

section \<open>Configuration records\<close>

record vss_config =
  vss_enabled :: bool
  vss_type :: byte
  vss_info :: bytes
  vpn_name :: "string option"

record interface_config =
  if_name :: string
  if_ip_addr :: string
  if_trusted :: bool
  if_enabled :: bool

record dhcpv4_config =
  v4_server_addrs :: "socket_addr list"
  enable_option82 :: bool
  circuit_id :: "string option"
  v4_remote_id :: "string option"
  v4_vss :: vss_config

record dhcpv6_config =
  v6_server_addrs :: "socket_addr list"
  enable_interface_id :: bool
  enable_remote_id :: bool
  v6_remote_id :: "bytes option"
  v6_vss :: vss_config

datatype dpd_mode = IDpd | HDpd

datatype hash_function = Murmur3

record smf_config =
  smf_enabled :: bool
  dpd_window_secs :: u64
  smf_dpd_mode :: dpd_mode
  smf_hash_function :: hash_function

record relay_config =
  interfaces :: "interface_config list"
  dhcpv4 :: dhcpv4_config
  dhcpv6 :: dhcpv6_config
  smf :: smf_config
  max_packet_size :: nat

definition VSS_TYPE_NVT_ASCII :: byte where "VSS_TYPE_NVT_ASCII = 0"

definition VSS_TYPE_RFC2685_VPN_ID :: byte where "VSS_TYPE_RFC2685_VPN_ID = 1"

definition VSS_TYPE_GLOBAL :: byte where "VSS_TYPE_GLOBAL = 255"

lemmas vss_type_defs = VSS_TYPE_NVT_ASCII_def VSS_TYPE_RFC2685_VPN_ID_def VSS_TYPE_GLOBAL_def

section \<open>Defaults\<close>

definition vss_config_default :: vss_config where
  "vss_config_default =
     \<lparr> vss_enabled = False, vss_type = VSS_TYPE_GLOBAL, vss_info = [], vpn_name = None \<rparr>"

definition dhcpv4_config_default :: dhcpv4_config where
  "dhcpv4_config_default =
     \<lparr> v4_server_addrs = [], enable_option82 = True, circuit_id = None,
       v4_remote_id = None, v4_vss = vss_config_default \<rparr>"

definition dhcpv6_config_default :: dhcpv6_config where
  "dhcpv6_config_default =
     \<lparr> v6_server_addrs = [], enable_interface_id = True, enable_remote_id = True,
       v6_remote_id = None, v6_vss = vss_config_default \<rparr>"

definition smf_config_default :: smf_config where
  "smf_config_default =
     \<lparr> smf_enabled = False, dpd_window_secs = 10, smf_dpd_mode = IDpd,
       smf_hash_function = Murmur3 \<rparr>"

definition relay_config_default :: relay_config where
  "relay_config_default =
     \<lparr> interfaces = [], dhcpv4 = dhcpv4_config_default, dhcpv6 = dhcpv6_config_default,
       smf = smf_config_default, max_packet_size = 1500 \<rparr>"

section \<open>Validation\<close>

definition validate_vss :: "vss_config \<Rightarrow> unit relay_result" where
  "validate_vss c =
     (if vss_type c = VSS_TYPE_NVT_ASCII then Inr ()
      else if vss_type c = VSS_TYPE_RFC2685_VPN_ID then
        (if length (vss_info c) \<noteq> 7
         then Inl (Config (''VPN-ID (type 1) requires exactly 7 bytes, got '' @
                           show_nat (length (vss_info c))))
         else Inr ())
      else if vss_type c = VSS_TYPE_GLOBAL then
        (if vss_info c \<noteq> []
         then Inl (Config ''Global VSS (type 255) requires empty vss_info'')
         else Inr ())
      else Inl (Config (''unsupported VSS type: '' @ show_nat (unat (vss_type c)))))"

fun check_names :: "interface_config list \<Rightarrow> unit relay_result" where
  "check_names [] = Inr ()"
| "check_names (i # is) =
     (if if_name i = [] then Inl (Config ''interface name cannot be empty'')
      else check_names is)"

definition validate_config :: "relay_config \<Rightarrow> unit relay_result" where
  "validate_config c =
     (if interfaces c = [] then Inl (Config ''at least one interface is required'')
      else case check_names (interfaces c) of Inl e \<Rightarrow> Inl e | Inr _ \<Rightarrow>
        (case (if vss_enabled (v4_vss (dhcpv4 c)) then validate_vss (v4_vss (dhcpv4 c))
               else Inr ()) of
           Inl e \<Rightarrow> Inl e
         | Inr _ \<Rightarrow>
             if vss_enabled (v6_vss (dhcpv6 c)) then validate_vss (v6_vss (dhcpv6 c))
             else Inr ()))"

section \<open>What validation accepts\<close>

text \<open>The constraint table of RFC 6607 as the README states it.\<close>

definition vss_ok :: "vss_config \<Rightarrow> bool" where
  "vss_ok c \<longleftrightarrow>
     vss_type c = 0 \<or> (vss_type c = 1 \<and> length (vss_info c) = 7) \<or>
     (vss_type c = 255 \<and> vss_info c = [])"

lemma validate_vss_iff: "validate_vss c = Inr () \<longleftrightarrow> vss_ok c"
  by (auto simp: validate_vss_def vss_ok_def vss_type_defs)

lemma validate_vss_cases: "validate_vss c = Inr () \<or> (\<exists>m. validate_vss c = Inl (Config m))"
  by (auto simp: validate_vss_def)

lemma check_names_iff: "check_names is = Inr () \<longleftrightarrow> (\<forall>i \<in> set is. if_name i \<noteq> [])"
  by (induction "is") auto

lemma check_names_error: "check_names is = Inl e \<Longrightarrow> \<exists>m. e = Config m"
  by (induction "is") (auto split: if_splits)

definition config_ok :: "relay_config \<Rightarrow> bool" where
  "config_ok c \<longleftrightarrow>
     interfaces c \<noteq> [] \<and> (\<forall>i \<in> set (interfaces c). if_name i \<noteq> []) \<and>
     (vss_enabled (v4_vss (dhcpv4 c)) \<longrightarrow> vss_ok (v4_vss (dhcpv4 c))) \<and>
     (vss_enabled (v6_vss (dhcpv6 c)) \<longrightarrow> vss_ok (v6_vss (dhcpv6 c)))"

lemma unit_sum_cases: "(x :: 'e + unit) = Inr () \<or> (\<exists>e. x = Inl e)"
  by (cases x) auto

lemma validate_config_iff: "validate_config c = Inr () \<longleftrightarrow> config_ok c"
  unfolding validate_config_def config_ok_def
  by (auto simp: check_names_iff [symmetric] validate_vss_iff [symmetric]
      split: sum.splits if_splits)

lemma validate_config_error: "validate_config c = Inl e \<Longrightarrow> \<exists>m. e = Config m"
  unfolding validate_config_def
  by (auto split: sum.splits if_splits dest!: check_names_error)
    (metis Inl_Inr_False Inl_inject validate_vss_cases)+

end
