(* ===== verification/Pipeline.thy ===== *)
theory Pipeline
  imports Relay_Config
begin

text \<open>
  \<open>pipeline.rs\<close>: the context a packet carries through the stages, the decode/modify/encode
  step on its buffer, and the chain of stages. A stage is a record of its name and its
  \<open>process\<close> method; \<open>process\<close> returns its \<open>Result<bool, RelayError>\<close> with the updated context,
  or \<open>None\<close> where it would panic.
\<close>

section \<open>Context\<close>

record pipeline_ctx =
  raw_in :: bytes
  buffer :: bytes
  src_addr :: socket_addr
  interface :: string
  dst_addr :: "socket_addr option"
  is_reforwarded :: bool
  is_trusted_circuit :: bool
  metadata :: "string \<rightharpoonup> string"

definition ctx_new :: "bytes \<Rightarrow> socket_addr \<Rightarrow> string \<Rightarrow> pipeline_ctx" where
  "ctx_new raw src iface =
     \<lparr> raw_in = raw, buffer = raw, src_addr = src, interface = iface, dst_addr = None,
       is_reforwarded = False, is_trusted_circuit = False, metadata = Map.empty \<rparr>"

lemma ctx_new_sel [simp]:
  "raw_in (ctx_new r s i) = r" "buffer (ctx_new r s i) = r" "src_addr (ctx_new r s i) = s"
  "interface (ctx_new r s i) = i" "dst_addr (ctx_new r s i) = None"
  "is_reforwarded (ctx_new r s i) = False" "is_trusted_circuit (ctx_new r s i) = False"
  "metadata (ctx_new r s i) = Map.empty"
  by (simp_all add: ctx_new_def)

text \<open>
  \<open>modify_v4\<close> and \<open>modify_v6\<close> have one body over two message types: decode the buffer, apply
  the closure, encode the result back. The decoder and the encoder are arguments; their errors
  are given by their rendering. The buffer changes only when all three succeed.
\<close>

definition modify_msg ::
    "(bytes \<Rightarrow> string + 'm) \<Rightarrow> ('m \<Rightarrow> string + bytes) \<Rightarrow> string \<Rightarrow>
     ('m \<Rightarrow> 'm relay_result) \<Rightarrow> pipeline_ctx \<Rightarrow> unit relay_result \<times> pipeline_ctx" where
  "modify_msg dec enc stage f ctx =
     (case dec (buffer ctx) of
        Inl e \<Rightarrow> (Inl (Parse (stage @ '' decode: '' @ e)), ctx)
      | Inr msg \<Rightarrow>
         (case f msg of
            Inl e \<Rightarrow> (Inl e, ctx)
          | Inr msg' \<Rightarrow>
             (case enc msg' of
                Inl e \<Rightarrow> (Inl (Parse (stage @ '' encode: '' @ e)), ctx)
              | Inr buf \<Rightarrow> (Inr (), ctx\<lparr>buffer := buf\<rparr>))))"

section \<open>Stages and pipelines\<close>

type_synonym stage_run = "(bool relay_result \<times> pipeline_ctx) option"

text \<open>
  The pattern \<open>ctx.modify_v4(..)?; ...; Ok(true)\<close> of the stages: an error is returned as it is,
  after a success the rest of the stage runs on the context.
\<close>

definition modify_then ::
    "unit relay_result \<times> pipeline_ctx \<Rightarrow> (pipeline_ctx \<Rightarrow> pipeline_ctx) \<Rightarrow> stage_run" where
  "modify_then r rest =
     (case r of (Inl e, ctx) \<Rightarrow> Some (Inl e, ctx) | (Inr _, ctx) \<Rightarrow> Some (Inr True, rest ctx))"

record stage =
  stage_name :: string
  stage_process :: "pipeline_ctx \<Rightarrow> stage_run"

record pipeline =
  stages :: "stage list"

definition pipeline_new :: pipeline where
  "pipeline_new = \<lparr> stages = [] \<rparr>"

definition with_stages :: "stage list \<Rightarrow> pipeline" where
  "with_stages sts = \<lparr> stages = sts \<rparr>"

definition add_stage :: "stage \<Rightarrow> pipeline \<Rightarrow> pipeline" where
  "add_stage st p = p\<lparr>stages := stages p @ [st]\<rparr>"

definition pipeline_is_empty :: "pipeline \<Rightarrow> bool" where
  "pipeline_is_empty p \<longleftrightarrow> stages p = []"

definition pipeline_len :: "pipeline \<Rightarrow> nat" where
  "pipeline_len p = length (stages p)"

fun execute_stages :: "stage list \<Rightarrow> pipeline_ctx \<Rightarrow> stage_run" where
  "execute_stages [] ctx = Some (Inr True, ctx)"
| "execute_stages (st # sts) ctx =
     (case stage_process st ctx of
        None \<Rightarrow> None
      | Some (Inl e, ctx') \<Rightarrow> Some (Inl e, ctx')
      | Some (Inr result, ctx') \<Rightarrow>
          if \<not> result then Some (Inr False, ctx') else execute_stages sts ctx')"

definition execute :: "pipeline \<Rightarrow> pipeline_ctx \<Rightarrow> stage_run" where
  "execute p ctx = execute_stages (stages p) ctx"

lemma stages_with_stages [simp]: "stages (with_stages sts) = sts"
  by (simp add: with_stages_def)

lemma execute_with_stages [simp]: "execute (with_stages sts) = execute_stages sts"
  by (simp add: execute_def fun_eq_iff)

lemma stages_add_stage [simp]: "stages (add_stage st p) = stages p @ [st]"
  by (simp add: add_stage_def)

text \<open>Running a concatenation: the second part runs exactly when the first ended in \<open>Ok(true)\<close>.\<close>

lemma execute_stages_append:
  "execute_stages (xs @ ys) ctx =
     (case execute_stages xs ctx of
        Some (Inr True, ctx') \<Rightarrow> execute_stages ys ctx'
      | r \<Rightarrow> r)"
  by (induction xs arbitrary: ctx) (auto split: option.splits sum.splits prod.splits bool.splits)

lemma execute_add_stage:
  "execute (add_stage st p) ctx =
     (case execute p ctx of
        Some (Inr True, ctx') \<Rightarrow> execute_stages [st] ctx'
      | r \<Rightarrow> r)"
  unfolding execute_def stages_add_stage by (rule execute_stages_append)

section \<open>The contract of a stage\<close>

text \<open>
  What the pipeline relies on in a stage: it does not panic, and it leaves alone the fields of
  the context that belong to the receiver of the packet (the inbound bytes, the source, the
  interface and the trust of the circuit).
\<close>

definition same_origin :: "pipeline_ctx \<Rightarrow> pipeline_ctx \<Rightarrow> bool" where
  "same_origin c c' \<longleftrightarrow>
     raw_in c' = raw_in c \<and> src_addr c' = src_addr c \<and> interface c' = interface c \<and>
     is_trusted_circuit c' = is_trusted_circuit c"

lemma same_origin_refl [simp]: "same_origin c c"
  by (simp add: same_origin_def)

lemma same_origin_trans: "same_origin c d \<Longrightarrow> same_origin d e \<Longrightarrow> same_origin c e"
  by (simp add: same_origin_def)

lemma same_origin_upd [simp]:
  "same_origin c (d\<lparr>buffer := b\<rparr>) = same_origin c d"
  "same_origin c (d\<lparr>dst_addr := a\<rparr>) = same_origin c d"
  "same_origin c (d\<lparr>is_reforwarded := r\<rparr>) = same_origin c d"
  "same_origin c (d\<lparr>metadata := m\<rparr>) = same_origin c d"
  by (simp_all add: same_origin_def)

lemma modify_msg_origin:
  "modify_msg dec enc stage f ctx = (r, ctx') \<Longrightarrow> \<exists>b. ctx' = ctx\<lparr>buffer := b\<rparr>"
  by (auto simp: modify_msg_def split: sum.splits intro: exI [of _ "buffer ctx"])

lemma modify_msg_same_origin:
  "modify_msg dec enc stage f ctx = (r, ctx') \<Longrightarrow> same_origin ctx ctx'"
  by (auto dest!: modify_msg_origin)

lemma modify_then_simps [simp]:
  "modify_then (Inl e, ctx) rest = Some (Inl e, ctx)"
  "modify_then (Inr u, ctx) rest = Some (Inr True, rest ctx)"
  by (simp_all add: modify_then_def)

lemma modify_then_not_None: "modify_then r rest \<noteq> None"
  by (cases r; cases "fst r") (auto simp: modify_then_def)

lemma modify_then_Some [simp]: "\<exists>a b. modify_then r rest = Some (a, b)"
  using modify_then_not_None [of r rest] by auto

lemma modify_then_origin:
  assumes "modify_then (modify_msg dec enc stage f ctx) rest = Some (r, ctx')"
    and "\<And>c. same_origin ctx c \<Longrightarrow> same_origin ctx (rest c)"
  shows "same_origin ctx ctx'"
proof (cases "modify_msg dec enc stage f ctx")
  case (Pair u c)
  then have "same_origin ctx c" by (rule modify_msg_same_origin)
  with Pair assms show ?thesis by (cases u) auto
qed

lemma modify_then_passes: "modify_then r rest = Some (Inr b, ctx') \<Longrightarrow> b"
  by (cases r; cases "fst r") (auto simp: modify_then_def)

locale sound_stage =
  fixes process :: "pipeline_ctx \<Rightarrow> stage_run"
  assumes no_panic: "process ctx \<noteq> None"
    and origin: "process ctx = Some (r, ctx') \<Longrightarrow> same_origin ctx ctx'"
begin

lemma runs: "\<exists>r ctx'. process ctx = Some (r, ctx') \<and> same_origin ctx ctx'"
  using no_panic [of ctx] origin by (cases "process ctx") auto

end

text \<open>A stage that never drops a packet without an error.\<close>

locale passing_stage = sound_stage +
  assumes passes: "process ctx = Some (Inr b, ctx') \<Longrightarrow> b"

text \<open>The client of the contract: a pipeline all of whose stages satisfy it.\<close>

locale sound_pipeline =
  fixes sts :: "stage list"
  assumes all_sound: "st \<in> set sts \<Longrightarrow> sound_stage (stage_process st)"
begin

lemma execute_runs:
  "set xs \<subseteq> set sts \<Longrightarrow>
   \<exists>r ctx'. execute_stages xs ctx = Some (r, ctx') \<and> same_origin ctx ctx'"
proof (induction xs arbitrary: ctx)
  case (Cons st xs)
  from Cons.prems have "sound_stage (stage_process st)" by (auto intro: all_sound)
  then obtain r c where c: "stage_process st ctx = Some (r, c)" "same_origin ctx c"
    using sound_stage.runs by blast
  obtain r' c' where "execute_stages xs c = Some (r', c')" "same_origin c c'"
    using Cons by force
  with c show ?case
    by (cases r) (auto intro: same_origin_trans)
qed simp

lemma total: "execute_stages sts ctx \<noteq> None"
  using execute_runs [of sts ctx] by auto

lemma keeps_origin: "execute_stages sts ctx = Some (r, ctx') \<Longrightarrow> same_origin ctx ctx'"
  using execute_runs [of sts ctx] by auto

end

end
