(* ===== verification/Dhcp_V4_Api.thy ===== *)
theory Dhcp_V4_Api
  imports Pipeline
begin

text \<open>
  The interface of the third-party crate \<open>dhcproto\<close> for DHCPv4, as the sources use it. The crate
  is not part of the repository, so its message type \<open>'m\<close>, its \<open>RelayAgentInformation\<close> type
  \<open>'i\<close>, its relay flags \<open>'f\<close> and all its functions are parameters, gathered in the record
  \<open>v4_api\<close>, the first argument of every definition that uses them.

  What the sources rely on is stated by the predicate \<open>dhcproto_v4_ok\<close>: setters and getters
  agree, an options table holds at most one option per code, sub-options are keyed by their code,
  and decoding an encoded message yields a message with the same fields. All laws speak of the
  \<^emph>\<open>view\<close> of a message: its addresses, its type and the multiset of its Option 82 sub-options.
\<close>

section \<open>Data of the interface\<close>

text \<open>The relay sub-option codes the sources name; all others are told apart by their number.\<close>

datatype relay_code =
    AgentCircuitIdCode
  | AgentRemoteIdCode
  | VirtualSubnet
  | VirtualSubnetControl
  | OtherRelayCode byte

text \<open>
  \<open>relay::RelayInfo\<close>: the match of \<open>relay_info_to_sub_opt\<close> is exhaustive, so these are all its
  variants. \<open>UnknownRelayInfo c d\<close> is \<open>Unknown(UnknownInfo::new(c, d))\<close>.
\<close>

datatype 'f relay_info =
    AgentCircuitId bytes
  | AgentRemoteId bytes
  | DocsisDeviceClass u32
  | LinkSelection ipv4addr
  | SubscriberId bytes
  | RelayAgentFlags 'f
  | ServerIdentifierOverride ipv4addr
  | UnknownRelayInfo relay_code bytes

datatype v4_message_type =
    Discover | Request | Inform | Decline | Release | OtherV4MessageType byte

datatype v4_option_code = RelayAgentInformationCode | OtherV4OptionCode byte

datatype 'i v4_option = RelayAgentInformation 'i | OtherV4Option

record ('m, 'i, 'f) v4_api =
  v4_decode :: "bytes \<Rightarrow> string + 'm"
  v4_encode :: "'m \<Rightarrow> string + bytes"
  v4_giaddr :: "'m \<Rightarrow> ipv4addr"
  v4_set_giaddr :: "'m \<Rightarrow> ipv4addr \<Rightarrow> 'm"
  v4_ciaddr :: "'m \<Rightarrow> ipv4addr"
  v4_msg_type :: "'m \<Rightarrow> v4_message_type option"
  v4_contains :: "'m \<Rightarrow> v4_option_code \<Rightarrow> bool"
  v4_get :: "'m \<Rightarrow> v4_option_code \<Rightarrow> 'i v4_option option"
  v4_insert :: "'m \<Rightarrow> 'i v4_option \<Rightarrow> 'm"
  v4_remove :: "'m \<Rightarrow> v4_option_code \<Rightarrow> 'm \<times> 'i v4_option option"
  v4_write :: "'m \<Rightarrow> v4_option_code \<Rightarrow> 'i v4_option \<Rightarrow> 'm"
    \<comment> \<open>the message after a write through the reference that \<open>get_mut\<close> returned\<close>
  relay_default :: 'i
  relay_insert :: "'i \<Rightarrow> 'f relay_info \<Rightarrow> 'i"
  relay_iter :: "'i \<Rightarrow> (relay_code \<times> 'f relay_info) list"
  relay_info_code :: "'f relay_info \<Rightarrow> relay_code"
  relay_code_u8 :: "relay_code \<Rightarrow> byte"

section \<open>The view of a message\<close>

type_synonym 'f sub_options = "(relay_code \<times> 'f relay_info) multiset"

record 'f v4_view =
  vw_giaddr :: ipv4addr
  vw_ciaddr :: ipv4addr
  vw_type :: "v4_message_type option"
  vw_opt82 :: "'f sub_options option"

definition opt82_of :: "('m, 'i, 'f) v4_api \<Rightarrow> 'm \<Rightarrow> 'f sub_options option" where
  "opt82_of A m =
     (case v4_get A m RelayAgentInformationCode of
        Some (RelayAgentInformation i) \<Rightarrow> Some (mset (relay_iter A i))
      | _ \<Rightarrow> None)"

definition v4_view :: "('m, 'i, 'f) v4_api \<Rightarrow> 'm \<Rightarrow> 'f v4_view" where
  "v4_view A m =
     \<lparr> vw_giaddr = v4_giaddr A m, vw_ciaddr = v4_ciaddr A m, vw_type = v4_msg_type A m,
       vw_opt82 = opt82_of A m \<rparr>"

lemma v4_view_sel [simp]:
  "vw_giaddr (v4_view A m) = v4_giaddr A m" "vw_ciaddr (v4_view A m) = v4_ciaddr A m"
  "vw_type (v4_view A m) = v4_msg_type A m" "vw_opt82 (v4_view A m) = opt82_of A m"
  by (simp_all add: v4_view_def)

text \<open>
  A sub-option is canonical when the decoder would build it: \<open>Unknown\<close> is used only for codes
  that have no variant of their own. Encoding a message with a non-canonical sub-option and
  decoding it again would change the variant.
\<close>

fun canonical_info :: "'f relay_info \<Rightarrow> bool" where
  "canonical_info (UnknownRelayInfo c d) \<longleftrightarrow>
     c \<notin> {AgentCircuitIdCode, AgentRemoteIdCode} \<and>
     c \<notin> OtherRelayCode ` {1, 2, 4, 5, 6, 10, 11}"
| "canonical_info _ \<longleftrightarrow> True"

definition canonical_view :: "'f v4_view \<Rightarrow> bool" where
  "canonical_view v \<longleftrightarrow>
     (case vw_opt82 v of None \<Rightarrow> True | Some so \<Rightarrow> \<forall>p \<in># so. canonical_info (snd p))"

lemma canonical_view_upd [simp]:
  "canonical_view (v\<lparr>vw_giaddr := ip\<rparr>) = canonical_view v"
  "canonical_view (v\<lparr>vw_opt82 := None\<rparr>)"
  "canonical_view (v\<lparr>vw_opt82 := Some so\<rparr>) \<longleftrightarrow> (\<forall>p \<in># so. canonical_info (snd p))"
  by (simp_all add: canonical_view_def)

section \<open>What the sources rely on\<close>

text \<open>The sub-options form a table keyed by their code; inserting replaces.\<close>

definition sub_put :: "('m, 'i, 'f) v4_api \<Rightarrow> 'f relay_info \<Rightarrow> 'f sub_options \<Rightarrow> 'f sub_options" where
  "sub_put A x so =
     filter_mset (\<lambda>p. fst p \<noteq> relay_info_code A x) so + {# (relay_info_code A x, x) #}"

definition relay_info_ok :: "('m, 'i, 'f) v4_api \<Rightarrow> bool" where
  "relay_info_ok A \<longleftrightarrow>
     relay_iter A (relay_default A) = [] \<and>
     (\<forall>i x. mset (relay_iter A (relay_insert A i x)) = sub_put A x (mset (relay_iter A i))) \<and>
     (\<forall>d. relay_info_code A (AgentCircuitId d) = AgentCircuitIdCode) \<and>
     (\<forall>d. relay_info_code A (AgentRemoteId d) = AgentRemoteIdCode) \<and>
     (\<forall>c d. relay_info_code A (UnknownRelayInfo c d) = c)"

text \<open>Setters and the options table: what is stored under code 82 is a relay information option.\<close>

definition v4_fields_ok :: "('m, 'i, 'f) v4_api \<Rightarrow> bool" where
  "v4_fields_ok A \<longleftrightarrow>
     (\<forall>m ip. v4_view A (v4_set_giaddr A m ip) = (v4_view A m)\<lparr>vw_giaddr := ip\<rparr>) \<and>
     (\<forall>m. v4_contains A m RelayAgentInformationCode \<longleftrightarrow>
            v4_get A m RelayAgentInformationCode \<noteq> None) \<and>
     (\<forall>m. v4_get A m RelayAgentInformationCode \<noteq> Some OtherV4Option) \<and>
     (\<forall>m i. v4_view A (v4_insert A m (RelayAgentInformation i)) =
              (v4_view A m)\<lparr>vw_opt82 := Some (mset (relay_iter A i))\<rparr>) \<and>
     (\<forall>m. v4_view A (fst (v4_remove A m RelayAgentInformationCode)) =
            (v4_view A m)\<lparr>vw_opt82 := None\<rparr>) \<and>
     (\<forall>m. snd (v4_remove A m RelayAgentInformationCode) =
            v4_get A m RelayAgentInformationCode) \<and>
     (\<forall>m i. v4_get A m RelayAgentInformationCode \<noteq> None \<longrightarrow>
            v4_view A (v4_write A m RelayAgentInformationCode (RelayAgentInformation i)) =
              (v4_view A m)\<lparr>vw_opt82 := Some (mset (relay_iter A i))\<rparr>)"

text \<open>The codec: decoding builds canonical sub-options, and re-reading keeps the view.\<close>

definition v4_codec_ok :: "('m, 'i, 'f) v4_api \<Rightarrow> bool" where
  "v4_codec_ok A \<longleftrightarrow>
     (\<forall>b m. v4_decode A b = Inr m \<longrightarrow> canonical_view (v4_view A m)) \<and>
     (\<forall>m b. canonical_view (v4_view A m) \<longrightarrow> v4_encode A m = Inr b \<longrightarrow>
        (\<exists>m'. v4_decode A b = Inr m' \<and> v4_view A m' = v4_view A m))"

definition dhcproto_v4_ok :: "('m, 'i, 'f) v4_api \<Rightarrow> bool" where
  "dhcproto_v4_ok A \<longleftrightarrow> relay_info_ok A \<and> v4_fields_ok A \<and> v4_codec_ok A"

text \<open>No size limit is hit: the encoder succeeds on every message.\<close>

definition v4_encode_total :: "('m, 'i, 'f) v4_api \<Rightarrow> bool" where
  "v4_encode_total A \<longleftrightarrow> (\<forall>m. \<exists>b. v4_encode A m = Inr b)"

definition modify_v4 ::
    "('m, 'i, 'f) v4_api \<Rightarrow> string \<Rightarrow> ('m \<Rightarrow> 'm relay_result) \<Rightarrow> pipeline_ctx \<Rightarrow>
     unit relay_result \<times> pipeline_ctx" where
  "modify_v4 A = modify_msg (v4_decode A) (v4_encode A)"

lemma opt82_cases:
  assumes "dhcproto_v4_ok A"
  obtains (absent) "v4_get A m RelayAgentInformationCode = None" "opt82_of A m = None"
      "\<not> v4_contains A m RelayAgentInformationCode"
  | (present) i where "v4_get A m RelayAgentInformationCode = Some (RelayAgentInformation i)"
      "opt82_of A m = Some (mset (relay_iter A i))" "v4_contains A m RelayAgentInformationCode"
proof (cases "v4_get A m RelayAgentInformationCode")
  case None
  with assms have "\<not> v4_contains A m RelayAgentInformationCode"
    by (simp add: dhcproto_v4_ok_def v4_fields_ok_def)
  with None show ?thesis by (intro absent) (simp_all add: opt82_of_def)
next
  case (Some opt)
  moreover from assms Some obtain i where "opt = RelayAgentInformation i"
    by (cases opt) (auto simp: dhcproto_v4_ok_def v4_fields_ok_def)
  moreover from assms Some have "v4_contains A m RelayAgentInformationCode"
    by (simp add: dhcproto_v4_ok_def v4_fields_ok_def)
  ultimately show ?thesis by (intro present) (simp_all add: opt82_of_def)
qed

lemma contains_iff_opt82:
  "dhcproto_v4_ok A \<Longrightarrow> v4_contains A m RelayAgentInformationCode \<longleftrightarrow> opt82_of A m \<noteq> None"
  by (cases rule: opt82_cases [of A m]) auto

lemma decode_canonical:
  "dhcproto_v4_ok A \<Longrightarrow> v4_decode A b = Inr m \<Longrightarrow> canonical_view (v4_view A m)"
  by (auto simp: dhcproto_v4_ok_def v4_codec_ok_def)

lemma encode_decode:
  assumes "dhcproto_v4_ok A" "canonical_view (v4_view A m)" "v4_encode A m = Inr b"
  obtains m' where "v4_decode A b = Inr m'" "v4_view A m' = v4_view A m"
  using assms unfolding dhcproto_v4_ok_def v4_codec_ok_def by blast

lemma view_set_giaddr:
  "dhcproto_v4_ok A \<Longrightarrow> v4_view A (v4_set_giaddr A m ip) = (v4_view A m)\<lparr>vw_giaddr := ip\<rparr>"
  by (simp add: dhcproto_v4_ok_def v4_fields_ok_def)

lemma view_insert:
  "dhcproto_v4_ok A \<Longrightarrow>
   v4_view A (v4_insert A m (RelayAgentInformation i)) =
     (v4_view A m)\<lparr>vw_opt82 := Some (mset (relay_iter A i))\<rparr>"
  by (simp add: dhcproto_v4_ok_def v4_fields_ok_def)

lemma view_remove:
  "dhcproto_v4_ok A \<Longrightarrow>
   v4_view A (fst (v4_remove A m RelayAgentInformationCode)) = (v4_view A m)\<lparr>vw_opt82 := None\<rparr>"
  by (simp add: dhcproto_v4_ok_def v4_fields_ok_def)

lemma remove_result:
  "dhcproto_v4_ok A \<Longrightarrow>
   snd (v4_remove A m RelayAgentInformationCode) = v4_get A m RelayAgentInformationCode"
  by (simp add: dhcproto_v4_ok_def v4_fields_ok_def)

lemma view_write:
  "dhcproto_v4_ok A \<Longrightarrow> v4_get A m RelayAgentInformationCode \<noteq> None \<Longrightarrow>
   v4_view A (v4_write A m RelayAgentInformationCode (RelayAgentInformation i)) =
     (v4_view A m)\<lparr>vw_opt82 := Some (mset (relay_iter A i))\<rparr>"
  by (simp add: dhcproto_v4_ok_def v4_fields_ok_def)

lemma relay_iter_default: "dhcproto_v4_ok A \<Longrightarrow> relay_iter A (relay_default A) = []"
  by (simp add: dhcproto_v4_ok_def relay_info_ok_def)

lemma relay_iter_insert:
  "dhcproto_v4_ok A \<Longrightarrow>
   mset (relay_iter A (relay_insert A i x)) = sub_put A x (mset (relay_iter A i))"
  by (simp add: dhcproto_v4_ok_def relay_info_ok_def)

lemma relay_codes:
  "dhcproto_v4_ok A \<Longrightarrow> relay_info_code A (AgentCircuitId d) = AgentCircuitIdCode"
  "dhcproto_v4_ok A \<Longrightarrow> relay_info_code A (AgentRemoteId d) = AgentRemoteIdCode"
  "dhcproto_v4_ok A \<Longrightarrow> relay_info_code A (UnknownRelayInfo c d) = c"
  by (simp_all add: dhcproto_v4_ok_def relay_info_ok_def)

lemmas dhcproto_v4_laws =
  view_set_giaddr view_insert view_remove remove_result view_write
  relay_iter_default relay_iter_insert relay_codes

end
