(* ===== verification/V4_Giaddr.thy ===== *)
theory V4_Giaddr
  imports Dhcp_V4_Api
begin

text \<open>
  \<open>dhcp/v4/giaddr.rs\<close>: the decision on the relay address field of a client packet, and the
  packet size check. \<open>usize\<close> is 64 bits wide; its addition panics on overflow when overflow
  checks are compiled in (argument \<open>checks\<close>) and wraps around otherwise.
\<close>

datatype giaddr_decision =
    FirstRelay | TrustedCircuit | UntrustedCircuit | Spoof | Reforwarded

definition giaddr_validate ::
    "('m, 'i, 'f) v4_api \<Rightarrow> 'm \<Rightarrow> ipv4addr list \<Rightarrow> bool \<Rightarrow> giaddr_decision" where
  "giaddr_validate A msg local_addrs is_trusted =
     (let giaddr = v4_giaddr A msg;
          has_opt82 = v4_contains A msg RelayAgentInformationCode in
      if giaddr = IPV4_UNSPECIFIED then
        (if has_opt82 then (if is_trusted then TrustedCircuit else UntrustedCircuit)
         else FirstRelay)
      else if giaddr \<in> set local_addrs then Spoof
      else Reforwarded)"

definition set_giaddr :: "('m, 'i, 'f) v4_api \<Rightarrow> 'm \<Rightarrow> ipv4addr \<Rightarrow> 'm" where
  "set_giaddr A msg iface_ip = v4_set_giaddr A msg iface_ip"

definition usize_add :: "bool \<Rightarrow> u64 \<Rightarrow> u64 \<Rightarrow> u64 option" where
  "usize_add checks a b =
     (if checks \<and> 2 ^ 64 \<le> unat a + unat b then None else Some (a + b))"

definition check_packet_size :: "bool \<Rightarrow> u64 \<Rightarrow> u64 \<Rightarrow> u64 \<Rightarrow> bool option" where
  "check_packet_size checks current_size option_len max_size = do {
     s \<leftarrow> usize_add checks current_size option_len;
     Some (s \<le> max_size) }"

lemma giaddr_validate_simps:
  "v4_giaddr A msg = IPV4_UNSPECIFIED \<Longrightarrow> \<not> v4_contains A msg RelayAgentInformationCode \<Longrightarrow>
     giaddr_validate A msg ls t = FirstRelay"
  "v4_giaddr A msg = IPV4_UNSPECIFIED \<Longrightarrow> v4_contains A msg RelayAgentInformationCode \<Longrightarrow>
     giaddr_validate A msg ls t = (if t then TrustedCircuit else UntrustedCircuit)"
  "v4_giaddr A msg \<noteq> IPV4_UNSPECIFIED \<Longrightarrow>
     giaddr_validate A msg ls t = (if v4_giaddr A msg \<in> set ls then Spoof else Reforwarded)"
  by (simp_all add: giaddr_validate_def)

lemma usize_add_exact:
  "unat a + unat b < 2 ^ 64 \<Longrightarrow> \<exists>s. usize_add checks a b = Some s \<and> unat s = unat a + unat b"
  by (simp add: usize_add_def unat_word_ariths)

lemma usize_add_wraps:
  "2 ^ 64 \<le> unat a + unat b \<Longrightarrow> \<exists>s. usize_add False a b = Some s \<and> s < a"
proof -
  assume o: "2 ^ 64 \<le> unat a + unat b"
  have a: "unat a < 2 ^ LENGTH(64)" and b: "unat b < 2 ^ LENGTH(64)"
    by (rule unsigned_less)+
  then have "(unat a + unat b) mod 2 ^ 64 = unat a + unat b - 2 ^ 64"
    using o by (simp add: mod_if)
  then have "unat (a + b) < unat a"
    using o a b by (simp add: unat_word_ariths)
  then show ?thesis by (simp add: usize_add_def word_less_nat_alt)
qed

end
