(* ===== verification/V4_Option82.thy ===== *)
theory V4_Option82
  imports Dhcp_V4_Api
begin

text \<open>
  \<open>dhcp/v4/option82.rs\<close>: decoded sub-options, insertion and stripping of Option 82 on a
  DHCPv4 message, and the comparison of an echoed option with the one that was sent.
\<close>

record sub_option =
  so_code :: byte
  so_data :: bytes

definition sub_option_new :: "byte \<Rightarrow> bytes \<Rightarrow> sub_option" where
  "sub_option_new c d = \<lparr> so_code = c, so_data = d \<rparr>"

fun relay_info_to_sub_opt :: "('m, 'i, 'f) v4_api \<Rightarrow> 'f relay_info \<Rightarrow> sub_option" where
  "relay_info_to_sub_opt A (AgentCircuitId d) = sub_option_new 1 d"
| "relay_info_to_sub_opt A (AgentRemoteId d) = sub_option_new 2 d"
| "relay_info_to_sub_opt A (DocsisDeviceClass d) = sub_option_new 4 (be32 d)"
| "relay_info_to_sub_opt A (LinkSelection a) = sub_option_new 5 (ipv4_octets a)"
| "relay_info_to_sub_opt A (SubscriberId d) = sub_option_new 6 d"
| "relay_info_to_sub_opt A (RelayAgentFlags f) = sub_option_new 10 [0]"
| "relay_info_to_sub_opt A (ServerIdentifierOverride a) = sub_option_new 11 (ipv4_octets a)"
| "relay_info_to_sub_opt A (UnknownRelayInfo c d) = sub_option_new (relay_code_u8 A c) d"

definition sub_opts_of :: "('m, 'i, 'f) v4_api \<Rightarrow> 'i \<Rightarrow> sub_option list" where
  "sub_opts_of A info = map (\<lambda>(_, ri). relay_info_to_sub_opt A ri) (relay_iter A info)"

definition no_sub_option_msg :: string where
  "no_sub_option_msg =
     ''Option 82 requires at least one sub-option (circuit_id or remote_id)''"

text \<open>The dash of the message is U+2014, three bytes in UTF-8.\<close>

definition already_present_msg :: string where
  "already_present_msg =
     ''Option 82 already present '' @ [CHR 0xE2, CHR 0x80, CHR 0x94] @
     '' reforwarded packets must not be modified''"

definition agent_info_for ::
    "('m, 'i, 'f) v4_api \<Rightarrow> bytes option \<Rightarrow> bytes option \<Rightarrow> 'i" where
  "agent_info_for A circuit remote =
     (let info0 = relay_default A;
          info1 = (case circuit of Some d \<Rightarrow> relay_insert A info0 (AgentCircuitId d)
                                 | None \<Rightarrow> info0) in
      case remote of Some d \<Rightarrow> relay_insert A info1 (AgentRemoteId d) | None \<Rightarrow> info1)"

definition option82_insert ::
    "('m, 'i, 'f) v4_api \<Rightarrow> 'm \<Rightarrow> bytes option \<Rightarrow> bytes option \<Rightarrow> 'm relay_result" where
  "option82_insert A msg circuit remote =
     (if circuit = None \<and> remote = None then Inl (Config no_sub_option_msg)
      else if v4_contains A msg RelayAgentInformationCode
      then Inl (Config already_present_msg)
      else Inr (v4_insert A msg (RelayAgentInformation (agent_info_for A circuit remote))))"

text \<open>The message after the removal, and the sub-options it carried.\<close>

definition option82_strip ::
    "('m, 'i, 'f) v4_api \<Rightarrow> 'm \<Rightarrow> 'm \<times> sub_option list option" where
  "option82_strip A msg =
     (let (msg', removed) = v4_remove A msg RelayAgentInformationCode in
      (msg',
       case removed of
         None \<Rightarrow> None
       | Some (RelayAgentInformation info) \<Rightarrow> Some (sub_opts_of A info)
       | Some OtherV4Option \<Rightarrow> None))"

definition validate_echo :: "sub_option list \<Rightarrow> sub_option list \<Rightarrow> bool" where
  "validate_echo received sent =
     (if length received \<noteq> length sent then False
      else list_all (\<lambda>(r, s). so_code r = so_code s \<and> so_data r = so_data s) (zip received sent))"

section \<open>The echo comparison is equality\<close>

lemma sub_option_eqI: "so_code r = so_code s \<Longrightarrow> so_data r = so_data s \<Longrightarrow> (r :: sub_option) = s"
  by (cases r; cases s) simp

lemma validate_echo_iff: "validate_echo received sent \<longleftrightarrow> received = sent"
proof
  assume v: "validate_echo received sent"
  show "received = sent"
  proof (rule nth_equalityI)
    show len: "length received = length sent"
      using v by (simp add: validate_echo_def split: if_splits)
    fix i assume "i < length received"
    then show "received ! i = sent ! i"
      using v len by (intro sub_option_eqI) (auto simp: validate_echo_def list_all_length)
  qed
qed (auto simp: validate_echo_def list_all_length)

section \<open>Insertion and stripping on the view\<close>

text \<open>The sub-options the relay adds, as the abstract specification states them.\<close>

definition relay_sub_options :: "bytes option \<Rightarrow> bytes option \<Rightarrow> 'f sub_options" where
  "relay_sub_options circuit remote =
     (case circuit of None \<Rightarrow> {#} | Some d \<Rightarrow> {# (AgentCircuitIdCode, AgentCircuitId d) #}) +
     (case remote of None \<Rightarrow> {#} | Some d \<Rightarrow> {# (AgentRemoteIdCode, AgentRemoteId d) #})"

lemma agent_info_iter:
  "dhcproto_v4_ok A \<Longrightarrow>
   mset (relay_iter A (agent_info_for A circuit remote)) = relay_sub_options circuit remote"
  by (auto simp: agent_info_for_def relay_sub_options_def dhcproto_v4_laws sub_put_def
      split: option.splits)

lemma relay_sub_options_canonical:
  "p \<in># relay_sub_options circuit remote \<Longrightarrow> canonical_info (snd p)"
  by (auto simp: relay_sub_options_def split: option.splits)

lemma option82_insert_Inr:
  assumes "dhcproto_v4_ok A" "option82_insert A msg circuit remote = Inr msg'"
  shows "v4_view A msg' =
           (v4_view A msg)\<lparr>vw_opt82 := Some (relay_sub_options circuit remote)\<rparr>"
    and "opt82_of A msg = None"
  using assms
  by (auto simp: option82_insert_def dhcproto_v4_laws agent_info_iter contains_iff_opt82
      split: if_splits)

lemma option82_insert_Inl:
  assumes "dhcproto_v4_ok A"
  shows "option82_insert A msg circuit remote = Inl e \<longleftrightarrow>
           (circuit = None \<and> remote = None \<and> e = Config no_sub_option_msg) \<or>
           ((circuit \<noteq> None \<or> remote \<noteq> None) \<and> opt82_of A msg \<noteq> None \<and>
             e = Config already_present_msg)"
  using assms by (auto simp: option82_insert_def contains_iff_opt82)

lemma option82_strip_view:
  "dhcproto_v4_ok A \<Longrightarrow>
   v4_view A (fst (option82_strip A msg)) = (v4_view A msg)\<lparr>vw_opt82 := None\<rparr>"
  by (simp add: option82_strip_def Let_def case_prod_beta dhcproto_v4_laws)

lemma option82_strip_result:
  assumes "dhcproto_v4_ok A"
  shows "map_option mset (snd (option82_strip A msg)) =
           map_option (image_mset (\<lambda>p. relay_info_to_sub_opt A (snd p))) (opt82_of A msg)"
  by (cases rule: opt82_cases [OF assms, of msg])
    (simp_all add: option82_strip_def Let_def case_prod_beta' remove_result [OF assms] sub_opts_of_def)

end
