(* ===== verification/V4_Vss.thy ===== *)
theory V4_Vss
  imports Relay_Config
begin

text \<open>
  \<open>dhcp/v4/vss.rs\<close>: the VSS (151) and VSS-Control (152) sub-options of RFC 6607 as raw
  type-length-value bytes, and the scan of echoed sub-options for VSS-Control.
\<close>

definition VSS_SUBOPT_CODE :: byte where "VSS_SUBOPT_CODE = 151"

definition VSS_CONTROL_SUBOPT_CODE :: byte where "VSS_CONTROL_SUBOPT_CODE = 152"

definition SUBOPT_HEADER_LEN :: nat where "SUBOPT_HEADER_LEN = 2"

definition VSS_TYPE_OFFSET :: nat where "VSS_TYPE_OFFSET = 1"

definition encode_sub_opts :: "vss_config \<Rightarrow> (bytes \<times> bytes) relay_result" where
  "encode_sub_opts vss =
     (case validate_vss vss of
        Inl e \<Rightarrow> Inl e
      | Inr _ \<Rightarrow>
         (let vss_opt = [VSS_SUBOPT_CODE, of_nat (1 + length (vss_info vss)), vss_type vss]
                        @ vss_info vss;
              vss_control = [VSS_CONTROL_SUBOPT_CODE, 0] in
          Inr (vss_opt, vss_control)))"

text \<open>The loop of \<open>check_server_support\<close> at position \<open>pos\<close>; \<open>None\<close> is an index out of range.\<close>

function check_from :: "bytes \<Rightarrow> nat \<Rightarrow> bool option" where
  "check_from raw pos =
     (if pos + 2 \<le> length raw then
        (case idx raw pos of
           None \<Rightarrow> None
         | Some code \<Rightarrow>
            (case idx raw (pos + 1) of
               None \<Rightarrow> None
             | Some len \<Rightarrow>
                if code = VSS_CONTROL_SUBOPT_CODE then Some False
                else check_from raw (pos + (2 + unat len))))
      else Some True)"
  by pat_completeness auto
termination
  by (relation "measure (\<lambda>(raw, pos). length raw - pos)") auto

declare check_from.simps [simp del]

definition check_server_support :: "bytes \<Rightarrow> bool option" where
  "check_server_support sub_opts_raw = check_from sub_opts_raw 0"

section \<open>The scan on type-length-value sequences\<close>

definition tlv :: "byte \<times> bytes \<Rightarrow> bytes" where
  "tlv p = fst p # of_nat (length (snd p)) # snd p"

definition tlv_ok :: "byte \<times> bytes \<Rightarrow> bool" where
  "tlv_ok p \<longleftrightarrow> length (snd p) < 256"

lemma check_from_total: "check_from raw pos \<noteq> None"
proof (induction raw pos rule: check_from.induct)
  case (1 raw pos)
  then show ?case
    by (subst check_from.simps) (auto simp: idx_in)
qed

lemma check_from_shift: "check_from (xs @ ys) (length xs + n) = check_from ys n"
proof (induction ys n rule: check_from.induct)
  case (1 ys n)
  have idx_shift: "idx (xs @ ys) (length xs + k) = idx ys k" for k
    by (simp add: idx_def nth_append)
  show ?case
  proof (cases "n + 2 \<le> length ys")
    case True
    then have "idx ys n = Some (ys ! n)" "idx ys (n + 1) = Some (ys ! (n + 1))"
      by (simp_all add: idx_in)
    with True 1 show ?thesis
      using idx_shift [of n] idx_shift [of "n + 1"]
      by (simp add: check_from.simps [of "xs @ ys"] check_from.simps [of ys n] add.assoc)
  qed (simp add: check_from.simps [of "xs @ ys"] check_from.simps [of ys n])
qed

lemma check_from_tlv:
  assumes "tlv_ok p"
  shows "check_from (tlv p @ rest) 0 =
           (if fst p = VSS_CONTROL_SUBOPT_CODE then Some False else check_from rest 0)"
proof -
  have "unat (of_nat (length (snd p)) :: byte) = length (snd p)"
    using assms by (simp add: tlv_ok_def)
  then show ?thesis
    using check_from_shift [of "tlv p" rest 0]
    by (subst check_from.simps) (simp add: idx_def tlv_def)
qed

text \<open>On a well-formed sequence the scan finds exactly whether a VSS-Control is present.\<close>

lemma check_from_tlvs:
  "list_all tlv_ok ps \<Longrightarrow>
   check_from (concat (map tlv ps)) 0 = Some (VSS_CONTROL_SUBOPT_CODE \<notin> fst ` set ps)"
proof (induction ps)
  case Nil
  then show ?case by (simp add: check_from.simps)
next
  case (Cons p ps)
  then show ?case by (auto simp: check_from_tlv)
qed

section \<open>The encoder\<close>

lemma encode_sub_opts_Inl: "encode_sub_opts vss = Inl e \<longleftrightarrow> validate_vss vss = Inl e"
  by (auto simp: encode_sub_opts_def Let_def split: sum.splits)

lemma encode_sub_opts_Inr:
  "encode_sub_opts vss = Inr (d, c) \<longleftrightarrow>
     vss_ok vss \<and> c = [152, 0] \<and>
     d = [151, of_nat (1 + length (vss_info vss)), vss_type vss] @ vss_info vss"
  using unit_sum_cases [of "validate_vss vss"]
  by (auto simp: encode_sub_opts_def Let_def validate_vss_iff [symmetric]
      VSS_SUBOPT_CODE_def VSS_CONTROL_SUBOPT_CODE_def)

text \<open>The slice of the header taken by the pipeline stage is in bounds, and leaves type and info.\<close>

lemma encode_sub_opts_payload:
  "encode_sub_opts vss = Inr (d, c) \<Longrightarrow>
   slice_from d SUBOPT_HEADER_LEN = Some (vss_type vss # vss_info vss)"
  by (simp add: encode_sub_opts_Inr slice_from_in SUBOPT_HEADER_LEN_def)

text \<open>The encoder writes a well-formed sub-option unless the information is too long.\<close>

lemma encode_sub_opts_tlv:
  assumes "encode_sub_opts vss = Inr (d, c)" and "length (vss_info vss) < 255"
  shows "d = tlv (VSS_SUBOPT_CODE, vss_type vss # vss_info vss)"
    and "tlv_ok (VSS_SUBOPT_CODE, vss_type vss # vss_info vss)"
    and "c = tlv (VSS_CONTROL_SUBOPT_CODE, [])"
  using assms
  by (simp_all add: encode_sub_opts_Inr tlv_def tlv_ok_def VSS_SUBOPT_CODE_def
      VSS_CONTROL_SUBOPT_CODE_def)

end
