(* ===== verification/V4_Pipeline.thy ===== *)
theory V4_Pipeline
  imports V4_Giaddr V4_Option82 V4_Vss
begin

text \<open>
  \<open>dhcp/v4/pipeline.rs\<close>: the stages of the two DHCPv4 pipelines and their construction.
  The \<open>tracing\<close> output of a stage is not part of its result; the warnings of the VSS check are
  computed by \<open>vss_check_report\<close>, because a slice is taken on the way to them.
\<close>

section \<open>Stages\<close>

definition v4_parse_process :: "('m, 'i, 'f) v4_api \<Rightarrow> pipeline_ctx \<Rightarrow> stage_run" where
  "v4_parse_process A ctx =
     modify_then (modify_v4 A ''dhcpv4::parse'' (\<lambda>msg. Inr msg) ctx) (\<lambda>c. c)"

definition validate_process ::
    "('m, 'i, 'f) v4_api \<Rightarrow> ipv4addr list \<Rightarrow> pipeline_ctx \<Rightarrow> stage_run" where
  "validate_process A local_addrs ctx =
     (case v4_decode A (buffer ctx) of
        Inl e \<Rightarrow> Some (Inl (Parse (''validate decode: '' @ e)), ctx)
      | Inr msg \<Rightarrow>
         (case giaddr_validate A msg local_addrs (is_trusted_circuit ctx) of
            FirstRelay \<Rightarrow> Some (Inr True, ctx)
          | TrustedCircuit \<Rightarrow> Some (Inr True, ctx)
          | Reforwarded \<Rightarrow> Some (Inr True, ctx\<lparr>is_reforwarded := True\<rparr>)
          | UntrustedCircuit \<Rightarrow> Some (Inr False, ctx)
          | Spoof \<Rightarrow>
              Some (Inl (GiaddrSpoof (''giaddr '' @ show_ipv4 (v4_giaddr A msg) @
                                      '' matches local interface'')), ctx)))"

definition option82_insert_process ::
    "('m, 'i, 'f) v4_api \<Rightarrow> bytes option \<Rightarrow> bytes option \<Rightarrow> pipeline_ctx \<Rightarrow> stage_run" where
  "option82_insert_process A circuit remote ctx =
     (if is_reforwarded ctx then Some (Inr True, ctx)
      else modify_then
             (modify_v4 A ''dhcpv4::option82::insert''
                (\<lambda>msg. option82_insert A msg circuit remote) ctx)
             (\<lambda>c. c\<lparr>metadata := (metadata c)(''option82_inserted'' \<mapsto> ''true'')\<rparr>))"

definition check_echo_and_strip ::
    "('m, 'i, 'f) v4_api \<Rightarrow> sub_option list option \<Rightarrow> 'm \<Rightarrow> 'm relay_result" where
  "check_echo_and_strip A expected msg =
     (case expected of
        None \<Rightarrow> Inr (fst (option82_strip A msg))
      | Some sent \<Rightarrow>
         (case v4_get A msg RelayAgentInformationCode of
            Some (RelayAgentInformation info) \<Rightarrow>
              if \<not> validate_echo (sub_opts_of A info) sent then Inl Option82Mismatch
              else Inr (fst (option82_strip A msg))
          | _ \<Rightarrow> Inl Option82Mismatch))"

definition option82_strip_process ::
    "('m, 'i, 'f) v4_api \<Rightarrow> sub_option list option \<Rightarrow> pipeline_ctx \<Rightarrow> stage_run" where
  "option82_strip_process A expected ctx =
     modify_then
       (modify_v4 A ''dhcpv4::option82::strip'' (check_echo_and_strip A expected) ctx) (\<lambda>c. c)"

definition giaddr_process ::
    "('m, 'i, 'f) v4_api \<Rightarrow> ipv4addr \<Rightarrow> pipeline_ctx \<Rightarrow> stage_run" where
  "giaddr_process A iface_ip ctx =
     (if is_reforwarded ctx then Some (Inr True, ctx)
      else modify_then
             (modify_v4 A ''dhcpv4::giaddr''
                (\<lambda>msg. Inr (if v4_giaddr A msg = IPV4_UNSPECIFIED
                            then v4_set_giaddr A msg iface_ip else msg)) ctx)
             (\<lambda>c. c))"

definition v4_forward_process :: "socket_addr \<Rightarrow> pipeline_ctx \<Rightarrow> stage_run" where
  "v4_forward_process dest ctx = Some (Inr True, ctx\<lparr>dst_addr := Some dest\<rparr>)"

definition reply_client :: "('m, 'i, 'f) v4_api \<Rightarrow> 'm \<Rightarrow> socket_addr" where
  "reply_client A msg =
     (if v4_ciaddr A msg \<noteq> IPV4_UNSPECIFIED then socket_new (V4 (v4_ciaddr A msg)) 68
      else socket_new (V4 (Ipv4Addr 255 255 255 255)) 68)"

definition reply_addr_process :: "('m, 'i, 'f) v4_api \<Rightarrow> pipeline_ctx \<Rightarrow> stage_run" where
  "reply_addr_process A ctx =
     (case v4_decode A (buffer ctx) of
        Inl e \<Rightarrow> Some (Inl (Parse (''reply_addr decode: '' @ e)), ctx)
      | Inr msg \<Rightarrow> Some (Inr True, ctx\<lparr>dst_addr := Some (reply_client A msg)\<rparr>))"

definition add_vss_sub_opts :: "('m, 'i, 'f) v4_api \<Rightarrow> bytes \<Rightarrow> 'm \<Rightarrow> 'm" where
  "add_vss_sub_opts A payload msg =
     (case v4_get A msg RelayAgentInformationCode of
        Some (RelayAgentInformation info) \<Rightarrow>
          v4_write A msg RelayAgentInformationCode (RelayAgentInformation
            (relay_insert A
              (relay_insert A info (UnknownRelayInfo VirtualSubnet payload))
              (UnknownRelayInfo VirtualSubnetControl [])))
      | _ \<Rightarrow> msg)"

definition vss_insert_process ::
    "('m, 'i, 'f) v4_api \<Rightarrow> vss_config \<Rightarrow> pipeline_ctx \<Rightarrow> stage_run" where
  "vss_insert_process A cfg ctx =
     (if \<not> vss_enabled cfg then Some (Inr True, ctx)
      else case encode_sub_opts cfg of
        Inl e \<Rightarrow> Some (Inl e, ctx)
      | Inr (vss_data, vss_control) \<Rightarrow>
         (case slice_from vss_data SUBOPT_HEADER_LEN of
            None \<Rightarrow> None
          | Some payload \<Rightarrow>
              modify_then
                (modify_v4 A ''dhcpv4::vss::insert''
                   (\<lambda>msg. Inr (add_vss_sub_opts A payload msg)) ctx)
                (\<lambda>c. c\<lparr>metadata := (metadata c)(''vss_inserted'' \<mapsto> ''true'')\<rparr>)))"

datatype vss_warning = ServerLacksVss | VpnNameMismatch string string

text \<open>The scan over the echoed sub-options: whether VSS-Control is there, and the last VSS value.\<close>

fun vss_scan :: "(relay_code \<times> 'f relay_info) list \<Rightarrow> bool \<times> bytes option \<Rightarrow> bool \<times> bytes option" where
  "vss_scan [] acc = acc"
| "vss_scan ((code, ri) # rest) (has_control, info) =
     vss_scan rest
       (case code of
          VirtualSubnetControl \<Rightarrow> (True, info)
        | VirtualSubnet \<Rightarrow>
            (has_control, case ri of UnknownRelayInfo c d \<Rightarrow> Some d | _ \<Rightarrow> info)
        | _ \<Rightarrow> (has_control, info))"

definition vpn_mismatch :: "vss_config \<Rightarrow> bytes option \<Rightarrow> vss_warning list option" where
  "vpn_mismatch cfg info =
     (case (vpn_name cfg, info) of
        (Some expected, Some data) \<Rightarrow>
          if data \<noteq> [] \<and> vss_type cfg = VSS_TYPE_NVT_ASCII then
            (case slice_from data VSS_TYPE_OFFSET of
               None \<Rightarrow> None
             | Some name_bytes \<Rightarrow>
                 (let name = (case from_utf8 name_bytes of Some s \<Rightarrow> s | None \<Rightarrow> '''') in
                  Some (if name \<noteq> expected then [VpnNameMismatch name expected] else [])))
          else Some []
      | _ \<Rightarrow> Some [])"

definition vss_check_report ::
    "vss_config \<Rightarrow> (relay_code \<times> 'f relay_info) list \<Rightarrow> vss_warning list option" where
  "vss_check_report cfg pairs =
     (let (has_control, info) = vss_scan pairs (False, None) in
      map_option (\<lambda>w. (if has_control then [ServerLacksVss] else []) @ w)
        (vpn_mismatch cfg info))"

definition vss_check_process ::
    "('m, 'i, 'f) v4_api \<Rightarrow> vss_config \<Rightarrow> pipeline_ctx \<Rightarrow> stage_run" where
  "vss_check_process A cfg ctx =
     (if \<not> vss_enabled cfg then Some (Inr True, ctx)
      else case v4_decode A (buffer ctx) of
        Inl e \<Rightarrow> Some (Inl (Parse (''vss check decode: '' @ e)), ctx)
      | Inr msg \<Rightarrow>
         (case v4_get A msg RelayAgentInformationCode of
            Some (RelayAgentInformation info) \<Rightarrow>
              (case vss_check_report cfg (relay_iter A info) of
                 None \<Rightarrow> None
               | Some warnings \<Rightarrow> Some (Inr True, ctx))
          | _ \<Rightarrow> Some (Inr True, ctx)))"

section \<open>The two pipelines\<close>

definition build_request_v4 ::
    "('m, 'i, 'f) v4_api \<Rightarrow> ipv4addr list \<Rightarrow> bytes option \<Rightarrow> bytes option \<Rightarrow> ipv4addr \<Rightarrow>
     socket_addr \<Rightarrow> vss_config option \<Rightarrow> bool \<Rightarrow> pipeline" where
  "build_request_v4 A local_addrs circuit remote iface_ip server vss enable82 =
     with_stages
       ([\<lparr>stage_name = ''dhcpv4::parse'', stage_process = v4_parse_process A\<rparr>,
         \<lparr>stage_name = ''dhcpv4::validate'', stage_process = validate_process A local_addrs\<rparr>] @
        (if enable82 then
           [\<lparr>stage_name = ''dhcpv4::option82::insert'',
             stage_process = option82_insert_process A circuit remote\<rparr>]
         else []) @
        (case vss of
           Some cfg \<Rightarrow> [\<lparr>stage_name = ''dhcpv4::vss::insert'',
                         stage_process = vss_insert_process A cfg\<rparr>]
         | None \<Rightarrow> []) @
        [\<lparr>stage_name = ''dhcpv4::giaddr'', stage_process = giaddr_process A iface_ip\<rparr>,
         \<lparr>stage_name = ''dhcpv4::forward'', stage_process = v4_forward_process server\<rparr>])"

definition build_reply_v4 ::
    "('m, 'i, 'f) v4_api \<Rightarrow> sub_option list option \<Rightarrow> vss_config option \<Rightarrow> bool \<Rightarrow> pipeline" where
  "build_reply_v4 A expected vss enable82 =
     with_stages
       ([\<lparr>stage_name = ''dhcpv4::parse'', stage_process = v4_parse_process A\<rparr>] @
        (case vss of
           Some cfg \<Rightarrow> [\<lparr>stage_name = ''dhcpv4::vss::check'',
                         stage_process = vss_check_process A cfg\<rparr>]
         | None \<Rightarrow> []) @
        (if enable82 then
           [\<lparr>stage_name = ''dhcpv4::option82::strip'',
             stage_process = option82_strip_process A expected\<rparr>]
         else []) @
        [\<lparr>stage_name = ''dhcpv4::reply_addr'', stage_process = reply_addr_process A\<rparr>])"

section \<open>Every stage satisfies the stage contract\<close>

lemma vpn_mismatch_total: "vpn_mismatch cfg info \<noteq> None"
  by (auto simp: vpn_mismatch_def slice_from_in VSS_TYPE_OFFSET_def Let_def Suc_le_eq
      split: option.splits)

lemma vss_check_report_total [simp]: "vss_check_report cfg pairs \<noteq> None"
  using vpn_mismatch_total by (auto simp: vss_check_report_def split: prod.splits)

interpretation v4_parse: passing_stage "v4_parse_process A" for A :: "('m, 'i, 'f) v4_api"
  by unfold_locales
    (auto simp: v4_parse_process_def modify_v4_def
      dest: modify_then_origin modify_then_passes)

interpretation validate: sound_stage "validate_process A ls" for A :: "('m, 'i, 'f) v4_api" and ls
  by unfold_locales
    (auto simp: validate_process_def split: sum.splits giaddr_decision.splits)

interpretation opt82_insert: passing_stage "option82_insert_process A ci ri"
  for A :: "('m, 'i, 'f) v4_api" and ci ri
  by unfold_locales
    (auto simp: option82_insert_process_def modify_v4_def
      dest: modify_then_origin modify_then_passes split: if_splits)

interpretation opt82_strip: passing_stage "option82_strip_process A expected"
  for A :: "('m, 'i, 'f) v4_api" and expected
  by unfold_locales
    (auto simp: option82_strip_process_def modify_v4_def
      dest: modify_then_origin modify_then_passes)

interpretation v4_giaddr_stage: passing_stage "giaddr_process A ip"
  for A :: "('m, 'i, 'f) v4_api" and ip
  by unfold_locales
    (auto simp: giaddr_process_def modify_v4_def
      dest: modify_then_origin modify_then_passes split: if_splits)

interpretation v4_forward: passing_stage "v4_forward_process dest" for dest
  by unfold_locales (auto simp: v4_forward_process_def)

interpretation reply_addr: passing_stage "reply_addr_process A" for A :: "('m, 'i, 'f) v4_api"
  by unfold_locales (auto simp: reply_addr_process_def split: sum.splits)

lemma vss_insert_no_panic: "vss_insert_process A cfg ctx \<noteq> None"
  using encode_sub_opts_payload [of cfg]
  by (auto simp: vss_insert_process_def modify_then_not_None split: sum.splits prod.splits)

lemma vss_insert_result:
  assumes "vss_insert_process A cfg ctx = Some (r, ctx')"
  shows "same_origin ctx ctx' \<and> (r = Inr b \<longrightarrow> b)"
  using assms
  by (auto simp: vss_insert_process_def modify_v4_def
      dest: modify_then_origin modify_then_passes
      split: if_splits sum.splits prod.splits option.splits)

interpretation v4_vss_insert: passing_stage "vss_insert_process A cfg"
  for A :: "('m, 'i, 'f) v4_api" and cfg
  using vss_insert_no_panic vss_insert_result by unfold_locales blast+

lemma vss_check_result:
  "vss_check_process A cfg ctx \<noteq> None \<and>
   (vss_check_process A cfg ctx = Some (r, ctx') \<longrightarrow> same_origin ctx ctx' \<and> (r = Inr b \<longrightarrow> b))"
  by (auto simp: vss_check_process_def
      elim: vss_check_report_total [THEN notE] split: if_splits sum.splits option.splits v4_option.splits)

interpretation v4_vss_check: passing_stage "vss_check_process A cfg"
  for A :: "('m, 'i, 'f) v4_api" and cfg
  using vss_check_result by unfold_locales blast+

lemmas v4_stages_sound =
  v4_parse.sound_stage_axioms validate.sound_stage_axioms opt82_insert.sound_stage_axioms
  opt82_strip.sound_stage_axioms v4_giaddr_stage.sound_stage_axioms
  v4_forward.sound_stage_axioms reply_addr.sound_stage_axioms
  v4_vss_insert.sound_stage_axioms v4_vss_check.sound_stage_axioms

interpretation v4_request: sound_pipeline
  "stages (build_request_v4 A ls ci ri ip srv vss en82)"
  for A :: "('m, 'i, 'f) v4_api" and ls ci ri ip srv vss en82
  by (rule sound_pipeline.intro)
    (auto simp: build_request_v4_def v4_stages_sound split: if_splits option.splits)

interpretation v4_reply: sound_pipeline "stages (build_reply_v4 A expected vss en82)"
  for A :: "('m, 'i, 'f) v4_api" and expected vss en82
  by (rule sound_pipeline.intro)
    (auto simp: build_reply_v4_def v4_stages_sound split: if_splits option.splits)

end
