(* ===== verification/Dhcp_V6_Api.thy ===== *)
theory Dhcp_V6_Api
  imports Pipeline
begin

text \<open>
  The interface of the third-party crate \<open>dhcproto\<close> for DHCPv6, as the sources use it: the
  message type \<open>'m\<close> and its functions are parameters, gathered in the record \<open>v6_api\<close>. The
  predicate \<open>dhcproto_v6_ok\<close> states what the sources rely on. Its laws speak of the view of a
  message: its type and the multiset of the options the relay can tell apart, each with its code
  and data.
\<close>

datatype v6_option_code = RemoteIdOption | UnknownOptionCode u16 | OtherOptionCode u16

text \<open>\<open>UnknownOption c d\<close> is \<open>DhcpOption::Unknown(UnknownOption::new(c, d))\<close>.\<close>

datatype v6_option = InterfaceId bytes | UnknownOption v6_option_code bytes | OtherV6Option

datatype v6_message_type =
    V6Solicit | V6Request | V6Confirm | V6Renew | V6Rebind | V6Decline | V6Release
  | V6InformationRequest | OtherV6MessageType byte

record 'm v6_api =
  v6_decode :: "bytes \<Rightarrow> string + 'm"
  v6_encode :: "'m \<Rightarrow> string + bytes"
  v6_msg_type :: "'m \<Rightarrow> v6_message_type"
  v6_opts :: "'m \<Rightarrow> v6_option list"
  v6_insert :: "'m \<Rightarrow> v6_option \<Rightarrow> 'm"
  v6_code_u16 :: "v6_option_code \<Rightarrow> u16"

type_synonym v6_view = "v6_message_type \<times> (u16 \<times> bytes) multiset"

fun option_fact :: "'m v6_api \<Rightarrow> v6_option \<Rightarrow> (u16 \<times> bytes) multiset" where
  "option_fact A (InterfaceId d) = {# (18, d) #}"
| "option_fact A (UnknownOption c d) = {# (v6_code_u16 A c, d) #}"
| "option_fact A OtherV6Option = {#}"

definition option_facts :: "'m v6_api \<Rightarrow> v6_option list \<Rightarrow> (u16 \<times> bytes) multiset" where
  "option_facts A opts = sum_list (map (option_fact A) opts)"

definition v6_view :: "'m v6_api \<Rightarrow> 'm \<Rightarrow> v6_view" where
  "v6_view A m = (v6_msg_type A m, option_facts A (v6_opts A m))"

text \<open>The options that the relay inserts, as far as their data fits the 16-bit length.\<close>

inductive relay_option :: "v6_option \<Rightarrow> bool" where
  "length d < 65536 \<Longrightarrow> relay_option (InterfaceId d)"
| "length d < 65536 \<Longrightarrow> relay_option (UnknownOption RemoteIdOption d)"
| "length d < 65536 \<Longrightarrow> relay_option (UnknownOption (UnknownOptionCode 68) d)"

text \<open>The messages the relay encodes: decoded ones with relay options inserted.\<close>

inductive relay_made :: "'m v6_api \<Rightarrow> 'm \<Rightarrow> bool" for A :: "'m v6_api" where
  decoded: "v6_decode A b = Inr m \<Longrightarrow> relay_made A m"
| inserted: "relay_made A m \<Longrightarrow> relay_option opt \<Longrightarrow> relay_made A (v6_insert A m opt)"

inductive_simps relay_option_simps [simp]:
  "relay_option (InterfaceId d)"
  "relay_option (UnknownOption c d)"
  "relay_option OtherV6Option"

definition dhcproto_v6_ok :: "'m v6_api \<Rightarrow> bool" where
  "dhcproto_v6_ok A \<longleftrightarrow>
     (\<forall>m opt. v6_msg_type A (v6_insert A m opt) = v6_msg_type A m) \<and>
     (\<forall>m opt. mset (v6_opts A (v6_insert A m opt)) = add_mset opt (mset (v6_opts A m))) \<and>
     v6_code_u16 A RemoteIdOption = 37 \<and>
     (\<forall>n. v6_code_u16 A (UnknownOptionCode n) = n) \<and>
     (\<forall>m b. relay_made A m \<longrightarrow> v6_encode A m = Inr b \<longrightarrow>
        (\<exists>m'. v6_decode A b = Inr m' \<and> v6_view A m' = v6_view A m))"

definition v6_encode_total :: "'m v6_api \<Rightarrow> bool" where
  "v6_encode_total A \<longleftrightarrow> (\<forall>m. \<exists>b. v6_encode A m = Inr b)"

definition modify_v6 ::
    "'m v6_api \<Rightarrow> string \<Rightarrow> ('m \<Rightarrow> 'm relay_result) \<Rightarrow> pipeline_ctx \<Rightarrow>
     unit relay_result \<times> pipeline_ctx" where
  "modify_v6 A = modify_msg (v6_decode A) (v6_encode A)"

lemma option_facts_sum: "option_facts A opts = (\<Sum>opt \<in># mset opts. option_fact A opt)"
  by (simp add: option_facts_def sum_mset_sum_list flip: mset_map)

lemma view_v6_insert:
  assumes "dhcproto_v6_ok A"
  shows "v6_view A (v6_insert A m opt) =
    (fst (v6_view A m), snd (v6_view A m) + option_fact A opt)"
  using assms by (simp add: v6_view_def option_facts_sum dhcproto_v6_ok_def add.commute)

lemma v6_codes:
  "dhcproto_v6_ok A \<Longrightarrow> v6_code_u16 A RemoteIdOption = 37"
  "dhcproto_v6_ok A \<Longrightarrow> v6_code_u16 A (UnknownOptionCode n) = n"
  by (simp_all add: dhcproto_v6_ok_def)

lemma v6_encode_decode:
  assumes "dhcproto_v6_ok A" "relay_made A m" "v6_encode A m = Inr b"
  obtains m' where "v6_decode A b = Inr m'" "v6_view A m' = v6_view A m"
  using assms unfolding dhcproto_v6_ok_def by blast

lemma option_facts_in:
  "(c, d) \<in># option_facts A opts \<longleftrightarrow> (\<exists>opt \<in> set opts. (c, d) \<in># option_fact A opt)"
  by (induction opts) (auto simp: option_facts_def)

end
