(* ===== verification/V6_Options.thy ===== *)
theory V6_Options
  imports Dhcp_V6_Api Codec
begin

text \<open>
  \<open>dhcp/v6/interface_id.rs\<close>, \<open>remote_id.rs\<close> and \<open>vss.rs\<close>: the options the relay adds to a client
  message, and their decoders. The Interface-ID and Remote-ID codecs are exact: what decodes is
  the encoding of the value.
\<close>

definition interface_id_encode :: "string \<Rightarrow> v6_option" where
  "interface_id_encode name = InterfaceId (as_bytes name)"

fun interface_id_decode :: "v6_option \<Rightarrow> string option" where
  "interface_id_decode (InterfaceId d) = from_utf8 d"
| "interface_id_decode _ = None"

definition remote_id_encode :: "bytes \<Rightarrow> v6_option" where
  "remote_id_encode d = UnknownOption RemoteIdOption d"

fun remote_id_decode :: "v6_option \<Rightarrow> bytes option" where
  "remote_id_decode (UnknownOption c d) = (if c = RemoteIdOption then Some d else None)"
| "remote_id_decode _ = None"

definition VSS_OPTION_CODE :: u16 where "VSS_OPTION_CODE = 68"

definition v6_vss_encode :: "vss_config \<Rightarrow> v6_option relay_result" where
  "v6_vss_encode vss =
     (case validate_vss vss of
        Inl e \<Rightarrow> Inl e
      | Inr _ \<Rightarrow> Inr (UnknownOption (UnknownOptionCode 68) (vss_type vss # vss_info vss)))"

text \<open>The outer option is the panic of an access out of bounds.\<close>

fun v6_vss_extract :: "'m v6_api \<Rightarrow> v6_option list \<Rightarrow> (byte \<times> bytes) option option" where
  "v6_vss_extract A [] = Some None"
| "v6_vss_extract A (UnknownOption c d # opts) =
     (if v6_code_u16 A c = VSS_OPTION_CODE then
        (if d = [] then Some None
         else (case idx d 0 of
             None \<Rightarrow> None
           | Some t \<Rightarrow> (case slice_from d 1 of None \<Rightarrow> None | Some i \<Rightarrow> Some (Some (t, i)))))
      else v6_vss_extract A opts)"
| "v6_vss_extract A (opt # opts) = v6_vss_extract A opts"

interpretation interface_id: exact_codec interface_id_encode interface_id_decode rust_string
proof
  show "rust_string x \<Longrightarrow> interface_id_decode (interface_id_encode x) = Some x" for x
    by (simp add: interface_id_encode_def str.round_trip)
  show "interface_id_decode b = Some x \<Longrightarrow> rust_string x \<and> interface_id_encode x = b" for b x
    using str.canonical [of _ x] by (cases b) (auto simp: interface_id_encode_def)
qed

interpretation remote_id: exact_codec remote_id_encode remote_id_decode "\<lambda>_. True"
proof
  show "remote_id_decode (remote_id_encode x) = Some x" for x
    by (simp add: remote_id_encode_def)
  show "remote_id_decode b = Some x \<Longrightarrow> True \<and> remote_id_encode x = b" for b x
    by (cases b) (auto simp: remote_id_encode_def split: if_splits)
qed

lemma v6_vss_encode_Inr:
  "v6_vss_encode vss = Inr opt \<longleftrightarrow>
     vss_ok vss \<and> opt = UnknownOption (UnknownOptionCode 68) (vss_type vss # vss_info vss)"
  using unit_sum_cases [of "validate_vss vss"]
  by (auto simp: v6_vss_encode_def validate_vss_iff [symmetric])

lemma v6_vss_encode_Inl: "v6_vss_encode vss = Inl e \<longleftrightarrow> validate_vss vss = Inl e"
  by (auto simp: v6_vss_encode_def split: sum.splits)

text \<open>The search is the first option of code 68, an empty one counting as none.\<close>

lemma v6_vss_extract_first:
  "v6_vss_extract A opts =
     Some (case find (\<lambda>x. case x of UnknownOption c d \<Rightarrow> v6_code_u16 A c = VSS_OPTION_CODE | _ \<Rightarrow> False) opts of
             Some (UnknownOption c (t # i)) \<Rightarrow> Some (t, i)
           | _ \<Rightarrow> None)"
proof (induction A opts rule: v6_vss_extract.induct)
  case (2 A c d opts)
  then show ?case by (cases d) (auto simp: idx_def slice_from_in)
qed simp_all

lemma v6_vss_extract_total: "v6_vss_extract A opts \<noteq> None"
  by (simp add: v6_vss_extract_first)

end
