(* ===== verification/V6_Relay_Fwd.thy ===== *)
theory V6_Relay_Fwd
  imports Relay_Config "HOL-Library.Sublist"
begin

text \<open>
  \<open>dhcp/v6/relay_fwd.rs\<close>: the Relay-forward wrapper, the search for the relay-message option and
  the recursive unwrapping of a Relay-reply. Every index and slice is checked, \<open>None\<close> being the
  panic. Positions and lengths are natural numbers: they stay below the length of a received
  datagram plus 65539, far below \<open>2 ^ 64\<close>, so no addition of the source can overflow.
\<close>

definition RELAY_FORW :: byte where "RELAY_FORW = 12"

definition RELAY_REPL :: byte where "RELAY_REPL = 13"

definition OPTION_RELAY_MSG :: u16 where "OPTION_RELAY_MSG = 9"

definition RELAY_HDR_LEN :: nat where "RELAY_HDR_LEN = 34"

definition OPTION_TLV_HDR :: nat where "OPTION_TLV_HDR = 4"

definition encapsulate :: "bytes \<Rightarrow> ipv6addr \<Rightarrow> socket_addr \<Rightarrow> bytes" where
  "encapsulate client_msg link_addr peer_addr =
     (let peer_ip = (case socket_ip peer_addr of V6 ip \<Rightarrow> ip | V4 _ \<Rightarrow> IPV6_UNSPECIFIED) in
      [RELAY_FORW, 0] @ ipv6_octets link_addr @ ipv6_octets peer_ip @
      be16 OPTION_RELAY_MSG @ be16 (of_nat (length client_msg)) @ client_msg)"

text \<open>\<open>u16::from_be_bytes([b[i], b[i + 1]])\<close>\<close>

definition read_u16 :: "bytes \<Rightarrow> nat \<Rightarrow> u16 option" where
  "read_u16 bs i =
     (case idx bs i of None \<Rightarrow> None
      | Some a \<Rightarrow> (case idx bs (i + 1) of None \<Rightarrow> None | Some b \<Rightarrow> Some (from_be16 a b)))"

definition truncated_msg :: "nat \<Rightarrow> nat \<Rightarrow> nat \<Rightarrow> string" where
  "truncated_msg code len rest =
     ''truncated option: code '' @ show_nat code @ '' length '' @ show_nat len @
     '' exceeds remaining '' @ show_nat rest @ '' bytes''"

definition no_relay_msg :: string where
  "no_relay_msg = ''no relay-message option (9) found in relay reply''"

text \<open>The loop of \<open>extract_relay_msg\<close> at position \<open>pos\<close>.\<close>

function extract_from :: "bytes \<Rightarrow> nat \<Rightarrow> bytes relay_result option" where
  "extract_from options pos =
     (if pos + OPTION_TLV_HDR \<le> length options then
        (case read_u16 options pos of
           None \<Rightarrow> None
         | Some code \<Rightarrow>
            (case read_u16 options (pos + 2) of
               None \<Rightarrow> None
             | Some w \<Rightarrow>
                (let len = unat w; pos' = pos + OPTION_TLV_HDR in
                 if length options < pos' + len then
                   Some (Inl (Parse (truncated_msg (unat code) len (length options - pos'))))
                 else if code = OPTION_RELAY_MSG then
                   map_option Inr (slice_of options pos' (pos' + len))
                 else extract_from options (pos' + len))))
      else Some (Inl (Parse no_relay_msg)))"
  by pat_completeness auto
termination
  by (relation "measure (\<lambda>(options, pos). length options - pos)") (auto simp: OPTION_TLV_HDR_def)

declare extract_from.simps [simp del]

definition extract_relay_msg :: "bytes \<Rightarrow> bytes relay_result option" where
  "extract_relay_msg options = extract_from options 0"

definition too_short_msg :: "nat \<Rightarrow> string" where
  "too_short_msg n =
     ''relay message too short: '' @ show_nat n @ '' bytes (minimum '' @
     show_nat RELAY_HDR_LEN @ '')''"

definition wrong_type_msg :: "byte \<Rightarrow> string" where
  "wrong_type_msg t = ''expected RELAY_REPL (13), got msg_type '' @ show_nat (unat t)"

section \<open>The option sequence as a list\<close>

text \<open>
  The reference reading: a list of complete options, and the header of a truncated one if the
  sequence ends in it (code, announced length, remaining bytes).
\<close>

type_synonym v6_tlv = "u16 \<times> bytes"

function parse_tlvs :: "bytes \<Rightarrow> v6_tlv list \<times> (u16 \<times> nat \<times> nat) option" where
  "parse_tlvs (a # b # c # d # rest) =
     (let code = from_be16 a b; len = unat (from_be16 c d) in
      if length rest < len then ([], Some (code, len, length rest))
      else (let (ts, e) = parse_tlvs (drop len rest) in ((code, take len rest) # ts, e)))"
| "parse_tlvs [] = ([], None)"
| "parse_tlvs [a] = ([], None)"
| "parse_tlvs [a, b] = ([], None)"
| "parse_tlvs [a, b, c] = ([], None)"
  by pat_completeness auto
termination by (relation "measure length") auto

declare parse_tlvs.simps(1) [simp del]

definition find_relay_msg :: "v6_tlv list \<times> (u16 \<times> nat \<times> nat) option \<Rightarrow> bytes relay_result" where
  "find_relay_msg p =
     (case find (\<lambda>t. fst t = OPTION_RELAY_MSG) (fst p) of
        Some t \<Rightarrow> Inr (snd t)
      | None \<Rightarrow>
          (case snd p of
             Some (code, len, rest) \<Rightarrow> Inl (Parse (truncated_msg (unat code) len rest))
           | None \<Rightarrow> Inl (Parse no_relay_msg)))"

lemma find_relay_msg_Cons:
  "find_relay_msg (t # ts, e) =
     (if fst t = OPTION_RELAY_MSG then Inr (snd t) else find_relay_msg (ts, e))"
  by (auto simp: find_relay_msg_def split: option.splits)

lemma read_u16_drop:
  "drop n bs = a # b # rest \<Longrightarrow> read_u16 bs n = Some (from_be16 a b)"
proof -
  assume d: "drop n bs = a # b # rest"
  have "length bs - n = 2 + length rest"
    using arg_cong [OF d, of length] by simp
  then have len: "length bs = n + 2 + length rest" by linarith
  have "bs ! n = a" "bs ! Suc n = b"
    using nth_drop [of n bs 0] nth_drop [of n bs 1] d len by simp_all
  with len show ?thesis by (simp add: read_u16_def idx_in)
qed

lemma extract_from_parse: "extract_from options pos = Some (find_relay_msg (parse_tlvs (drop pos options)))"
proof (induction options pos rule: extract_from.induct)
  case (1 options pos)
  show ?case
  proof (cases "pos + 4 \<le> length options")
    case False
    have "length (drop pos options) < 4" using False by simp
    then have "parse_tlvs (drop pos options) = ([], None)"
      by (cases "drop pos options" rule: parse_tlvs.cases) auto
    with False show ?thesis
      by (simp add: extract_from.simps [of options pos] OPTION_TLV_HDR_def find_relay_msg_def)
  next
    case True
    have "4 \<le> length (drop pos options)" using True by simp
    then obtain a b c d rest where drop: "drop pos options = a # b # c # d # rest"
      by (cases "drop pos options" rule: parse_tlvs.cases) auto
    have drop2: "drop (pos + 2) options = c # d # rest" and drop4: "drop (pos + 4) options = rest"
      using arg_cong [OF drop, of "drop 2"] arg_cong [OF drop, of "drop 4"]
      by (simp_all add: add.commute)
    have len: "length options = pos + 4 + length rest"
      using arg_cong [OF drop, of length] True by simp
    let ?code = "from_be16 a b" and ?len = "unat (from_be16 c d)"
    note step = extract_from.simps [of options pos]
    note reads = read_u16_drop [OF drop] read_u16_drop [OF drop2, simplified]
    note parse = drop parse_tlvs.simps(1) [of a b c d rest]
    show ?thesis
    proof (cases "length rest < ?len")
      case short: True
      then show ?thesis
        using True len by (simp add: step reads parse OPTION_TLV_HDR_def find_relay_msg_def Let_def)
    next
      case fits: False
      show ?thesis
      proof (cases "?code = OPTION_RELAY_MSG")
        case relay: True
        then show ?thesis
          using True len fits drop4
          by (simp add: step reads parse OPTION_TLV_HDR_def find_relay_msg_def Let_def
              slice_in case_prod_beta)
      next
        case other: False
        have "drop (pos + (4 + ?len)) options = drop ?len rest"
          by (simp add: drop4 [symmetric] add.commute add.left_commute)
        then show ?thesis
          using True len fits other 1 [OF _ read_u16_drop [OF drop] read_u16_drop [OF drop2] refl refl]
          by (simp add: step reads parse OPTION_TLV_HDR_def find_relay_msg_Cons Let_def
              case_prod_beta add.assoc)
      qed
    qed
  qed
qed

lemma extract_relay_msg_parse: "extract_relay_msg options = Some (find_relay_msg (parse_tlvs options))"
  by (simp add: extract_relay_msg_def extract_from_parse)

lemma parse_tlvs_sublist:
  "(c, d) \<in> set (fst (parse_tlvs bs)) \<Longrightarrow> sublist d bs \<and> length d + 4 \<le> length bs"
proof (induction bs arbitrary: c d rule: parse_tlvs.induct)
  case (1 p q r s rest)
  let ?len = "unat (from_be16 r s)"
  have "sublist (take ?len rest) (p # q # r # s # rest)"
    by (meson sublist_Cons_right sublist_take)
  moreover have "sublist x (p # q # r # s # rest)" if "sublist x (drop ?len rest)" for x
    using that by (meson sublist_Cons_right sublist_drop sublist_order.order_trans)
  ultimately show ?case
    using 1 by (fastforce simp: parse_tlvs.simps(1) Let_def case_prod_beta split: if_splits)
qed auto

lemma find_relay_msg_Inr:
  "find_relay_msg p = Inr d \<Longrightarrow> (OPTION_RELAY_MSG, d) \<in> set (fst p)"
proof -
  assume "find_relay_msg p = Inr d"
  then obtain t where "find (\<lambda>t. fst t = OPTION_RELAY_MSG) (fst p) = Some t" "snd t = d"
    by (auto simp: find_relay_msg_def split: option.splits)
  then show ?thesis
    unfolding find_Some_iff by (metis nth_mem prod.collapse)
qed

lemma extract_relay_msg_sublist:
  assumes "extract_relay_msg bs = Some (Inr d)"
  shows "sublist d bs \<and> length d + 4 \<le> length bs"
proof -
  from assms have "find_relay_msg (parse_tlvs bs) = Inr d" by (simp add: extract_relay_msg_parse)
  then show ?thesis by (rule parse_tlvs_sublist [OF find_relay_msg_Inr])
qed

section \<open>Decapsulation\<close>

function decapsulate :: "bytes \<Rightarrow> bytes relay_result option" where
  "decapsulate relay_reply =
     (if length relay_reply < RELAY_HDR_LEN
      then Some (Inl (Parse (too_short_msg (length relay_reply))))
      else (case idx relay_reply 0 of
          None \<Rightarrow> None
        | Some msg_type \<Rightarrow>
            if msg_type \<noteq> RELAY_REPL then Some (Inl (Parse (wrong_type_msg msg_type)))
            else (case slice_from relay_reply RELAY_HDR_LEN of
                None \<Rightarrow> None
              | Some options \<Rightarrow>
                 (case extract_relay_msg options of
                    None \<Rightarrow> None
                  | Some (Inl e) \<Rightarrow> Some (Inl e)
                  | Some (Inr inner) \<Rightarrow>
                      if inner \<noteq> [] \<and> idx inner 0 = Some RELAY_REPL then decapsulate inner
                      else Some (Inr inner)))))"
  by pat_completeness auto
termination
  by (relation "measure length")
    (auto dest!: extract_relay_msg_sublist simp: slice_from_def slice_Some_iff RELAY_HDR_LEN_def)

declare decapsulate.simps [simp del]

end
