(* ===== verification/V6_Pipeline.thy ===== *)
theory V6_Pipeline
  imports V6_Options V6_Relay_Fwd
begin

text \<open>
  \<open>dhcp/v6/pipeline.rs\<close>: the stages of the two DHCPv6 pipelines and their construction. The
  warning of the VSS extraction is computed by \<open>v6_vss_mismatch\<close>, the \<open>tracing\<close> output itself is
  not part of the result.
\<close>

definition v6_parse_process :: "'m v6_api \<Rightarrow> pipeline_ctx \<Rightarrow> stage_run" where
  "v6_parse_process A ctx =
     (case v6_decode A (buffer ctx) of
        Inl e \<Rightarrow> Some (Inl (Parse (''failed to parse DHCPv6 message: '' @ e)), ctx)
      | Inr msg \<Rightarrow> Some (Inr True, ctx))"

definition interface_id_process :: "'m v6_api \<Rightarrow> string \<Rightarrow> pipeline_ctx \<Rightarrow> stage_run" where
  "interface_id_process A iface_name ctx =
     modify_then
       (modify_v6 A ''dhcpv6::interface_id''
          (\<lambda>msg. Inr (v6_insert A msg (interface_id_encode iface_name))) ctx)
       (\<lambda>c. c)"

definition remote_id_process :: "'m v6_api \<Rightarrow> bytes \<Rightarrow> pipeline_ctx \<Rightarrow> stage_run" where
  "remote_id_process A remote ctx =
     modify_then
       (modify_v6 A ''dhcpv6::remote_id''
          (\<lambda>msg. Inr (v6_insert A msg (remote_id_encode remote))) ctx)
       (\<lambda>c. c)"

definition relay_fwd_process :: "ipv6addr \<Rightarrow> socket_addr \<Rightarrow> pipeline_ctx \<Rightarrow> stage_run" where
  "relay_fwd_process link_addr peer_addr ctx =
     Some (Inr True, ctx\<lparr>buffer := encapsulate (buffer ctx) link_addr peer_addr\<rparr>)"

definition relay_reply_process :: "pipeline_ctx \<Rightarrow> stage_run" where
  "relay_reply_process ctx =
     (case decapsulate (buffer ctx) of
        None \<Rightarrow> None
      | Some (Inl e) \<Rightarrow> Some (Inl e, ctx)
      | Some (Inr inner) \<Rightarrow> Some (Inr True, ctx\<lparr>buffer := inner\<rparr>))"

fun first_interface :: "v6_option list \<Rightarrow> string option" where
  "first_interface [] = None"
| "first_interface (opt # opts) =
     (case interface_id_decode opt of Some name \<Rightarrow> Some name | None \<Rightarrow> first_interface opts)"

definition interface_id_extract_process :: "'m v6_api \<Rightarrow> pipeline_ctx \<Rightarrow> stage_run" where
  "interface_id_extract_process A ctx =
     (case v6_decode A (buffer ctx) of
        Inl e \<Rightarrow> Some (Inl (Parse (''interface-id extract decode: '' @ e)), ctx)
      | Inr msg \<Rightarrow>
         (case first_interface (v6_opts A msg) of
            None \<Rightarrow> Some (Inr True, ctx)
          | Some name \<Rightarrow>
              Some (Inr True,
                    ctx\<lparr>metadata := (metadata ctx)(''outbound_interface'' \<mapsto> name)\<rparr>)))"

definition v6_forward_process :: "socket_addr \<Rightarrow> pipeline_ctx \<Rightarrow> stage_run" where
  "v6_forward_process dest ctx = Some (Inr True, ctx\<lparr>dst_addr := Some dest\<rparr>)"

definition v6_vss_insert_process :: "'m v6_api \<Rightarrow> vss_config \<Rightarrow> pipeline_ctx \<Rightarrow> stage_run" where
  "v6_vss_insert_process A cfg ctx =
     (if \<not> vss_enabled cfg then Some (Inr True, ctx)
      else case v6_vss_encode cfg of
        Inl e \<Rightarrow> Some (Inl e, ctx)
      | Inr vss_opt \<Rightarrow>
          modify_then
            (modify_v6 A ''dhcpv6::vss::insert'' (\<lambda>msg. Inr (v6_insert A msg vss_opt)) ctx)
            (\<lambda>c. c\<lparr>metadata := (metadata c)(''vss_inserted'' \<mapsto> ''true'')\<rparr>))"

text \<open>The name in the option and the expected one, when they differ.\<close>

definition v6_vss_mismatch ::
    "vss_config \<Rightarrow> (byte \<times> bytes) option \<Rightarrow> (string \<times> string) option" where
  "v6_vss_mismatch cfg found =
     (case found of
        None \<Rightarrow> None
      | Some (t, info) \<Rightarrow>
          (case vpn_name cfg of
             None \<Rightarrow> None
           | Some expected \<Rightarrow>
               if t = VSS_TYPE_NVT_ASCII then
                 (let name = (case from_utf8 info of Some s \<Rightarrow> s | None \<Rightarrow> '''') in
                  if name \<noteq> expected then Some (name, expected) else None)
               else None))"

definition v6_vss_report ::
    "'m v6_api \<Rightarrow> vss_config \<Rightarrow> v6_option list \<Rightarrow> (string \<times> string) option option" where
  "v6_vss_report A cfg opts = map_option (v6_vss_mismatch cfg) (v6_vss_extract A opts)"

definition v6_vss_extract_process :: "'m v6_api \<Rightarrow> vss_config \<Rightarrow> pipeline_ctx \<Rightarrow> stage_run" where
  "v6_vss_extract_process A cfg ctx =
     (if \<not> vss_enabled cfg then Some (Inr True, ctx)
      else case v6_decode A (buffer ctx) of
        Inl e \<Rightarrow> Some (Inl (Parse (''v6 vss extract decode: '' @ e)), ctx)
      | Inr msg \<Rightarrow>
         (case v6_vss_report A cfg (v6_opts A msg) of
            None \<Rightarrow> None
          | Some warning \<Rightarrow> Some (Inr True, ctx)))"

section \<open>The two pipelines\<close>

definition build_request_v6 ::
    "'m v6_api \<Rightarrow> string \<Rightarrow> bytes \<Rightarrow> ipv6addr \<Rightarrow> socket_addr \<Rightarrow> socket_addr \<Rightarrow>
     vss_config option \<Rightarrow> bool \<Rightarrow> bool \<Rightarrow> pipeline" where
  "build_request_v6 A iface_name remote link_addr peer_addr server vss en_interface en_remote =
     with_stages
       ([\<lparr>stage_name = ''dhcpv6::parse'', stage_process = v6_parse_process A\<rparr>] @
        (if en_interface then
           [\<lparr>stage_name = ''dhcpv6::interface_id'',
             stage_process = interface_id_process A iface_name\<rparr>] else []) @
        (if en_remote then
           [\<lparr>stage_name = ''dhcpv6::remote_id'',
             stage_process = remote_id_process A remote\<rparr>] else []) @
        (case vss of
           Some cfg \<Rightarrow> [\<lparr>stage_name = ''dhcpv6::vss::insert'',
                         stage_process = v6_vss_insert_process A cfg\<rparr>]
         | None \<Rightarrow> []) @
        [\<lparr>stage_name = ''dhcpv6::relay_fwd'',
          stage_process = relay_fwd_process link_addr peer_addr\<rparr>,
         \<lparr>stage_name = ''dhcpv6::forward'', stage_process = v6_forward_process server\<rparr>])"

definition build_reply_v6 ::
    "'m v6_api \<Rightarrow> socket_addr \<Rightarrow> vss_config option \<Rightarrow> pipeline" where
  "build_reply_v6 A client vss =
     with_stages
       ([\<lparr>stage_name = ''dhcpv6::parse'', stage_process = v6_parse_process A\<rparr>] @
        (case vss of
           Some cfg \<Rightarrow> [\<lparr>stage_name = ''dhcpv6::vss::extract'',
                         stage_process = v6_vss_extract_process A cfg\<rparr>]
         | None \<Rightarrow> []) @
        [\<lparr>stage_name = ''dhcpv6::relay_reply'', stage_process = relay_reply_process\<rparr>,
         \<lparr>stage_name = ''dhcpv6::interface_id_extract'',
          stage_process = interface_id_extract_process A\<rparr>,
         \<lparr>stage_name = ''dhcpv6::forward'', stage_process = v6_forward_process client\<rparr>])"

end
