(* ===== verification/V6_Relay_Wrap.thy ===== *)
theory V6_Relay_Wrap
  imports V6_Relay_Fwd Codec
begin

text \<open>
  Properties of the Relay-forward and Relay-reply codec: the wire format of the wrapper, the
  search for the relay-message option against the list reading of the options, and unwrapping
  as the inverse of wrapping, for any number of layers.
\<close>

section \<open>Encoding of options\<close>

definition put_tlv :: "v6_tlv \<Rightarrow> bytes" where
  "put_tlv t = be16 (fst t) @ be16 (of_nat (length (snd t))) @ snd t"

definition tlv_fits :: "v6_tlv \<Rightarrow> bool" where
  "tlv_fits t \<longleftrightarrow> length (snd t) < 65536"

lemma be16_two: "\<exists>a b. be16 w = [a, b] \<and> from_be16 a b = w"
  using be16_cases from_be16_be16 by metis

lemma unat_u16_of_nat: "n < 65536 \<Longrightarrow> unat (of_nat n :: u16) = n"
  by (simp add: unat_of_nat)

lemma parse_put_tlv:
  assumes "tlv_fits t"
  shows "parse_tlvs (put_tlv t @ rest) = (t # fst (parse_tlvs rest), snd (parse_tlvs rest))"
proof -
  obtain a b where ab: "be16 (fst t) = [a, b]" "from_be16 a b = fst t" using be16_two by blast
  obtain c d where cd: "be16 (of_nat (length (snd t))) = [c, d]"
    "from_be16 c d = of_nat (length (snd t))" using be16_two by blast
  have "unat (from_be16 c d) = length (snd t)"
    using assms cd(2) by (simp add: tlv_fits_def unat_u16_of_nat)
  then show ?thesis
    by (simp add: put_tlv_def ab cd(1) parse_tlvs.simps(1) Let_def case_prod_beta)
qed

lemma parse_put_tlvs:
  "list_all tlv_fits ts \<Longrightarrow>
   parse_tlvs (concat (map put_tlv ts) @ rest) = (ts @ fst (parse_tlvs rest), snd (parse_tlvs rest))"
  by (induction ts) (simp_all add: parse_put_tlv)

section \<open>The wrapper\<close>

definition relay_header :: "byte \<Rightarrow> byte \<Rightarrow> ipv6addr \<Rightarrow> ipv6addr \<Rightarrow> bytes" where
  "relay_header msg_type hops link peer = [msg_type, hops] @ ipv6_octets link @ ipv6_octets peer"

text \<open>A layer of a Relay-reply: its header fields and the options around the relay message.\<close>

record relay_layer =
  rl_hops :: byte
  rl_link :: ipv6addr
  rl_peer :: ipv6addr
  rl_before :: "v6_tlv list"
  rl_after :: bytes

definition wrap :: "relay_layer \<Rightarrow> bytes \<Rightarrow> bytes" where
  "wrap l inner =
     relay_header RELAY_REPL (rl_hops l) (rl_link l) (rl_peer l) @
     concat (map put_tlv (rl_before l)) @ put_tlv (OPTION_RELAY_MSG, inner) @ rl_after l"

definition layer_ok :: "relay_layer \<Rightarrow> bool" where
  "layer_ok l \<longleftrightarrow> list_all tlv_fits (rl_before l) \<and> OPTION_RELAY_MSG \<notin> fst ` set (rl_before l)"

lemma length_relay_header [simp]: "length (relay_header t h l p) = 34"
  by (simp add: relay_header_def)

lemma find_append:
  "\<forall>x \<in> set xs. \<not> P x \<Longrightarrow> find P (xs @ ys) = find P ys"
  by (induction xs) auto

lemma find_relay_before:
  assumes "OPTION_RELAY_MSG \<notin> fst ` set pre"
  shows "find_relay_msg (pre @ (OPTION_RELAY_MSG, d) # ts, e) = Inr d"
proof -
  have "\<forall>x \<in> set pre. fst x \<noteq> OPTION_RELAY_MSG" using assms by force
  then show ?thesis by (simp add: find_relay_msg_def find_append)
qed

lemma extract_wrapped:
  assumes "layer_ok l" "length inner < 65536"
  shows "extract_relay_msg (drop RELAY_HDR_LEN (wrap l inner)) = Some (Inr inner)"
  using assms
  by (simp add: wrap_def RELAY_HDR_LEN_def extract_relay_msg_parse layer_ok_def parse_put_tlvs
      parse_put_tlv tlv_fits_def find_relay_before)

definition starts_reply :: "bytes \<Rightarrow> bool" where
  "starts_reply bs \<longleftrightarrow> bs \<noteq> [] \<and> idx bs 0 = Some RELAY_REPL"

lemma starts_reply_wrap: "starts_reply (wrap l inner)"
  by (simp add: starts_reply_def wrap_def relay_header_def idx_in)

lemma decapsulate_wrap:
  assumes "layer_ok l" "length inner < 65536"
  shows "decapsulate (wrap l inner) =
    (if starts_reply inner then decapsulate inner else Some (Inr inner))"
proof -
  have len: "34 \<le> length (wrap l inner)" by (simp add: wrap_def)
  have "idx (wrap l inner) 0 = Some RELAY_REPL"
    using starts_reply_wrap [of l inner] by (simp add: starts_reply_def)
  moreover have "slice_from (wrap l inner) RELAY_HDR_LEN = Some (drop RELAY_HDR_LEN (wrap l inner))"
    using len by (simp add: slice_from_in RELAY_HDR_LEN_def)
  ultimately show ?thesis
    using len extract_wrapped [OF assms]
    by (subst decapsulate.simps) (simp add: RELAY_HDR_LEN_def starts_reply_def)
qed

text \<open>The cases in which the wrapper is not one this codec can undo.\<close>

lemma decapsulate_cases:
  obtains (short) "length bs < RELAY_HDR_LEN"
      "decapsulate bs = Some (Inl (Parse (too_short_msg (length bs))))"
  | (other_type) "RELAY_HDR_LEN \<le> length bs" "bs ! 0 \<noteq> RELAY_REPL"
      "decapsulate bs = Some (Inl (Parse (wrong_type_msg (bs ! 0))))"
  | (no_message) e where "RELAY_HDR_LEN \<le> length bs" "bs ! 0 = RELAY_REPL"
      "extract_relay_msg (drop RELAY_HDR_LEN bs) = Some (Inl e)" "decapsulate bs = Some (Inl e)"
  | (message) inner where "RELAY_HDR_LEN \<le> length bs" "bs ! 0 = RELAY_REPL"
      "extract_relay_msg (drop RELAY_HDR_LEN bs) = Some (Inr inner)"
      "decapsulate bs = (if starts_reply inner then decapsulate inner else Some (Inr inner))"
proof (cases "length bs < RELAY_HDR_LEN")
  case True
  then show ?thesis by (intro short) (simp_all add: decapsulate.simps [of bs])
next
  case False
  then have i: "idx bs 0 = Some (bs ! 0)" and len: "RELAY_HDR_LEN \<le> length bs"
    and s: "slice_from bs RELAY_HDR_LEN = Some (drop RELAY_HDR_LEN bs)"
    by (auto simp: RELAY_HDR_LEN_def idx_def slice_from_in)
  note unfold = decapsulate.simps [of bs] i s
  show ?thesis
  proof (cases "bs ! 0 = RELAY_REPL")
    case wrong: False
    with False len show ?thesis by (intro other_type) (simp_all add: unfold)
  next
    case True
    obtain x where x: "extract_relay_msg (drop RELAY_HDR_LEN bs) = Some x"
      by (simp add: extract_relay_msg_parse)
    show ?thesis
    proof (cases x)
      case (Inl e)
      with x True False len show ?thesis by (intro no_message) (simp_all add: unfold)
    next
      case (Inr inner)
      with x True False len show ?thesis
        by (intro message) (simp_all add: unfold starts_reply_def)
    qed
  qed
qed

lemma decapsulate_total: "decapsulate bs \<noteq> None"
proof (induction "length bs" arbitrary: bs rule: less_induct)
  case less
  show ?case
  proof (cases rule: decapsulate_cases [of bs])
    case (message inner)
    then have "length inner < length bs"
      using extract_relay_msg_sublist [OF message(3)] by (auto simp: RELAY_HDR_LEN_def)
    with less message show ?thesis by simp
  qed simp_all
qed

lemma decapsulate_Inr:
  "decapsulate bs = Some (Inr d) \<Longrightarrow>
   starts_reply bs \<and> \<not> starts_reply d \<and> sublist d bs \<and> length d + 38 \<le> length bs"
proof (induction "length bs" arbitrary: bs rule: less_induct)
  case less
  show ?case
  proof (cases rule: decapsulate_cases [of bs])
    case (message inner)
    have sub: "sublist inner (drop 34 bs)" "length inner + 38 \<le> length bs"
      using extract_relay_msg_sublist [OF message(3)] message(1) by (auto simp: RELAY_HDR_LEN_def)
    then have inner: "sublist inner bs"
      by (meson sublist_drop sublist_order.order_trans)
    have start: "starts_reply bs"
      using message(1,2) by (auto simp: starts_reply_def idx_def RELAY_HDR_LEN_def)
    show ?thesis
    proof (cases "starts_reply inner")
      case True
      have "decapsulate inner = Some (Inr d)" using True message(4) less.prems by simp
      with less.hyps [of inner] sub(2)
      have "\<not> starts_reply d" "sublist d inner" "length d + 38 \<le> length inner" by auto
      with inner sub(2) start show ?thesis by (auto intro: sublist_order.order_trans)
    next
      case False
      with less.prems message inner sub start show ?thesis by simp
    qed
  qed (use less.prems in simp_all)
qed

section \<open>The depth of the recursion\<close>

text \<open>The message on which \<open>decapsulate\<close> calls itself, and the number of calls on a message.\<close>

definition nested_reply :: "bytes \<Rightarrow> bytes option" where
  "nested_reply bs =
     (if RELAY_HDR_LEN \<le> length bs \<and> bs ! 0 = RELAY_REPL then
        (case extract_relay_msg (drop RELAY_HDR_LEN bs) of
           Some (Inr inner) \<Rightarrow> if starts_reply inner then Some inner else None
         | _ \<Rightarrow> None)
      else None)"

lemma nested_reply_step:
  "nested_reply bs = Some inner \<Longrightarrow>
   decapsulate bs = decapsulate inner \<and> length inner + 38 \<le> length bs"
  by (cases rule: decapsulate_cases [of bs])
    (auto simp: nested_reply_def RELAY_HDR_LEN_def dest: extract_relay_msg_sublist split: if_splits)

function decapsulate_calls :: "bytes \<Rightarrow> nat" where
  "decapsulate_calls bs =
     (case nested_reply bs of None \<Rightarrow> 1 | Some inner \<Rightarrow> Suc (decapsulate_calls inner))"
  by pat_completeness auto
termination
  by (relation "measure length") (auto dest: nested_reply_step)

declare decapsulate_calls.simps [simp del]

lemma decapsulate_calls_bound: "38 * decapsulate_calls bs \<le> length bs + 38"
proof (induction bs rule: decapsulate_calls.induct)
  case (1 bs)
  show ?case
  proof (cases "nested_reply bs")
    case (Some inner)
    with 1 nested_reply_step [OF Some] show ?thesis by (simp add: decapsulate_calls.simps [of bs])
  qed (simp add: decapsulate_calls.simps)
qed

section \<open>Unwrapping is the inverse of wrapping\<close>

fun relay_decode :: "bytes \<Rightarrow> bytes option" where
  "relay_decode bs = (case decapsulate bs of Some (Inr x) \<Rightarrow> Some x | _ \<Rightarrow> None)"

definition payload_ok :: "bytes \<Rightarrow> bool" where
  "payload_ok d \<longleftrightarrow> length d < 65536 \<and> \<not> starts_reply d"

definition plain_layer :: "byte \<Rightarrow> ipv6addr \<Rightarrow> ipv6addr \<Rightarrow> relay_layer" where
  "plain_layer h link peer =
     \<lparr> rl_hops = h, rl_link = link, rl_peer = peer, rl_before = [], rl_after = [] \<rparr>"

lemma plain_layer_ok [simp]: "layer_ok (plain_layer h link peer)"
  by (simp add: plain_layer_def layer_ok_def)

interpretation relay: codec "wrap (plain_layer h link peer)" relay_decode payload_ok
  for h link peer
  by unfold_locales (simp add: payload_ok_def decapsulate_wrap)

fun wrap_all :: "relay_layer list \<Rightarrow> bytes \<Rightarrow> bytes" where
  "wrap_all [] d = d"
| "wrap_all (l # ls) d = wrap l (wrap_all ls d)"

text \<open>Every layer inside the outermost one still fits the 16-bit length of its option.\<close>

fun layers_fit :: "relay_layer list \<Rightarrow> bytes \<Rightarrow> bool" where
  "layers_fit [] d = (length d < 65536)"
| "layers_fit (l # ls) d = (layer_ok l \<and> layers_fit ls d \<and> length (wrap_all ls d) < 65536)"

lemma decapsulate_wrap_all:
  "layers_fit ls d \<Longrightarrow> \<not> starts_reply d \<Longrightarrow> ls \<noteq> [] \<Longrightarrow>
   decapsulate (wrap_all ls d) = Some (Inr d)"
proof (induction ls)
  case (Cons l ls)
  then show ?case
    by (cases ls) (simp_all add: decapsulate_wrap starts_reply_wrap)
qed simp

text \<open>A nesting of minimal layers, each 38 bytes long, that one datagram can hold.\<close>

lemma calls_wrap_all:
  "layers_fit ls d \<Longrightarrow> \<not> starts_reply d \<Longrightarrow> ls \<noteq> [] \<Longrightarrow> decapsulate_calls (wrap_all ls d) = length ls"
proof (induction ls)
  case (Cons l ls)
  have "nested_reply (wrap l (wrap_all ls d)) = (if starts_reply (wrap_all ls d) then Some (wrap_all ls d) else None)"
    using Cons.prems extract_wrapped [of l "wrap_all ls d"] starts_reply_wrap [of l "wrap_all ls d"]
    by (auto simp: nested_reply_def starts_reply_def idx_def wrap_def RELAY_HDR_LEN_def)
  with Cons show ?case
    by (cases ls) (simp_all add: decapsulate_calls.simps [of "wrap l _"] starts_reply_wrap)
qed simp

lemma plain_layers_fit:
  fixes d :: bytes and l :: relay_layer
  defines "l \<equiv> plain_layer 0 IPV6_UNSPECIFIED IPV6_UNSPECIFIED"
  assumes "38 * n + length d < 65536"
  shows "length (wrap_all (replicate n l) d) = 38 * n + length d \<and> layers_fit (replicate n l) d"
  using assms(2)
  by (induction n) (simp_all add: l_def wrap_def plain_layer_def put_tlv_def be16_def layer_ok_def)

lemma nesting_deep:
  assumes "0 < n" "n \<le> 1724"
  shows "\<exists>bs. length bs \<le> 65535 \<and> decapsulate_calls bs = n \<and> decapsulate bs = Some (Inr [2])"
proof -
  have "\<not> starts_reply [2]" by (simp add: starts_reply_def idx_def RELAY_REPL_def)
  moreover from assms have "replicate n l \<noteq> []" for l :: relay_layer by simp
  moreover have "38 * n + length [2 :: byte] < 65536" using assms by simp
  ultimately show ?thesis
    using plain_layers_fit [of n "[2]"] calls_wrap_all decapsulate_wrap_all
    by (intro exI [of _ "wrap_all (replicate n (plain_layer 0 IPV6_UNSPECIFIED IPV6_UNSPECIFIED)) [2]"])
      fastforce
qed

lemma encapsulate_wrap:
  "(encapsulate msg link peer)[0 := RELAY_REPL] =
     wrap (plain_layer 0 link (case socket_ip peer of V6 ip \<Rightarrow> ip | V4 _ \<Rightarrow> IPV6_UNSPECIFIED)) msg"
  by (simp add: encapsulate_def wrap_def relay_header_def plain_layer_def put_tlv_def Let_def
      split: ip_addr.splits)

section \<open>Properties\<close>

text \<open>
  C3: \<open>decapsulate\<close> undoes any number of relay layers: if a payload that is not itself a
  Relay-reply is wrapped in one or more layers, each with arbitrary header fields, options before
  the relay message and bytes after it, and every wrapped message fits its 16-bit length, then
  the payload comes back unchanged.
\<close>

theorem decapsulate_layers:
  assumes "layers_fit ls payload" "\<not> starts_reply payload" "ls \<noteq> []"
  shows "decapsulate (wrap_all ls payload) = Some (Inr payload)"
  by (rule decapsulate_wrap_all [OF assms])

theorem decapsulate_layers_witness:
  "decapsulate (wrap_all
     [\<lparr> rl_hops = 1, rl_link = IPV6_UNSPECIFIED, rl_peer = IPV6_UNSPECIFIED,
        rl_before = [(18, [101, 116, 104])], rl_after = [0, 1] \<rparr>,
      plain_layer 0 IPV6_UNSPECIFIED IPV6_UNSPECIFIED] [2, 0, 0, 1]) = Some (Inr [2, 0, 0, 1])"
proof (rule decapsulate_layers)
  show "layers_fit
     [\<lparr> rl_hops = 1, rl_link = IPV6_UNSPECIFIED, rl_peer = IPV6_UNSPECIFIED,
        rl_before = [(18, [101, 116, 104])], rl_after = [0, 1] \<rparr>,
      plain_layer 0 IPV6_UNSPECIFIED IPV6_UNSPECIFIED] [2, 0, 0, 1]"
    by (simp add: layer_ok_def tlv_fits_def OPTION_RELAY_MSG_def wrap_def plain_layer_def put_tlv_def)
qed (simp_all add: starts_reply_def idx_def RELAY_REPL_def)

text \<open>
  C35: \<open>decapsulate\<close> terminates without panicking on every byte sequence; what it returns is a
  contiguous part of the input, at least 38 bytes shorter, that does not start like a
  Relay-reply, and only inputs that do start like one are unwrapped. Each nested call takes at
  least 38 bytes of the input, which is the only bound on the depth of the recursion.
\<close>

theorem decapsulate_sound:
  "(\<exists>r. decapsulate bs = Some r \<and>
     (\<forall>d. r = Inr d \<longrightarrow> starts_reply bs \<and> \<not> starts_reply d \<and> sublist d bs \<and>
        length d + 38 \<le> length bs)) \<and>
   38 * (decapsulate_calls bs - 1) \<le> length bs"
  using decapsulate_total [of bs] decapsulate_Inr [of bs] decapsulate_calls_bound [of bs] by auto

theorem decapsulate_sound_witness:
  "\<exists>r. decapsulate (wrap (plain_layer 0 IPV6_UNSPECIFIED IPV6_UNSPECIFIED) [2]) = Some r \<and> r = Inr [2]"
  using decapsulate_sound [of "wrap (plain_layer 0 IPV6_UNSPECIFIED IPV6_UNSPECIFIED) [2]"]
  by (simp add: decapsulate_wrap starts_reply_def idx_def RELAY_REPL_def)

text \<open>
  C10: the index-based search for the relay-message option is the search for the first option 9 in
  the list reading of the bytes; it reports the truncated option when the sequence breaks off
  before one is found, and its absence otherwise. It never indexes out of bounds.
\<close>

theorem extract_is_find_first:
  "extract_relay_msg options =
     Some (case find (\<lambda>t. fst t = OPTION_RELAY_MSG) (fst (parse_tlvs options)) of
             Some t \<Rightarrow> Inr (snd t)
           | None \<Rightarrow> (case snd (parse_tlvs options) of
               Some (code, len, rest) \<Rightarrow> Inl (Parse (truncated_msg (unat code) len rest))
             | None \<Rightarrow> Inl (Parse no_relay_msg)))"
  by (simp add: extract_relay_msg_parse find_relay_msg_def)

text \<open>
  Encapsulation against decapsulation. A client message below 64 KiB that is not a
  Relay-reply, encapsulated and answered with the message type changed to Relay-reply, is
  decapsulated to itself, for every link and peer address; the Relay-forward itself has the
  RFC 8415 header: type 12, hop count 0, link address, peer address (unspecified for an IPv4 peer).
\<close>

lemma encapsulate_decapsulate:
  assumes "length msg < 65536" "\<not> starts_reply msg"
  shows "decapsulate ((encapsulate msg link peer)[0 := RELAY_REPL]) = Some (Inr msg) \<and>
    take 34 (encapsulate msg link peer) =
      relay_header 12 0 link (case socket_ip peer of V6 ip \<Rightarrow> ip | V4 _ \<Rightarrow> IPV6_UNSPECIFIED) \<and>
    drop 38 (encapsulate msg link peer) = msg"
proof -
  have "decapsulate ((encapsulate msg link peer)[0 := RELAY_REPL]) = Some (Inr msg)"
    using assms by (simp add: encapsulate_wrap decapsulate_wrap)
  then show ?thesis
    by (simp add: encapsulate_def relay_header_def RELAY_FORW_def Let_def split: ip_addr.splits)
qed

text \<open>
  A client message of 64 KiB or more is written behind a truncated length: the announced
  length of the relay-message option is the length modulo 65536, so that reading the
  option back yields that prefix of the message only.
\<close>

lemma encapsulate_truncates:
  "extract_relay_msg (drop RELAY_HDR_LEN (encapsulate msg link peer)) =
     Some (Inr (take (length msg mod 65536) msg))"
proof -
  define n where "n = length msg mod 65536"
  have n: "n \<le> length msg" "n < 65536" by (simp_all add: n_def)
  have "unat (of_nat (length msg) :: u16) = unat (of_nat n :: u16)"
    by (simp add: unat_of_nat n_def)
  then have w: "(of_nat (length msg) :: u16) = of_nat n" by (simp only: word_unat_eq_iff)
  have "drop RELAY_HDR_LEN (encapsulate msg link peer) =
      be16 OPTION_RELAY_MSG @ be16 (of_nat (length msg)) @ msg"
    by (simp add: encapsulate_def RELAY_HDR_LEN_def Let_def split: ip_addr.splits)
  also have "\<dots> = put_tlv (OPTION_RELAY_MSG, take n msg) @ drop n msg"
    using n by (simp add: put_tlv_def w min_absorb2)
  finally show ?thesis
    using n by (simp add: extract_relay_msg_parse parse_put_tlv tlv_fits_def find_relay_msg_def
        flip: n_def)
qed

end
