(* ===== verification/V6_Sample.thy ===== *)
theory V6_Sample
  imports Dhcp_V6_Api V6_Relay_Wrap
begin

text \<open>
  A concrete instance of the DHCPv6 interface that satisfies \<open>dhcproto_v6_ok\<close>, for the
  witnesses of the DHCPv6 theorems; it is no model of the crate. A message is its type and its
  options as code and data, written on the wire as the type and the options in order.
\<close>

type_synonym sample6_msg = "byte \<times> v6_option list"

definition tlv_option :: "v6_tlv \<Rightarrow> v6_option" where
  "tlv_option t =
     (if fst t = 18 then InterfaceId (snd t)
      else if fst t = 37 then UnknownOption RemoteIdOption (snd t)
      else UnknownOption (UnknownOptionCode (fst t)) (snd t))"

fun option_tlv :: "v6_option \<Rightarrow> v6_tlv" where
  "option_tlv (InterfaceId d) = (18, d)"
| "option_tlv (UnknownOption RemoteIdOption d) = (37, d)"
| "option_tlv (UnknownOption (UnknownOptionCode n) d) = (n, d)"
| "option_tlv (UnknownOption (OtherOptionCode n) d) = (n, d)"
| "option_tlv OtherV6Option = (0, [])"

fun sample6_code :: "v6_option_code \<Rightarrow> u16" where
  "sample6_code RemoteIdOption = 37"
| "sample6_code (UnknownOptionCode n) = n"
| "sample6_code (OtherOptionCode n) = n"

fun sample6_type :: "byte \<Rightarrow> v6_message_type" where
  "sample6_type t =
     (if t = 1 then V6Solicit else if t = 3 then V6Request else if t = 4 then V6Confirm
      else if t = 5 then V6Renew else if t = 6 then V6Rebind else if t = 8 then V6Release
      else if t = 9 then V6Decline else if t = 11 then V6InformationRequest
      else OtherV6MessageType t)"

fun sample6_decode :: "bytes \<Rightarrow> string + sample6_msg" where
  "sample6_decode [] = Inl ''empty''"
| "sample6_decode (t # bs) = Inr (t, map tlv_option (fst (parse_tlvs bs)))"

definition sample6_encode :: "sample6_msg \<Rightarrow> string + bytes" where
  "sample6_encode m = Inr (fst m # concat (map put_tlv (map option_tlv (snd m))))"

definition sample_v6 :: "sample6_msg v6_api" where
  "sample_v6 =
     \<lparr> v6_decode = sample6_decode, v6_encode = sample6_encode,
       v6_msg_type = (\<lambda>m. sample6_type (fst m)), v6_opts = snd,
       v6_insert = (\<lambda>m opt. (fst m, snd m @ [opt])), v6_code_u16 = sample6_code \<rparr>"

lemma sample_v6_sel [simp]:
  "v6_decode sample_v6 = sample6_decode" "v6_encode sample_v6 = sample6_encode"
  "v6_msg_type sample_v6 m = sample6_type (fst m)" "v6_opts sample_v6 = snd"
  "v6_insert sample_v6 m opt = (fst m, snd m @ [opt])" "v6_code_u16 sample_v6 = sample6_code"
  by (simp_all add: sample_v6_def)

section \<open>The laws hold\<close>

definition plain_option :: "v6_option \<Rightarrow> bool" where
  "plain_option opt \<longleftrightarrow>
     option_fact sample_v6 opt = {# option_tlv opt #} \<and> tlv_fits (option_tlv opt)"

lemma option_fact_tlv: "option_fact sample_v6 (tlv_option t) = {# t #}"
  by (cases t) (simp add: tlv_option_def)

lemma option_tlv_tlv: "option_tlv (tlv_option t) = t"
  by (cases t) (simp add: tlv_option_def)

lemma parse_tlvs_fits: "t \<in> set (fst (parse_tlvs bs)) \<Longrightarrow> tlv_fits t"
proof (induction bs rule: parse_tlvs.induct)
  case (1 a b c d rest)
  have "length (take (unat (from_be16 c d)) rest) < 65536"
    using unat_u16_less [of "from_be16 c d"] by (simp only: length_take min_less_iff_disj) simp
  with 1 show ?case
    by (auto simp: parse_tlvs.simps(1) Let_def case_prod_beta tlv_fits_def split: if_splits)
qed simp_all

lemma plain_relay_option: "relay_option opt \<Longrightarrow> plain_option opt"
  by (erule relay_option.cases) (simp_all add: plain_option_def tlv_fits_def)

lemma relay_made_plain: "relay_made sample_v6 m \<Longrightarrow> opt \<in> set (snd m) \<Longrightarrow> plain_option opt"
proof (induction arbitrary: opt rule: relay_made.induct)
  case (decoded b m)
  then show ?case
    using parse_tlvs_fits [of _ "tl b"]
    by (cases b) (auto simp: plain_option_def option_fact_tlv option_tlv_tlv)
qed (auto dest: plain_relay_option)

lemma option_facts_plain:
  "\<forall>opt \<in> set opts. plain_option opt \<Longrightarrow> option_facts sample_v6 opts = mset (map option_tlv opts)"
  by (induction opts) (auto simp: option_facts_def plain_option_def)

lemma sample_v6_codec:
  assumes "relay_made sample_v6 m" "sample6_encode m = Inr b"
  shows "\<exists>m'. sample6_decode b = Inr m' \<and> v6_view sample_v6 m' = v6_view sample_v6 m"
proof -
  have plain: "\<forall>opt \<in> set (snd m). plain_option opt" using relay_made_plain [OF assms(1)] by blast
  then have fits: "list_all tlv_fits (map option_tlv (snd m))"
    by (auto simp: list_all_iff plain_option_def)
  have b: "sample6_decode b = Inr (fst m, map tlv_option (map option_tlv (snd m)))"
    using assms(2) parse_put_tlvs [OF fits, of "[]"] by (auto simp: sample6_encode_def)
  have "option_facts sample_v6 (map tlv_option ts) = mset ts" for ts
    by (induction ts) (simp_all add: option_facts_def option_fact_tlv)
  from this [of "map option_tlv (snd m)"] b plain show ?thesis
    by (simp add: v6_view_def option_facts_plain)
qed

lemma sample_v6_ok: "dhcproto_v6_ok sample_v6"
  unfolding dhcproto_v6_ok_def using sample_v6_codec by simp

lemma sample_v6_total: "v6_encode_total sample_v6"
  by (simp add: v6_encode_total_def sample6_encode_def)

end
