(* ===== verification/V6_Relay.thy ===== *)
theory V6_Relay
  imports V6_Pipeline V6_Sample
begin

text \<open>
  What the DHCPv6 pipelines do with a packet. Each stage in front of the wrapper adds a multiset
  of options to the view of the message in the buffer (\<open>stage_adds\<close>); the contributions add up
  over the pipeline, and the wrapper and the forward stage finish the Relay-forward. The reply
  pipeline is described by one equation.
\<close>

section \<open>Every stage satisfies the stage contract\<close>

interpretation v6_parse: passing_stage "v6_parse_process A" for A :: "'m v6_api"
  by unfold_locales (auto simp: v6_parse_process_def split: sum.splits)

interpretation interface_id_stage: passing_stage "interface_id_process A name"
  for A :: "'m v6_api" and name
  by unfold_locales
    (auto simp: interface_id_process_def modify_v6_def dest: modify_then_origin modify_then_passes)

interpretation remote_id_stage: passing_stage "remote_id_process A d" for A :: "'m v6_api" and d
  by unfold_locales
    (auto simp: remote_id_process_def modify_v6_def dest: modify_then_origin modify_then_passes)

interpretation v6_vss_insert: passing_stage "v6_vss_insert_process A cfg"
  for A :: "'m v6_api" and cfg
  by unfold_locales
    (auto simp: v6_vss_insert_process_def modify_v6_def modify_then_not_None
      dest: modify_then_origin modify_then_passes split: sum.splits if_splits)

interpretation relay_fwd: passing_stage "relay_fwd_process link peer" for link peer
  by unfold_locales (auto simp: relay_fwd_process_def)

interpretation relay_reply: passing_stage relay_reply_process
  using decapsulate_total
  by unfold_locales (auto simp: relay_reply_process_def split: option.splits sum.splits)

interpretation interface_extract: passing_stage "interface_id_extract_process A"
  for A :: "'m v6_api"
  by unfold_locales (auto simp: interface_id_extract_process_def split: sum.splits option.splits)

interpretation v6_forward: passing_stage "v6_forward_process dest" for dest
  by unfold_locales (auto simp: v6_forward_process_def)

lemma v6_vss_report_total: "\<exists>w. v6_vss_report A cfg opts = Some w"
  by (simp add: v6_vss_report_def v6_vss_extract_first)

lemma v6_vss_extract_result:
  "v6_vss_extract_process A cfg ctx =
     (if vss_enabled cfg
      then (case v6_decode A (buffer ctx) of
              Inl e \<Rightarrow> Some (Inl (Parse (''v6 vss extract decode: '' @ e)), ctx)
            | Inr m \<Rightarrow> Some (Inr True, ctx))
      else Some (Inr True, ctx))"
  using v6_vss_report_total [of A cfg]
  by (auto simp: v6_vss_extract_process_def split: sum.splits option.splits)
    (metis option.distinct(1))

interpretation v6_vss_extract_stage: passing_stage "v6_vss_extract_process A cfg"
  for A :: "'m v6_api" and cfg
  by unfold_locales (auto simp: v6_vss_extract_result split: sum.splits if_splits)

lemmas v6_stages_sound =
  v6_parse.sound_stage_axioms interface_id_stage.sound_stage_axioms
  remote_id_stage.sound_stage_axioms v6_vss_insert.sound_stage_axioms
  relay_fwd.sound_stage_axioms relay_reply.sound_stage_axioms
  interface_extract.sound_stage_axioms v6_forward.sound_stage_axioms
  v6_vss_extract_stage.sound_stage_axioms

interpretation v6_request: sound_pipeline
  "stages (build_request_v6 A name rid link peer srv vss en_if en_rid)"
  for A :: "'m v6_api" and name rid link peer srv vss en_if en_rid
  by (rule sound_pipeline.intro)
    (auto simp: build_request_v6_def v6_stages_sound split: if_splits option.splits)

interpretation v6_reply: sound_pipeline "stages (build_reply_v6 A client vss)"
  for A :: "'m v6_api" and client vss
  by (rule sound_pipeline.intro)
    (auto simp: build_reply_v6_def v6_stages_sound split: option.splits)

section \<open>What the request stages add\<close>

definition v6_carries :: "'m v6_api \<Rightarrow> pipeline_ctx \<Rightarrow> v6_view \<Rightarrow> bool" where
  "v6_carries A c v \<longleftrightarrow> (\<exists>m. v6_decode A (buffer c) = Inr m \<and> v6_view A m = v)"

definition stage_adds ::
    "'m v6_api \<Rightarrow> (pipeline_ctx \<Rightarrow> stage_run) \<Rightarrow> (u16 \<times> bytes) multiset \<Rightarrow> bool" where
  "stage_adds A process opts \<longleftrightarrow>
     (\<forall>c t w. v6_carries A c (t, w) \<longrightarrow>
        ((\<exists>e c'. process c = Some (Inl (Parse e), c')) \<and> \<not> v6_encode_total A) \<or>
        (\<exists>c'. process c = Some (Inr True, c') \<and> v6_carries A c' (t, w + opts)))"

lemma stage_addsE:
  assumes "stage_adds A process opts" "v6_carries A c (t, w)"
  obtains (failed) e c' where "process c = Some (Inl (Parse e), c')" "\<not> v6_encode_total A"
  | (added) c' where "process c = Some (Inr True, c')" "v6_carries A c' (t, w + opts)"
  using assms unfolding stage_adds_def by blast

lemma insert_stage_adds:
  assumes ok: "dhcproto_v6_ok A" and opt: "relay_option opt"
    and rest: "\<And>c b v. v6_carries A (c\<lparr>buffer := b\<rparr>) v \<Longrightarrow> v6_carries A (rest (c\<lparr>buffer := b\<rparr>)) v"
  shows "stage_adds A
    (\<lambda>c. modify_then (modify_v6 A st (\<lambda>msg. Inr (v6_insert A msg opt)) c) rest)
    (option_fact A opt)"
  unfolding stage_adds_def
proof (intro allI impI)
  fix c t w assume "v6_carries A c (t, w)"
  then obtain m where m: "v6_decode A (buffer c) = Inr m" "v6_view A m = (t, w)"
    by (auto simp: v6_carries_def)
  let ?m = "v6_insert A m opt"
  have made: "relay_made A ?m" using m(1) opt by (intro relay_made.intros)
  have v: "v6_view A ?m = (t, w + option_fact A opt)"
    using m(2) by (simp add: view_v6_insert [OF ok])
  let ?P = "\<lambda>c. modify_then (modify_v6 A st (\<lambda>msg. Inr (v6_insert A msg opt)) c) rest"
  show "((\<exists>e c'. ?P c = Some (Inl (Parse e), c')) \<and> \<not> v6_encode_total A) \<or>
        (\<exists>c'. ?P c = Some (Inr True, c') \<and> v6_carries A c' (t, w + option_fact A opt))"
  proof (cases "v6_encode A ?m")
    case (Inl e)
    then have "\<not> v6_encode_total A" by (metis Inl_Inr_False v6_encode_total_def)
    with Inl m(1) show ?thesis by (simp add: modify_v6_def modify_msg_def)
  next
    case (Inr b)
    from v6_encode_decode [OF ok made Inr] v
    have "v6_carries A (c\<lparr>buffer := b\<rparr>) (t, w + option_fact A opt)"
      by (auto simp: v6_carries_def)
    with Inr m(1) rest show ?thesis by (auto simp: modify_v6_def modify_msg_def)
  qed
qed

lemma parse_adds: "stage_adds A (v6_parse_process A) {#}"
  by (auto simp: stage_adds_def v6_parse_process_def v6_carries_def)

lemma interface_id_adds:
  "dhcproto_v6_ok A \<Longrightarrow> length name < 65536 \<Longrightarrow>
   stage_adds A (interface_id_process A name) {# (18, as_bytes name) #}"
  using insert_stage_adds [of A "interface_id_encode name" "\<lambda>c. c" "''dhcpv6::interface_id''"]
  by (simp add: interface_id_process_def [abs_def] interface_id_encode_def)

lemma remote_id_adds:
  "dhcproto_v6_ok A \<Longrightarrow> length d < 65536 \<Longrightarrow> stage_adds A (remote_id_process A d) {# (37, d) #}"
  using insert_stage_adds [of A "remote_id_encode d" "\<lambda>c. c" "''dhcpv6::remote_id''"]
  by (simp add: remote_id_process_def [abs_def] remote_id_encode_def v6_codes)

definition vss_fact :: "vss_config option \<Rightarrow> (u16 \<times> bytes) multiset" where
  "vss_fact vss =
     (case vss of
        Some cfg \<Rightarrow> if vss_enabled cfg then {# (68, vss_type cfg # vss_info cfg) #} else {#}
      | None \<Rightarrow> {#})"

lemma vss_insert_adds:
  assumes "dhcproto_v6_ok A" "vss_enabled cfg \<Longrightarrow> vss_ok cfg \<and> length (vss_info cfg) < 65535"
  shows "stage_adds A (v6_vss_insert_process A cfg) (vss_fact (Some cfg))"
proof (cases "vss_enabled cfg")
  case False
  then show ?thesis by (auto simp: stage_adds_def v6_vss_insert_process_def vss_fact_def)
next
  case True
  let ?opt = "UnknownOption (UnknownOptionCode 68) (vss_type cfg # vss_info cfg)"
  have "v6_vss_encode cfg = Inr ?opt" using True assms(2) by (simp add: v6_vss_encode_Inr)
  then have "v6_vss_insert_process A cfg = (\<lambda>c.
      modify_then (modify_v6 A ''dhcpv6::vss::insert'' (\<lambda>msg. Inr (v6_insert A msg ?opt)) c)
        (\<lambda>c. c\<lparr>metadata := (metadata c)(''vss_inserted'' \<mapsto> ''true'')\<rparr>))"
    using True by (simp add: v6_vss_insert_process_def fun_eq_iff)
  moreover have "relay_option ?opt" using True assms(2) by simp
  ultimately show ?thesis
    using insert_stage_adds [OF assms(1), of ?opt
        "\<lambda>c. c\<lparr>metadata := (metadata c)(''vss_inserted'' \<mapsto> ''true'')\<rparr>" "''dhcpv6::vss::insert''"] True
    by (simp add: vss_fact_def v6_codes [OF assms(1)] v6_carries_def)
qed

lemma stages_add:
  "list_all2 (\<lambda>st opts. stage_adds A (stage_process st) opts) sts fs \<Longrightarrow>
   stage_adds A (execute_stages sts) (sum_list fs)"
proof (induction rule: list_all2_induct)
  case Nil
  then show ?case by (auto simp: stage_adds_def)
next
  case (Cons st sts f fs)
  show ?case
    unfolding stage_adds_def
  proof (intro allI impI)
    fix c t w assume "v6_carries A c (t, w)"
    with Cons.hyps(1) show "((\<exists>e c'. execute_stages (st # sts) c = Some (Inl (Parse e), c')) \<and>
          \<not> v6_encode_total A) \<or>
        (\<exists>c'. execute_stages (st # sts) c = Some (Inr True, c') \<and>
          v6_carries A c' (t, w + sum_list (f # fs)))"
    proof (cases rule: stage_addsE)
      case (added c')
      from Cons.IH added(2) show ?thesis
        using added(1) by (cases rule: stage_addsE) (auto simp: add.assoc)
    qed simp
  qed
qed


section \<open>The run of the request pipeline\<close>

definition relay_request_v6 ::
    "'m v6_api \<Rightarrow> string \<Rightarrow> bytes \<Rightarrow> ipv6addr \<Rightarrow> socket_addr \<Rightarrow> socket_addr \<Rightarrow>
     vss_config option \<Rightarrow> bool \<Rightarrow> bool \<Rightarrow> bytes \<Rightarrow> string \<Rightarrow> stage_run" where
  "relay_request_v6 A name rid link peer srv vss en_if en_rid data iface =
     execute (build_request_v6 A name rid link peer srv vss en_if en_rid) (ctx_new data peer iface)"

definition v6_added ::
    "string \<Rightarrow> bytes \<Rightarrow> vss_config option \<Rightarrow> bool \<Rightarrow> bool \<Rightarrow> (u16 \<times> bytes) multiset" where
  "v6_added name rid vss en_if en_rid =
     (if en_if then {# (18, as_bytes name) #} else {#}) +
     (if en_rid then {# (37, rid) #} else {#}) + vss_fact vss"

text \<open>What the relay adds fits the 16-bit option length, and the VSS configuration validates.\<close>

definition v6_options_ok ::
    "string \<Rightarrow> bytes \<Rightarrow> vss_config option \<Rightarrow> bool \<Rightarrow> bool \<Rightarrow> bool" where
  "v6_options_ok name rid vss en_if en_rid \<longleftrightarrow>
     (en_if \<longrightarrow> length name < 65536) \<and> (en_rid \<longrightarrow> length rid < 65536) \<and>
     (\<forall>cfg. vss = Some cfg \<longrightarrow> vss_enabled cfg \<longrightarrow> vss_ok cfg \<and> length (vss_info cfg) < 65535)"

lemma option_stages_add:
  assumes "dhcproto_v6_ok A" "v6_options_ok name rid vss en_if en_rid"
  shows "stage_adds A (execute_stages
      ([\<lparr>stage_name = ''dhcpv6::parse'', stage_process = v6_parse_process A\<rparr>] @
        (if en_if then
           [\<lparr>stage_name = ''dhcpv6::interface_id'', stage_process = interface_id_process A name\<rparr>]
         else []) @
        (if en_rid then
           [\<lparr>stage_name = ''dhcpv6::remote_id'', stage_process = remote_id_process A rid\<rparr>]
         else []) @
        (case vss of
           Some cfg \<Rightarrow> [\<lparr>stage_name = ''dhcpv6::vss::insert'',
                         stage_process = v6_vss_insert_process A cfg\<rparr>]
         | None \<Rightarrow> [])))
    (v6_added name rid vss en_if en_rid)"
proof -
  let ?fs = "[{#}] @ (if en_if then [{# (18, as_bytes name) #}] else []) @
    (if en_rid then [{# (37, rid) #}] else []) @
    (case vss of Some cfg \<Rightarrow> [vss_fact (Some cfg)] | None \<Rightarrow> [])"
  have sum: "v6_added name rid vss en_if en_rid = sum_list ?fs"
    by (cases vss) (simp_all add: v6_added_def vss_fact_def)
  show ?thesis
    unfolding sum using assms
    by (intro stages_add list_all2_appendI)
      (auto simp: parse_adds v6_options_ok_def interface_id_adds remote_id_adds vss_insert_adds
        split: option.splits)
qed

lemma request_v6_run:
  assumes "dhcproto_v6_ok A" "v6_options_ok name rid vss en_if en_rid" "v6_decode A data = Inr m"
  obtains (failed) e c' where
      "relay_request_v6 A name rid link peer srv vss en_if en_rid data iface = Some (Inl (Parse e), c')"
      "\<not> v6_encode_total A"
  | (forwarded) b m' c' where
      "relay_request_v6 A name rid link peer srv vss en_if en_rid data iface = Some (Inr True, c')"
      "dst_addr c' = Some srv" "buffer c' = encapsulate b link peer"
      "v6_decode A b = Inr m'"
      "v6_view A m' = (v6_msg_type A m,
         snd (v6_view A m) + v6_added name rid vss en_if en_rid)"
proof -
  have "v6_carries A (ctx_new data peer iface) (v6_msg_type A m, snd (v6_view A m))"
    using assms(3) by (simp add: v6_carries_def v6_view_def)
  with option_stages_add [OF assms(1,2)] show thesis
  proof (cases rule: stage_addsE)
    case (failed e c')
    then show ?thesis
      by (intro that(1) [of e c'])
        (simp_all add: relay_request_v6_def build_request_v6_def execute_stages_append
          del: append.simps flip: append_assoc)
  next
    case (added c')
    then obtain m' where "v6_decode A (buffer c') = Inr m'" "v6_view A m' = (v6_msg_type A m,
         snd (v6_view A m) + v6_added name rid vss en_if en_rid)"
      by (auto simp: v6_carries_def)
    with added(1) show ?thesis
      by (intro that(2) [of "c'\<lparr>buffer := encapsulate (buffer c') link peer, dst_addr := Some srv\<rparr>"
            "buffer c'" m'])
        (simp_all add: relay_request_v6_def build_request_v6_def execute_stages_append
          relay_fwd_process_def v6_forward_process_def del: append.simps(2) flip: append_assoc)
  qed
qed

end
