(* ===== verification/Smf_Dpd_Option.thy ===== *)
theory Smf_Dpd_Option
  imports Codec
begin

text \<open>
  \<open>smf/dpd_option.rs\<close>: the SMF_DPD option header of RFC 6621. \<open>decode\<close> works on the option data,
  that is, on the encoding without its first two bytes (type and length).
\<close>

definition SMF_DPD_OPTION_TYPE :: byte where "SMF_DPD_OPTION_TYPE = 0x08"

definition TID_TYPE_NULL :: byte where "TID_TYPE_NULL = 0"

record smf_dpd_option =
  h_bit :: bool
  tid_type :: byte
  tid_len :: byte
  tagger_id :: "bytes option"
  opt_identifier :: bytes

definition option_flags :: "smf_dpd_option \<Rightarrow> byte" where
  "option_flags opt =
     (let flags = push_bit 5 (tid_type opt) OR (tid_len opt AND 0x1F) in
      if h_bit opt then flags OR 0x80 else flags)"

definition smf_encode :: "smf_dpd_option \<Rightarrow> bytes" where
  "smf_encode opt =
     (let id_len = length (opt_identifier opt);
          opt_data_len = 1 + unat (tid_len opt) + id_len in
      [SMF_DPD_OPTION_TYPE, of_nat opt_data_len, option_flags opt] @
      (case tagger_id opt of Some tid \<Rightarrow> tid | None \<Rightarrow> []) @ opt_identifier opt)"

text \<open>The outer option is the panic of an access out of bounds.\<close>

definition smf_decode :: "bytes \<Rightarrow> smf_dpd_option option option" where
  "smf_decode data =
     (if length data < 2 then Some None
      else case idx data 0 of
        None \<Rightarrow> None
      | Some flags \<Rightarrow>
         (let h = (flags AND 0x80 \<noteq> 0);
              tt = drop_bit 5 flags AND 0x03;
              tl = unat (flags AND 0x1F);
              flags_len = 1 in
          if length data < flags_len + tl then Some None
          else case (if 0 < tl then map_option Some (slice_of data flags_len (flags_len + tl))
                     else Some None) of
            None \<Rightarrow> None
          | Some tagger \<Rightarrow>
             (case slice_from data (flags_len + tl) of
                None \<Rightarrow> None
              | Some ident \<Rightarrow>
                  if ident = [] then Some None
                  else Some (Some \<lparr> h_bit = h, tid_type = tt, tid_len = of_nat tl,
                                    tagger_id = tagger, opt_identifier = ident \<rparr>))))"

definition new_i_dpd :: "bytes \<Rightarrow> smf_dpd_option" where
  "new_i_dpd ident =
     \<lparr> h_bit = False, tid_type = TID_TYPE_NULL, tid_len = 0, tagger_id = None,
       opt_identifier = ident \<rparr>"

definition new_h_dpd :: "bytes \<Rightarrow> smf_dpd_option" where
  "new_h_dpd hav =
     \<lparr> h_bit = True, tid_type = TID_TYPE_NULL, tid_len = 0, tagger_id = None,
       opt_identifier = hav \<rparr>"

section \<open>The flags byte\<close>

lemma byte_bitsI: "(\<And>n. n < 8 \<Longrightarrow> bit (a :: byte) n = bit b n) \<Longrightarrow> a = b"
  by (rule bit_word_eqI) simp

lemma less_8_cases:
  "n < 8 \<longleftrightarrow> n = 0 \<or> n = 1 \<or> n = 2 \<or> n = 3 \<or> n = 4 \<or> n = 5 \<or> n = 6 \<or> n = (7 :: nat)"
  by auto

lemma mask_bits:
  "bit (0x80 :: byte) n \<longleftrightarrow> n < 8 \<and> n = 7"
  "bit (0x1F :: byte) n \<longleftrightarrow> n < 8 \<and> n < 5"
  "bit (3 :: byte) n \<longleftrightarrow> n < 8 \<and> n < 2"
proof -
  have "bit (0x80 :: byte) n \<longleftrightarrow> n = 7" "bit (0x1F :: byte) n \<longleftrightarrow> n < 5"
    "bit (3 :: byte) n \<longleftrightarrow> n < 2" if "n < 8"
    using that unfolding less_8_cases by (elim disjE; simp)+
  then show "bit (0x80 :: byte) n \<longleftrightarrow> n < 8 \<and> n = 7" "bit (0x1F :: byte) n \<longleftrightarrow> n < 8 \<and> n < 5"
    "bit (3 :: byte) n \<longleftrightarrow> n < 8 \<and> n < 2"
    using bit_imp_le_length [of "0x80 :: byte" n] bit_imp_le_length [of "0x1F :: byte" n]
      bit_imp_le_length [of "3 :: byte" n]
    by (cases "n < 8"; simp)+
qed

lemma and_0x80: "(f :: byte) AND 0x80 \<noteq> 0 \<longleftrightarrow> bit f 7"
proof -
  have "bit (f AND 0x80) n \<longleftrightarrow> n = 7 \<and> bit f n" for n
    unfolding bit_and_iff mask_bits by auto
  then show ?thesis by (metis bit_0_eq bot_apply bot_bool_def bit_eq_iff)
qed

lemma small_bit:
  assumes "unat (a :: byte) < 2 ^ n" "bit a k"
  shows "k < n"
proof -
  have "unat (take_bit n a) = unat a"
    using assms(1) by (simp add: unsigned_take_bit_eq take_bit_nat_eq_self)
  then have "take_bit n a = a" by (simp only: word_unat_eq_iff)
  with assms(2) show ?thesis by (metis bit_take_bit_iff)
qed

definition flags_byte :: "bool \<Rightarrow> byte \<Rightarrow> byte \<Rightarrow> byte" where
  "flags_byte h t l = push_bit 5 t OR (l AND 0x1F) OR (if h then 0x80 else 0)"

lemma option_flags_byte: "option_flags opt = flags_byte (h_bit opt) (tid_type opt) (tid_len opt)"
  by (simp add: option_flags_def flags_byte_def Let_def or.assoc)

lemma flags_h: "t \<le> 3 \<Longrightarrow> flags_byte h t l AND 0x80 \<noteq> 0 \<longleftrightarrow> h"
  unfolding and_0x80 using small_bit [of t 2 2]
  by (auto simp: flags_byte_def bit_simps mask_bits word_le_nat_alt)

lemma flags_type: "t \<le> 3 \<Longrightarrow> drop_bit 5 (flags_byte h t l) AND 0x03 = t"
  using small_bit [of t 2 2] small_bit [of t 2 3] small_bit [of t 2 4] small_bit [of t 2 5]
    small_bit [of t 2 6] small_bit [of t 2 7]
  by (intro byte_bitsI)
    (auto simp: flags_byte_def bit_simps mask_bits word_le_nat_alt less_8_cases)

lemma flags_len: "l \<le> 31 \<Longrightarrow> flags_byte h t l AND 0x1F = l"
  using small_bit [of l 5 5] small_bit [of l 5 6] small_bit [of l 5 7]
  by (intro byte_bitsI)
    (auto simp: flags_byte_def bit_simps mask_bits word_le_nat_alt less_8_cases)

lemma flags_split: "flags_byte (f AND 0x80 \<noteq> 0) (drop_bit 5 f AND 0x03) (f AND 0x1F) = f"
  by (rule byte_bitsI) (auto simp: flags_byte_def and_0x80 bit_simps mask_bits less_8_cases)

lemma and_mask_le: "(f :: byte) AND 0x1F \<le> 31" "(f :: byte) AND 0x03 \<le> 3"
  by (simp_all add: word_and_le1)

section \<open>The codec\<close>

text \<open>
  The options \<open>decode\<close> builds: the tag type has two bits, the tagger identifier is as long as the
  length field says and absent exactly for length 0, and the identifier is not empty.
\<close>

definition smf_option_ok :: "smf_dpd_option \<Rightarrow> bool" where
  "smf_option_ok opt \<longleftrightarrow>
     tid_type opt \<le> 3 \<and> tid_len opt \<le> 31 \<and> opt_identifier opt \<noteq> [] \<and>
     (case tagger_id opt of
        None \<Rightarrow> tid_len opt = 0
      | Some tid \<Rightarrow> tid \<noteq> [] \<and> length tid = unat (tid_len opt))"

definition smf_data :: "smf_dpd_option \<Rightarrow> bytes" where
  "smf_data opt = drop 2 (smf_encode opt)"

definition smf_parse :: "bytes \<Rightarrow> smf_dpd_option option" where
  "smf_parse data = (case smf_decode data of Some r \<Rightarrow> r | None \<Rightarrow> None)"

lemma smf_data_eq:
  "smf_data opt = option_flags opt #
     (case tagger_id opt of Some tid \<Rightarrow> tid | None \<Rightarrow> []) @ opt_identifier opt"
  by (simp add: smf_data_def smf_encode_def Let_def)

lemma smf_decode_eq:
  "smf_decode data =
     (case data of
        flags # rest \<Rightarrow>
          (let tl = unat (flags AND 0x1F) in
           if rest = [] \<or> length rest \<le> tl then Some None
           else Some (Some \<lparr> h_bit = (flags AND 0x80 \<noteq> 0), tid_type = drop_bit 5 flags AND 0x03,
                             tid_len = flags AND 0x1F,
                             tagger_id = (if 0 < tl then Some (take tl rest) else None),
                             opt_identifier = drop tl rest \<rparr>))
      | [] \<Rightarrow> Some None)"
proof (cases data)
  case (Cons flags rest)
  then show ?thesis
    by (cases rest) (auto simp: smf_decode_def Let_def idx_def slice_of_def slice_from_def unat_eq_zero)
qed (simp add: smf_decode_def)

lemma smf_decode_total: "smf_decode data \<noteq> None"
  by (simp add: smf_decode_eq Let_def split: list.split)

interpretation smf: exact_codec smf_data smf_parse smf_option_ok
proof
  fix opt assume ok: "smf_option_ok opt"
  note flags = flags_h [of "tid_type opt" "h_bit opt" "tid_len opt"]
    flags_type [of "tid_type opt" "h_bit opt" "tid_len opt"]
    flags_len [of "tid_len opt" "h_bit opt" "tid_type opt"]
  show "smf_parse (smf_data opt) = Some opt"
    using ok flags
    by (cases opt)
      (auto simp: smf_option_ok_def smf_parse_def smf_decode_eq smf_data_eq option_flags_byte
        Let_def simp flip: length_greater_0_conv split: option.splits)
next
  fix data opt assume "smf_parse data = Some opt"
  then obtain flags rest where data: "data = flags # rest"
    and n: "rest \<noteq> []" "unat (flags AND 0x1F) < length rest"
    and opt: "opt = \<lparr> h_bit = (flags AND 0x80 \<noteq> 0), tid_type = drop_bit 5 flags AND 0x03,
       tid_len = flags AND 0x1F,
       tagger_id = (if 0 < unat (flags AND 0x1F) then Some (take (unat (flags AND 0x1F)) rest)
                    else None),
       opt_identifier = drop (unat (flags AND 0x1F)) rest \<rparr>"
    by (auto simp: smf_parse_def smf_decode_eq Let_def split: list.splits if_splits)
  have "smf_option_ok opt"
    using n and_mask_le by (auto simp: opt smf_option_ok_def unat_eq_zero)
  moreover have "smf_data opt = data"
    using n flags_split [of flags]
    by (auto simp: opt data smf_data_eq option_flags_byte unat_eq_zero)
  ultimately show "smf_option_ok opt \<and> smf_data opt = data" ..
qed

section \<open>Properties\<close>


text \<open>
  Both constructors build options that survive the round trip when the identifier is not
  empty, and the length byte written by \<open>encode\<close> is the number of bytes after it, modulo 256.
\<close>

lemma smf_constructors_round_trip:
  assumes "ident \<noteq> []"
  shows "smf_decode (drop 2 (smf_encode (new_i_dpd ident))) = Some (Some (new_i_dpd ident)) \<and>
    smf_decode (drop 2 (smf_encode (new_h_dpd ident))) = Some (Some (new_h_dpd ident)) \<and>
    unat (smf_encode (new_i_dpd ident) ! 1) = length (drop 2 (smf_encode (new_i_dpd ident))) mod 256"
proof -
  have "smf_option_ok (new_i_dpd ident)" "smf_option_ok (new_h_dpd ident)"
    using assms by (simp_all add: smf_option_ok_def new_i_dpd_def new_h_dpd_def TID_TYPE_NULL_def)
  moreover have "smf_decode d = Some (Some opt)" if "smf_parse d = Some opt" for d opt
    using that smf_decode_total [of d] by (auto simp: smf_parse_def)
  ultimately have "smf_decode (smf_data (new_i_dpd ident)) = Some (Some (new_i_dpd ident))"
    "smf_decode (smf_data (new_h_dpd ident)) = Some (Some (new_h_dpd ident))"
    by (blast intro: smf.round_trip)+
  moreover have "unat (smf_encode (new_i_dpd ident) ! 1) = Suc (length ident) mod 256"
    using unat_of_nat_byte [of "Suc (length ident)"]
    by (simp add: smf_encode_def new_i_dpd_def Let_def del: of_nat_Suc unat_of_nat_byte)
  ultimately show ?thesis
    by (simp add: smf_data_def) (simp add: smf_encode_def new_i_dpd_def Let_def)
qed

end
