(* ===== verification/Smf_Dpd.thy ===== *)
theory Smf_Dpd
  imports Relay_Config Smf_Dpd_Option
begin

text \<open>
  \<open>smf/dpd.rs\<close>, \<open>smf/dpd_ipv4.rs\<close> and \<open>smf/dpd_ipv6.rs\<close>: the duplicate packet detection cache,
  the packet identifiers and the eviction task. The concurrent map is a map from keys to entries;
  \<open>Instant::now()\<close> is an argument. Instants are nanoseconds as integers, of which the platform
  represents those from \<open>t_min\<close> on. The hash function of the crate \<open>murmur3\<close> is a parameter.
\<close>

record dpd_key =
  key_src :: ip_addr
  key_dst :: ip_addr
  packet_id :: u64

definition dpd_key_new :: "ip_addr \<Rightarrow> ip_addr \<Rightarrow> u64 \<Rightarrow> dpd_key" where
  "dpd_key_new s d p = \<lparr> key_src = s, key_dst = d, packet_id = p \<rparr>"

type_synonym instant = int
type_synonym duration = nat

record dpd_entry =
  first_seen :: instant
  entry_ttl :: byte

record dpd_cache =
  dpd_map :: "dpd_key \<rightharpoonup> dpd_entry"
  window :: duration

definition dpd_cache_new :: "duration \<Rightarrow> dpd_cache" where
  "dpd_cache_new w = \<lparr> dpd_map = Map.empty, window = w \<rparr>"

definition check_and_insert ::
    "instant \<Rightarrow> dpd_cache \<Rightarrow> dpd_key \<Rightarrow> byte \<Rightarrow> bool relay_result \<times> dpd_cache" where
  "check_and_insert now cache key ttl =
     (let fresh = cache\<lparr>dpd_map := (dpd_map cache)
            (key \<mapsto> \<lparr> first_seen = now, entry_ttl = ttl \<rparr>)\<rparr> in
      case dpd_map cache key of
        Some entry \<Rightarrow>
          if entry_ttl entry < ttl then (Inr True, fresh)
          else if entry_ttl entry = ttl then (Inr False, cache)
          else (Inl DpdStalePacket, cache)
      | None \<Rightarrow> (Inr True, fresh))"

definition retain_from :: "instant \<Rightarrow> (dpd_key \<rightharpoonup> dpd_entry) \<Rightarrow> (dpd_key \<rightharpoonup> dpd_entry)" where
  "retain_from cutoff m =
     (\<lambda>k. case m k of
            Some entry \<Rightarrow> if cutoff < first_seen entry then Some entry else None
          | None \<Rightarrow> None)"

text \<open>\<open>Instant - Duration\<close> panics when the difference is not representable.\<close>

definition evict_expired :: "instant \<Rightarrow> instant \<Rightarrow> dpd_cache \<Rightarrow> dpd_cache option" where
  "evict_expired t_min now cache =
     (let cutoff = now - int (window cache) in
      if cutoff < t_min then None
      else Some (cache\<lparr>dpd_map := retain_from cutoff (dpd_map cache)\<rparr>))"

definition dpd_len :: "dpd_cache \<Rightarrow> nat" where
  "dpd_len cache = card (dom (dpd_map cache))"

definition dpd_is_empty :: "dpd_cache \<Rightarrow> bool" where
  "dpd_is_empty cache \<longleftrightarrow> dom (dpd_map cache) = {}"

definition dpd_clear :: "dpd_cache \<Rightarrow> dpd_cache" where
  "dpd_clear cache = cache\<lparr>dpd_map := Map.empty\<rparr>"

section \<open>Packet identifiers\<close>

text \<open>The input of the hash: both addresses and at most 64 bytes of the payload.\<close>

definition hash_input :: "ip_addr \<Rightarrow> ip_addr \<Rightarrow> bytes \<Rightarrow> bytes option" where
  "hash_input src dst payload =
     (case slice_of payload 0 (min 64 (length payload)) of
        None \<Rightarrow> None
      | Some prefix \<Rightarrow> Some (ip_octets src @ ip_octets dst @ prefix))"

definition h_dpd_hash ::
    "(bytes \<Rightarrow> string + u128) \<Rightarrow> ip_addr \<Rightarrow> ip_addr \<Rightarrow> bytes \<Rightarrow> (dpd_key \<times> u64) option" where
  "h_dpd_hash murmur src dst payload =
     (case hash_input src dst payload of
        None \<Rightarrow> None
      | Some input \<Rightarrow>
         (case murmur input of
            Inl e \<Rightarrow> None
          | Inr hash \<Rightarrow>
             (let pid = (ucast (hash AND 0xFFFFFFFFFFFFFFFF) :: u64) in
              Some (dpd_key_new src dst pid, pid))))"

definition i_dpd_packet_id :: "ip_addr \<Rightarrow> ip_addr \<Rightarrow> u16 \<Rightarrow> dpd_key" where
  "i_dpd_packet_id src dst ip_id = dpd_key_new src dst (ucast ip_id)"

definition h_dpd_packet_id_v4 ::
    "(bytes \<Rightarrow> string + u128) \<Rightarrow> ip_addr \<Rightarrow> ip_addr \<Rightarrow> bytes \<Rightarrow> dpd_key option" where
  "h_dpd_packet_id_v4 murmur src dst payload = map_option fst (h_dpd_hash murmur src dst payload)"

definition bytes_to_u64 :: "bytes \<Rightarrow> u64 option" where
  "bytes_to_u64 bs =
     (let len = min 8 (length bs) in
      case slice_of bs 0 len of
        None \<Rightarrow> None
      | Some prefix \<Rightarrow> Some (of_nat (be_nat (prefix @ replicate (8 - len) 0))))"

definition i_dpd_packet_id_from_option ::
    "ip_addr \<Rightarrow> ip_addr \<Rightarrow> smf_dpd_option \<Rightarrow> dpd_key option" where
  "i_dpd_packet_id_from_option src dst dpd_opt =
     map_option (dpd_key_new src dst) (bytes_to_u64 (opt_identifier dpd_opt))"

definition i_dpd_packet_id_from_raw :: "ip_addr \<Rightarrow> ip_addr \<Rightarrow> u32 \<Rightarrow> dpd_key" where
  "i_dpd_packet_id_from_raw src dst ident = dpd_key_new src dst (ucast ident)"

definition h_dpd_packet_id_v6 ::
    "(bytes \<Rightarrow> string + u128) \<Rightarrow> ip_addr \<Rightarrow> ip_addr \<Rightarrow> bytes \<Rightarrow> (dpd_key \<times> u64) option" where
  "h_dpd_packet_id_v6 murmur src dst payload = h_dpd_hash murmur src dst payload"

definition has_collision :: "u64 option \<Rightarrow> u64 \<Rightarrow> bool" where
  "has_collision cached_hav current_hav =
     (case cached_hav of Some hav \<Rightarrow> hav = current_hav | None \<Rightarrow> False)"

section \<open>The eviction task\<close>

definition NANOS_PER_SEC :: nat where "NANOS_PER_SEC = 1000000000"

text \<open>The period of the task, or \<open>None\<close> when eviction is disabled.\<close>

definition eviction_interval :: "duration \<Rightarrow> duration option" where
  "eviction_interval w =
     (let interval = w div 4 in if interval < 1 * NANOS_PER_SEC then None else Some interval)"

section \<open>The cache accepts records\<close>

text \<open>
  The contract of a duplicate detector: a table of what was seen per key, in which a value is
  accepted exactly if it exceeds the one seen, and is then the one seen.
\<close>

locale duplicate_detector =
  fixes check :: "'c \<Rightarrow> 'op \<Rightarrow> bool \<times> 'c"
    and seen :: "'c \<Rightarrow> 'k \<Rightarrow> 'v::linorder option"
    and key_of :: "'op \<Rightarrow> 'k"
    and val_of :: "'op \<Rightarrow> 'v"
  assumes accepts: "fst (check c x) \<longleftrightarrow>
      (case seen c (key_of x) of None \<Rightarrow> True | Some v \<Rightarrow> v < val_of x)"
    and records: "seen (snd (check c x)) k =
      (if k = key_of x \<and> fst (check c x) then Some (val_of x) else seen c k)"
begin

primrec run :: "'c \<Rightarrow> 'op list \<Rightarrow> 'c" where
  "run c [] = c"
| "run c (x # xs) = run (snd (check c x)) xs"

definition bounds :: "'v option \<Rightarrow> 'v set \<Rightarrow> bool" where
  "bounds s V \<longleftrightarrow> (case s of None \<Rightarrow> V = {} | Some v \<Rightarrow> v \<in> V \<and> (\<forall>w \<in> V. w \<le> v))"

lemma run_append: "run c (xs @ ys) = run (run c xs) ys"
  by (induction xs arbitrary: c) auto

lemma seen_after:
  assumes "seen c k = None"
  shows "bounds (seen (run c xs) k) (val_of ` {x \<in> set xs. key_of x = k})"
proof (induction xs rule: rev_induct)
  case Nil
  then show ?case using assms by (simp add: bounds_def)
next
  case (snoc x xs)
  let ?V = "val_of ` {y \<in> set xs. key_of y = k}"
  have set: "val_of ` {y \<in> set (xs @ [x]). key_of y = k} =
      (if key_of x = k then insert (val_of x) ?V else ?V)" by auto
  show ?case
  proof (cases "key_of x = k")
    case False
    then show ?thesis using snoc unfolding set by (simp add: run_append records)
  next
    case True
    then show ?thesis
      using snoc accepts [of "run c xs" x] unfolding set bounds_def
      by (auto simp: run_append records not_less split: option.splits if_splits)
  qed
qed

lemma accepted_iff_record:
  assumes "seen c (key_of x) = None"
  shows "fst (check (run c xs) x) \<longleftrightarrow> (\<forall>y \<in> set xs. key_of y = key_of x \<longrightarrow> val_of y < val_of x)"
  using seen_after [OF assms, of xs] accepts [of "run c xs" x]
  by (auto simp: bounds_def split: option.splits)

end

record dpd_arrival =
  at :: instant
  arr_key :: dpd_key
  arr_ttl :: byte

definition dpd_accepts :: "dpd_cache \<Rightarrow> dpd_arrival \<Rightarrow> bool \<times> dpd_cache" where
  "dpd_accepts cache a =
     (let (r, cache') = check_and_insert (at a) cache (arr_key a) (arr_ttl a) in
      (r = Inr True, cache'))"

definition seen_ttl :: "dpd_cache \<Rightarrow> dpd_key \<Rightarrow> byte option" where
  "seen_ttl cache k = map_option entry_ttl (dpd_map cache k)"

interpretation dpd: duplicate_detector dpd_accepts seen_ttl arr_key arr_ttl
  by unfold_locales
    (auto simp: dpd_accepts_def check_and_insert_def seen_ttl_def Let_def split: option.splits)

text \<open>The cache after a sequence of arrivals.\<close>

fun dpd_run :: "dpd_cache \<Rightarrow> dpd_arrival list \<Rightarrow> dpd_cache" where
  "dpd_run cache [] = cache"
| "dpd_run cache (a # as) =
     dpd_run (snd (check_and_insert (at a) cache (arr_key a) (arr_ttl a))) as"

lemma dpd_run_run: "dpd_run cache as = dpd.run cache as"
  by (induction as arbitrary: cache) (auto simp: dpd_accepts_def case_prod_beta Let_def)

section \<open>Histories with eviction\<close>

datatype dpd_op = Arrive dpd_key byte | Evict | Clear

text \<open>One operation at time \<open>now\<close>: the answer (for an arrival) and the cache afterwards.\<close>

inductive dpd_step ::
    "instant \<Rightarrow> dpd_cache \<Rightarrow> instant \<times> dpd_op \<Rightarrow> bool relay_result option \<Rightarrow> dpd_cache \<Rightarrow> bool"
  for t_min :: instant where
  arrive: "check_and_insert now c k t = (r, c') \<Longrightarrow> dpd_step t_min c (now, Arrive k t) (Some r) c'"
| evict: "evict_expired t_min now c = Some c' \<Longrightarrow> dpd_step t_min c (now, Evict) None c'"
| clear: "dpd_step t_min c (now, Clear) None (dpd_clear c)"

inductive_cases arrive_stepE: "dpd_step t_min c (now, Arrive k t) r c'"
inductive_simps dpd_step_simps:
  "dpd_step t_min c (now, Arrive k t) r c'"
  "dpd_step t_min c (now, Evict) r c'"
  "dpd_step t_min c (now, Clear) r c'"

text \<open>A history: the operations with their times and answers, in the order they ran.\<close>

inductive dpd_history ::
    "instant \<Rightarrow> dpd_cache \<Rightarrow> ((instant \<times> dpd_op) \<times> bool relay_result option) list \<Rightarrow> dpd_cache \<Rightarrow> bool"
  for t_min :: instant where
  start: "dpd_history t_min c [] c"
| step: "dpd_history t_min c h c' \<Longrightarrow> dpd_step t_min c' x r c'' \<Longrightarrow>
         dpd_history t_min c (h @ [(x, r)]) c''"

definition entry_holds :: "dpd_cache \<Rightarrow> dpd_key \<Rightarrow> byte \<Rightarrow> instant \<Rightarrow> bool" where
  "entry_holds c k t since \<longleftrightarrow>
     (\<exists>e. dpd_map c k = Some e \<and> t \<le> entry_ttl e \<and> since \<le> first_seen e)"

lemma step_window: "dpd_step t_min c x r c' \<Longrightarrow> window c' = window c"
  by (erule dpd_step.cases)
    (auto simp: check_and_insert_def evict_expired_def dpd_clear_def Let_def
      split: option.splits if_splits)

lemma history_window: "dpd_history t_min c h c' \<Longrightarrow> window c' = window c"
  by (induction rule: dpd_history.induct) (auto dest: step_window)

lemma accepted_holds:
  "dpd_step t_min c (now, Arrive k t) (Some (Inr True)) c' \<Longrightarrow> entry_holds c' k t now"
  by (auto simp: dpd_step_simps check_and_insert_def entry_holds_def Let_def
      split: option.splits if_splits)

text \<open>No step before the end of the window gives up an entry, unless it clears the cache.\<close>

lemma holds_step:
  assumes "dpd_step t_min c (now, x) r c'" "entry_holds c k t since"
    and "since \<le> now" "now < since + int (window c)" "x \<noteq> Clear"
  shows "entry_holds c' k t since"
  using assms
  by (cases x)
    (auto simp: dpd_step_simps check_and_insert_def entry_holds_def evict_expired_def
      retain_from_def Let_def split: option.splits if_splits)

lemma holds_rejects:
  assumes "dpd_step t_min c (now, Arrive k t') r c'" "entry_holds c k t since" "t' \<le> t"
  shows "r \<noteq> Some (Inr True)"
  using assms
  by (auto simp: dpd_step_simps check_and_insert_def entry_holds_def Let_def
      split: option.splits if_splits)

lemma holds_history:
  assumes "dpd_history t_min c h c'" "entry_holds c k t since"
    and "\<forall>((now, x), r) \<in> set h. since \<le> now \<and> now < since + int (window c) \<and> x \<noteq> Clear"
  shows "entry_holds c' k t since"
  using assms
proof (induction rule: dpd_history.induct)
  case (step c h c' x r c'')
  obtain now op where x: "x = (now, op)" by (cases x)
  from step have "entry_holds c' k t since" by auto
  with step x show ?case
    using history_window [OF step.hyps(1)] by (intro holds_step [of t_min c' now op r c'']) auto
qed

end
