(* ===== verification/Smf_Engine.thy ===== *)
theory Smf_Engine
  imports Smf_Dpd
begin

text \<open>
  \<open>smf/forwarding.rs\<close>, \<open>smf/relay_set.rs\<close>, \<open>traits/mod.rs\<close> and \<open>smf/engine.rs\<close>: the forwarding
  rules for multicast packets, the relay set selectors and the engine that rewrites the TTL.
\<close>

section \<open>Forwarding rules\<close>

fun is_multicast_addr :: "ip_addr \<Rightarrow> bool" where
  "is_multicast_addr (V4 ip) = ipv4_is_multicast ip"
| "is_multicast_addr (V6 ip) = ipv6_is_multicast ip"

fun is_link_local_multicast :: "ip_addr \<Rightarrow> bool" where
  "is_link_local_multicast (V4 ip) =
     (let octets = ipv4_octets ip in octets ! 0 = 224 \<and> octets ! 1 = 0 \<and> octets ! 2 = 0)"
| "is_link_local_multicast (V6 ip) = (ipv6_segments ip ! 0 = 0xff02)"

definition check_forwarding_rules ::
    "ip_addr \<Rightarrow> ip_addr \<Rightarrow> byte \<Rightarrow> ip_addr list \<Rightarrow> bool" where
  "check_forwarding_rules src_addr dst_addr ttl local_addrs =
     (if \<not> is_multicast_addr dst_addr then False
      else if ttl \<le> 1 then False
      else if is_link_local_multicast dst_addr then False
      else if src_addr \<in> set local_addrs then False
      else True)"

section \<open>Relay set selectors\<close>

text \<open>\<open>should_forward\<close> of the trait: ingress interface, previous hop, source, destination group.\<close>

type_synonym relay_set_selector = "string \<Rightarrow> ip_addr \<Rightarrow> ip_addr \<Rightarrow> ip_addr \<Rightarrow> bool"

text \<open>\<open>TopologyProvider\<close>: \<open>two_hop_neighbors\<close> has a default.\<close>

record topology_provider =
  neighbors :: "string \<Rightarrow> ip_addr list"
  two_hop_neighbors :: "string \<Rightarrow> ip_addr list"

definition two_hop_default :: "string \<Rightarrow> ip_addr list" where
  "two_hop_default iface = []"

definition classic_flooding :: relay_set_selector where
  "classic_flooding ingress prev_hop src dst = True"

section \<open>The engine\<close>

record smf_engine =
  eng_cache :: dpd_cache
  eng_selector :: relay_set_selector
  eng_local :: "ip_addr list"

definition smf_engine_new :: "smf_config \<Rightarrow> ip_addr list \<Rightarrow> smf_engine" where
  "smf_engine_new config local_addrs =
     \<lparr> eng_cache = dpd_cache_new (unat (dpd_window_secs config) * NANOS_PER_SEC),
       eng_selector = classic_flooding, eng_local = local_addrs \<rparr>"

definition start_eviction :: "smf_engine \<Rightarrow> duration option" where
  "start_eviction eng = eviction_interval (window (eng_cache eng))"

definition with_relay_selector :: "relay_set_selector \<Rightarrow> smf_engine \<Rightarrow> smf_engine" where
  "with_relay_selector selector eng = eng\<lparr>eng_selector := selector\<rparr>"

definition saturating_dec :: "byte \<Rightarrow> byte" where
  "saturating_dec t = (if t = 0 then 0 else t - 1)"

definition ttl_offset :: "ip_addr \<Rightarrow> nat" where
  "ttl_offset addr = (case addr of V4 _ \<Rightarrow> 8 | V6 _ \<Rightarrow> 7)"

definition decrement_ttl :: "bytes \<Rightarrow> ip_addr \<Rightarrow> byte \<Rightarrow> bytes" where
  "decrement_ttl packet addr ttl =
     (let offset = ttl_offset addr in
      if offset < length packet then packet[offset := saturating_dec ttl] else packet)"

definition process_packet ::
    "smf_engine \<Rightarrow> bytes \<Rightarrow> ip_addr \<Rightarrow> ip_addr \<Rightarrow> byte \<Rightarrow> string \<Rightarrow> ip_addr \<Rightarrow>
     bytes option relay_result" where
  "process_packet eng packet src dst ttl ingress prev_hop =
     (if \<not> check_forwarding_rules src dst ttl (eng_local eng) then Inr None
      else if \<not> eng_selector eng ingress prev_hop src dst then Inr None
      else Inr (Some (decrement_ttl packet dst ttl)))"

section \<open>Lemmas\<close>

lemma forwarding_rules_iff:
  "check_forwarding_rules src dst ttl ls \<longleftrightarrow>
     is_multicast_addr dst \<and> 1 < ttl \<and> \<not> is_link_local_multicast dst \<and> src \<notin> set ls"
  by (auto simp: check_forwarding_rules_def not_le)

lemma saturating_dec_unat: "unat (saturating_dec t) = unat t - 1"
  by (simp add: saturating_dec_def unat_minus_one)

text \<open>A packet and a copy of it with one byte replaced.\<close>

lemma decrement_ttl_nth:
  "i < length packet \<Longrightarrow>
   decrement_ttl packet addr ttl ! i =
     (if i = ttl_offset addr then saturating_dec ttl else packet ! i)"
  by (simp add: decrement_ttl_def Let_def nth_list_update)

lemma length_decrement_ttl [simp]: "length (decrement_ttl packet addr ttl) = length packet"
  by (simp add: decrement_ttl_def Let_def)

lemma process_packet_forwards:
  "process_packet eng packet src dst ttl ingress prev = Inr (Some out) \<longleftrightarrow>
     check_forwarding_rules src dst ttl (eng_local eng) \<and>
     eng_selector eng ingress prev src dst \<and> out = decrement_ttl packet dst ttl"
  by (auto simp: process_packet_def)

section \<open>The IPv4 header checksum\<close>

text \<open>
  The ones' complement sum of the 16-bit words of a header; the header is valid when the sum is
  all ones, that is, a positive multiple of 65535.
\<close>

fun word_sum :: "bytes \<Rightarrow> nat" where
  "word_sum (a # b # r) = unat a * 256 + unat b + word_sum r"
| "word_sum [a] = unat a * 256"
| "word_sum [] = 0"

definition header_valid :: "bytes \<Rightarrow> bool" where
  "header_valid h \<longleftrightarrow> 0 < word_sum h \<and> word_sum h mod 65535 = 0"

lemma word_sum_append:
  "even (length xs) \<Longrightarrow> word_sum (xs @ ys) = word_sum xs + word_sum ys"
  by (induction xs rule: word_sum.induct) auto

lemma word_sum_update:
  assumes "8 < length h"
  shows "word_sum (h[8 := b]) + unat (h ! 8) * 256 = word_sum h + unat b * 256"
proof -
  have cut: "h = take 8 h @ h ! 8 # drop 9 h" "h[8 := b] = take 8 h @ b # drop 9 h"
    using id_take_nth_drop [OF assms] upd_conv_take_nth_drop [OF assms, of b] by simp_all
  have app: "word_sum (take 8 h @ x # drop 9 h) = word_sum (take 8 h) + word_sum (x # drop 9 h)" for x
    using assms by (intro word_sum_append) simp
  have one: "word_sum (y # r) + unat x * 256 = word_sum (x # r) + unat y * 256" for x y r
    by (cases r) auto
  have "word_sum h = word_sum (take 8 h) + word_sum (h ! 8 # drop 9 h)"
    using arg_cong [OF cut(1), of word_sum] unfolding app .
  moreover have "word_sum (h[8 := b]) = word_sum (take 8 h) + word_sum (b # drop 9 h)"
    unfolding cut(2) app ..
  ultimately show ?thesis using one [of b "drop 9 h" "h ! 8"] by linarith
qed

section \<open>Properties\<close>

text \<open>
  C18: the engine forwards a packet exactly if its destination is a multicast group that is not
  link-local, its TTL is at least 2, its source is not an own address and the selector agrees.
  What it forwards is the packet with the TTL byte replaced by the TTL minus one, which is not
  zero; every other byte and the length are the same, and a packet too short to have that byte
  is forwarded as it is.
\<close>

theorem smf_forwarding_exact:
  "case process_packet eng packet src dst ttl ingress prev of
     Inl e \<Rightarrow> False
   | Inr None \<Rightarrow> \<not> (is_multicast_addr dst \<and> \<not> is_link_local_multicast dst \<and> 1 < ttl \<and>
        src \<notin> set (eng_local eng) \<and> eng_selector eng ingress prev src dst)
   | Inr (Some out) \<Rightarrow>
        is_multicast_addr dst \<and> \<not> is_link_local_multicast dst \<and> 1 < ttl \<and>
        src \<notin> set (eng_local eng) \<and> eng_selector eng ingress prev src dst \<and>
        length out = length packet \<and>
        (\<forall>i < length packet. out ! i =
           (if i = (case dst of V4 _ \<Rightarrow> 8 | V6 _ \<Rightarrow> 7) then ttl - 1 else packet ! i)) \<and>
        0 < unat (ttl - 1)"
proof (cases "process_packet eng packet src dst ttl ingress prev")
  case (Inl e)
  then show ?thesis by (simp add: process_packet_def split: if_splits)
next
  case (Inr r)
  show ?thesis
  proof (cases r)
    case None
    with Inr show ?thesis by (auto simp: process_packet_def forwarding_rules_iff split: if_splits)
  next
    case (Some out)
    with Inr have f: "check_forwarding_rules src dst ttl (eng_local eng)"
      "eng_selector eng ingress prev src dst" and out: "out = decrement_ttl packet dst ttl"
      by (auto simp: process_packet_forwards)
    from f(1) have ttl: "1 < ttl" by (simp add: forwarding_rules_iff)
    then have dec: "saturating_dec ttl = ttl - 1" "ttl \<noteq> 0" by (auto simp: saturating_dec_def)
    then have "unat (ttl - 1) = unat ttl - 1" by (simp add: unat_minus_one)
    with ttl have "0 < unat (ttl - 1)" by (simp add: word_less_nat_alt)
    with f out dec Inr Some show ?thesis
      by (simp add: forwarding_rules_iff decrement_ttl_nth ttl_offset_def)
  qed
qed

theorem smf_forwarding_exact_witness:
  "case process_packet (smf_engine_new smf_config_default []) [0, 0, 0, 0, 0, 0, 0, 0, 64]
      (V4 (Ipv4Addr 10 0 0 2)) (V4 (Ipv4Addr 239 0 0 1)) 64 ''eth0'' (V4 (Ipv4Addr 10 0 0 2)) of
     Inr (Some out) \<Rightarrow> out ! 8 = 63 | _ \<Rightarrow> False"
  using smf_forwarding_exact [where eng = "smf_engine_new smf_config_default []" and
      packet = "[0, 0, 0, 0, 0, 0, 0, 0, 64]" and src = "V4 (Ipv4Addr 10 0 0 2)" and
      dst = "V4 (Ipv4Addr 239 0 0 1)" and ttl = 64 and ingress = "''eth0''" and
      prev = "V4 (Ipv4Addr 10 0 0 2)"]
  by (simp add: process_packet_def smf_engine_new_def check_forwarding_rules_def classic_flooding_def
      decrement_ttl_def ttl_offset_def saturating_dec_def word_le_nat_alt word_less_nat_alt)

text \<open>
  The engine does no duplicate detection: its decision and its output are the same whatever
  the cache holds, so a packet that passes the rules once is forwarded every time it arrives.
\<close>

lemma smf_ignores_duplicates:
  "process_packet (eng\<lparr>eng_cache := snd (check_and_insert now (eng_cache eng) key ttl')\<rparr>)
     packet src dst ttl ingress prev =
   process_packet eng packet src dst ttl ingress prev"
  by (simp add: process_packet_def)

text \<open>
  C38: rewriting the TTL invalidates the IPv4 header: if the 20-byte header of a packet has a
  correct checksum and the TTL given is that of the header, the header of the forwarded packet has
  an incorrect one.
\<close>

theorem smf_breaks_ipv4_checksum:
  assumes "process_packet eng packet src (V4 g) (packet ! 8) ingress prev = Inr (Some out)"
    and "20 \<le> length packet" "header_valid (take 20 packet)"
  shows "\<not> header_valid (take 20 out)"
proof -
  let ?h = "take 20 packet" and ?t = "packet ! 8"
  have out: "out = decrement_ttl packet (V4 g) ?t" and ttl: "1 < ?t"
    using assms(1) by (auto simp: process_packet_forwards forwarding_rules_iff)
  have "take 20 out = ?h[8 := saturating_dec ?t]"
    using assms(2) by (simp add: out decrement_ttl_def ttl_offset_def take_update_swap)
  moreover have "unat (saturating_dec ?t) + 1 = unat ?t"
    using ttl by (simp add: saturating_dec_unat word_less_nat_alt)
  ultimately have sum: "word_sum (take 20 out) + 256 = word_sum ?h"
    using word_sum_update [of ?h "saturating_dec ?t"] assms(2) by simp
  show ?thesis
  proof
    assume "header_valid (take 20 out)"
    then have "65535 dvd word_sum (take 20 out)" "65535 dvd word_sum ?h"
      using assms(3) by (auto simp: header_valid_def)
    with sum have "(65535 :: nat) dvd 256" by (metis dvd_add_right_iff)
    then show False by simp
  qed
qed

definition sample_header :: bytes where
  "sample_header =
     [69, 0, 0, 20, 0, 0, 0, 0, 64, 17, 129, 214, 10, 0, 0, 2, 239, 0, 0, 1]"

theorem smf_breaks_ipv4_checksum_witness:
  "header_valid sample_header \<and>
   \<not> header_valid (take 20 (decrement_ttl sample_header (V4 (Ipv4Addr 239 0 0 1)) 64))"
proof -
  let ?g = "Ipv4Addr 239 0 0 1" and ?s = "V4 (Ipv4Addr 10 0 0 2)"
  have "process_packet (smf_engine_new smf_config_default []) sample_header ?s (V4 ?g)
      (sample_header ! 8) ''eth0'' ?s = Inr (Some (decrement_ttl sample_header (V4 ?g) 64))"
    by (simp add: process_packet_def smf_engine_new_def check_forwarding_rules_def
        classic_flooding_def sample_header_def word_le_nat_alt)
  moreover have "20 \<le> length sample_header" "header_valid (take 20 sample_header)"
    by (simp_all add: sample_header_def header_valid_def)
  ultimately have "\<not> header_valid (take 20 (decrement_ttl sample_header (V4 ?g) 64))"
    by (rule smf_breaks_ipv4_checksum)
  moreover have "header_valid sample_header" by (simp add: sample_header_def header_valid_def)
  ultimately show ?thesis by blast
qed

text \<open>A packet on its way through a chain of relays, each of which reads the TTL in the packet.\<close>

fun relay_chain ::
    "smf_engine list \<Rightarrow> ip_addr \<Rightarrow> ip_addr \<Rightarrow> string \<Rightarrow> ip_addr \<Rightarrow> bytes \<Rightarrow> bytes option" where
  "relay_chain [] src dst ingress prev packet = Some packet"
| "relay_chain (eng # engs) src dst ingress prev packet =
     (case idx packet (ttl_offset dst) of
        None \<Rightarrow> None
      | Some ttl \<Rightarrow>
         (case process_packet eng packet src dst ttl ingress prev of
            Inr (Some out) \<Rightarrow> relay_chain engs src dst ingress prev out
          | _ \<Rightarrow> None))"

text \<open>
  Flooding is bounded by the TTL: a packet that comes out of a chain of relays has lost exactly
  one from its TTL per relay and still has a positive one, so no packet is relayed 255 times,
  whatever the selectors and without any duplicate detection.
\<close>

lemma relay_chain_bounded:
  assumes "relay_chain engs src dst ingress prev packet = Some out" "engs \<noteq> []"
  shows "unat (out ! ttl_offset dst) + length engs = unat (packet ! ttl_offset dst) \<and>
    0 < unat (out ! ttl_offset dst) \<and> length engs < 255"
proof -
  let ?n = "ttl_offset dst"
  have "unat (out ! ?n) + length engs = unat (packet ! ?n) \<and> (engs \<noteq> [] \<longrightarrow> 0 < unat (out ! ?n))"
    using assms(1)
  proof (induction engs arbitrary: packet)
    case (Cons eng engs)
    then obtain p where i: "?n < length packet"
      and p: "process_packet eng packet src dst (packet ! ?n) ingress prev = Inr (Some p)"
      and rest: "relay_chain engs src dst ingress prev p = Some out"
      by (auto simp: idx_Some_iff split: option.splits sum.splits)
    from p have ttl: "1 < packet ! ?n" and "p = decrement_ttl packet dst (packet ! ?n)"
      by (auto simp: process_packet_forwards forwarding_rules_iff)
    then have n: "unat (p ! ?n) = unat (packet ! ?n) - 1" "1 < unat (packet ! ?n)"
      using i by (simp_all add: decrement_ttl_nth saturating_dec_unat word_less_nat_alt)
    from Cons.IH [OF rest] n rest show ?case by (cases engs) auto
  qed simp
  with assms(2) show ?thesis using unat_byte_le [of "packet ! ?n"] by linarith
qed

text \<open>
  Eviction runs exactly for windows of at least 4 seconds, with a period of a quarter of the
  window; with a shorter configured window the entries of the cache are never evicted.
\<close>

lemma eviction_needs_four_seconds:
  "start_eviction (smf_engine_new config ls) =
     (if unat (dpd_window_secs config) < 4 then None
      else Some (unat (dpd_window_secs config) * 250000000))"
  by (auto simp: start_eviction_def smf_engine_new_def eviction_interval_def dpd_cache_new_def
      NANOS_PER_SEC_def Let_def)

end
