(* ===== verification/Addr_Text.thy ===== *)
theory Addr_Text
  imports Net_Addr
begin

text \<open>
  How many colons a socket address text has: each step of the parser consumes its input from the
  front, a port costs one colon and an IPv6 address at least two more. The bind addresses of the
  agent are built from the text in front of the first colon, so this decides what they can be.
\<close>

definition colons :: "string \<Rightarrow> nat" where
  "colons s = length (filter (\<lambda>c. c = CHR '':'') s)"

lemma colons_simps [simp]:
  "colons [] = 0" "colons (c # s) = (if c = CHR '':'' then Suc (colons s) else colons s)"
  "colons (s @ t) = colons s + colons t"
  by (simp_all add: colons_def)

lemma colons_before_colon [simp]: "colons (before_colon s) = 0"
  by (auto simp: colons_def before_colon_def filter_empty_conv dest: set_takeWhileD)

lemma before_colon_same: "colons s = 0 \<Longrightarrow> before_colon s = s"
  by (simp add: colons_def before_colon_def filter_empty_conv takeWhile_eq_all_conv)

lemma colons_dropWhile: "colons (dropWhile P s) \<le> colons s"
  by (induction s) auto

lemma read_number_colons: "read_number b m z x s = Some (n, r) \<Longrightarrow> colons r \<le> colons s"
  by (auto simp: read_number_def Let_def colons_dropWhile split: if_splits option.splits)

lemma read_given_char_colons:
  "read_given_char c s = Some r \<Longrightarrow> colons s = colons r + (if c = CHR '':'' then 1 else 0)"
  by (cases s) (auto simp: read_given_char_def split: if_splits)

lemma read_separator_colons:
  assumes "read_separator c i p s = Some (x, r)"
    and "\<And>t y u. p t = Some (y, u) \<Longrightarrow> colons u \<le> colons t"
  shows "colons r + (if 0 < i \<and> c = CHR '':'' then 1 else 0) \<le> colons s"
  using assms
  by (auto simp: read_separator_def bind_eq_Some_conv split: if_splits
      dest!: read_given_char_colons)

lemma read_octet_colons: "read_octet i s = Some (n, r) \<Longrightarrow> colons r \<le> colons s"
  unfolding read_octet_def
  by (drule read_separator_colons) (auto dest: read_number_colons)

lemma read_ipv4_colons: "read_ipv4_addr s = Some (a, r) \<Longrightarrow> colons r \<le> colons s"
  by (auto simp: read_ipv4_addr_def bind_eq_Some_conv dest!: read_octet_colons)

lemma read_groups_colons:
  "read_groups k i s = (gs, b, r) \<Longrightarrow>
   colons r + length gs \<le> colons s + (if i = 0 then 1 else 0) + (if b then 1 else 0)"
proof (induction k arbitrary: i s gs b r)
  case (Suc k)
  show ?case
  proof (cases "if 0 < k then read_separator (CHR '':'') i read_ipv4_addr s else None")
    case (Some p)
    obtain v s' where p: "p = (v, s')" by (cases p)
    with Some have "read_separator (CHR '':'') i read_ipv4_addr s = Some (v, s')"
      by (simp split: if_splits)
    then have "colons s' + (if 0 < i \<and> CHR '':'' = CHR '':'' then 1 else 0) \<le> colons s"
      by (rule read_separator_colons) (rule read_ipv4_colons)
    moreover have "gs = ipv4_groups v" "b" "r = s'" using Suc.prems Some p by auto
    moreover have "length (ipv4_groups v) = 2" by (cases v) simp
    ultimately show ?thesis by (auto split: if_splits)
  next
    case None
    show ?thesis
    proof (cases "read_separator (CHR '':'') i (read_number 16 (Some 4) True 65535) s")
      case None': None
      with Suc.prems None show ?thesis by simp
    next
      case (Some q)
      obtain g s' where q: "q = (g, s')" by (cases q)
      obtain gs' b' r' where rec: "read_groups k (Suc i) s' = (gs', b', r')"
        by (metis prod_cases3)
      from Some q have "read_separator (CHR '':'') i (read_number 16 (Some 4) True 65535) s = Some (g, s')"
        by simp
      then have "colons s' + (if 0 < i \<and> CHR '':'' = CHR '':'' then 1 else 0) \<le> colons s"
        by (rule read_separator_colons) (rule read_number_colons)
      moreover have "gs = of_nat g # gs'" "b = b'" "r = r'"
        using Suc.prems None Some q rec by auto
      ultimately show ?thesis using Suc.IH [OF rec] by (auto split: if_splits)
    qed
  qed
qed simp

lemma read_group_le:
  "read_separator (CHR '':'') i (read_number 16 (Some 4) True 65535) s = Some (g, r) \<Longrightarrow>
   colons r \<le> colons s"
  by (drule read_separator_colons) (auto dest: read_number_colons)

lemma read_embedded_le:
  "read_separator (CHR '':'') i read_ipv4_addr s = Some (v, r) \<Longrightarrow> colons r \<le> colons s"
  by (drule read_separator_colons) (auto dest: read_ipv4_colons)

lemma read_groups_le: "read_groups k i s = (gs, b, r) \<Longrightarrow> colons r \<le> colons s"
proof (induction k arbitrary: i s gs b r)
  case (Suc k)
  show ?case
  proof (cases "if 0 < k then read_separator (CHR '':'') i read_ipv4_addr s else None")
    case (Some p)
    with Suc.prems show ?thesis
      by (cases p) (auto dest: read_embedded_le split: if_splits)
  next
    case None
    show ?thesis
    proof (cases "read_separator (CHR '':'') i (read_number 16 (Some 4) True 65535) s")
      case (Some q)
      obtain g s' where q: "q = (g, s')" by (cases q)
      obtain gs' b' r' where rec: "read_groups k (Suc i) s' = (gs', b', r')"
        by (metis prod_cases3)
      have "colons s' \<le> colons s" using Some q by (intro read_group_le) simp
      moreover have "r = r'" using Suc.prems None Some q rec by auto
      ultimately show ?thesis using Suc.IH [OF rec] by simp
    qed (use Suc.prems None in simp)
  qed
qed simp

lemma read_ipv6_colons:
  assumes "read_ipv6_addr s = Some (a, r)" shows "colons r + 2 \<le> colons s"
proof -
  obtain gs b s1 where g: "read_groups 8 0 s = (gs, b, s1)" by (metis prod_cases3)
  note c = read_groups_colons [OF g]
  show ?thesis
  proof (cases "length gs = 8")
    case True
    with assms g c show ?thesis by (auto simp: read_ipv6_addr_def split: if_splits)
  next
    case False
    with assms g obtain s2 s3 where b: "\<not> b" and s2: "read_given_char (CHR '':'') s1 = Some s2"
      and s3: "read_given_char (CHR '':'') s2 = Some s3"
      and r: "r = snd (snd (read_groups (8 - (length gs + 1)) 0 s3))"
      by (auto simp: read_ipv6_addr_def bind_eq_Some_conv case_prod_beta Let_def split: if_splits)
    obtain gs' b' r' where g': "read_groups (8 - (length gs + 1)) 0 s3 = (gs', b', r')"
      by (metis prod_cases3)
    have tail: "colons r' \<le> colons s3"
      by (rule read_groups_le [OF g'])
    have head: "colons s1 \<le> colons s"
      by (rule read_groups_le [OF g])
    from tail head read_given_char_colons [OF s2] read_given_char_colons [OF s3] r g'
    show ?thesis by simp
  qed
qed


lemma read_scope_colons: "read_scope_id s = Some (n, r) \<Longrightarrow> colons r \<le> colons s"
  by (auto simp: read_scope_id_def bind_eq_Some_conv dest!: read_given_char_colons
      dest: read_number_colons)

lemma read_port_colons: "read_port s = Some (n, r) \<Longrightarrow> colons r + 1 \<le> colons s"
  by (auto simp: read_port_def bind_eq_Some_conv dest!: read_given_char_colons
      dest: read_number_colons)

lemma read_socket_v4_colons:
  "read_socket_addr_v4 s = Some (a, r) \<Longrightarrow> (\<exists>ip p. a = SocketAddrV4 ip p) \<and> 1 \<le> colons s"
  by (auto simp: read_socket_addr_v4_def bind_eq_Some_conv dest!: read_ipv4_colons read_port_colons)

lemma read_socket_v6_colons:
  assumes "read_socket_addr_v6 s = Some (a, r)" shows "3 \<le> colons s"
proof -
  from assms obtain s1 ip s2 where 1: "read_given_char (CHR ''['') s = Some s1"
    and 2: "read_ipv6_addr s1 = Some (ip, s2)"
    by (auto simp: read_socket_addr_v6_def bind_eq_Some_conv)
  obtain sc s3 where 3: "(case read_scope_id s2 of Some r \<Rightarrow> r | None \<Rightarrow> (0, s2)) = (sc, s3)"
    by fastforce
  from assms 1 2 3 obtain s4 p where 4: "read_given_char (CHR '']'') s3 = Some s4"
    and 5: "read_port s4 = Some (p, r)"
    by (auto simp: read_socket_addr_v6_def bind_eq_Some_conv)
  have "colons s3 \<le> colons s2"
    using 3 by (auto split: option.splits dest: read_scope_colons)
  with read_given_char_colons [OF 1] read_ipv6_colons [OF 2] read_given_char_colons [OF 4]
    read_port_colons [OF 5]
  show ?thesis by simp
qed

lemma parse_socket_colons:
  assumes "parse_socket_addr s = Some a"
  shows "((\<exists>ip p. a = SocketAddrV4 ip p) \<and> 1 \<le> colons s) \<or> 3 \<le> colons s"
proof -
  from assms have "read_socket_addr s = Some (a, [])"
    by (auto simp: parse_socket_addr_def parse_all_def split: option.splits list.splits prod.splits)
  then show ?thesis
    by (auto simp: read_socket_addr_def split: option.splits
        dest: read_socket_v4_colons read_socket_v6_colons)
qed

end
