(* ===== verification/Relay_Agent.thy ===== *)
theory Relay_Agent
  imports V4_Pipeline V6_Relay Smf_Engine Addr_Text
begin

text \<open>
  \<open>lib.rs\<close>: the counters, the spawn contexts, the four handlers, the dispatch of a datagram, the
  loop of a task and the construction of the tasks. A handler returns the counters and the
  datagrams it sends (payload and destination), or \<open>None\<close> where it would panic. The results of
  \<open>send_to\<close> are ignored by the code. The counters are updated by atomic additions only, which wrap
  around at 64 bits.
\<close>

datatype relay_event =
    PacketReceived string nat
  | PacketForwarded string string
  | PacketDropped string
  | ErrorEvent string

record relay_stats =
  packets_received :: u64
  packets_forwarded :: u64
  packets_dropped_parse_error :: u64
  packets_dropped_spoof :: u64
  option82_inserted :: u64
  option82_stripped :: u64
  vss_not_supported :: u64
  smf_duplicates_detected :: u64
  smf_forwarded :: u64

definition stats_default :: relay_stats where
  "stats_default =
     \<lparr> packets_received = 0, packets_forwarded = 0, packets_dropped_parse_error = 0,
       packets_dropped_spoof = 0, option82_inserted = 0, option82_stripped = 0,
       vss_not_supported = 0, smf_duplicates_detected = 0, smf_forwarded = 0 \<rparr>"

definition count_received :: "relay_stats \<Rightarrow> relay_stats" where
  "count_received st = st\<lparr>packets_received := packets_received st + 1\<rparr>"

definition count_forwarded :: "relay_stats \<Rightarrow> relay_stats" where
  "count_forwarded st = st\<lparr>packets_forwarded := packets_forwarded st + 1\<rparr>"

definition count_spoof :: "relay_stats \<Rightarrow> relay_stats" where
  "count_spoof st = st\<lparr>packets_dropped_spoof := packets_dropped_spoof st + 1\<rparr>"

definition count_stripped :: "relay_stats \<Rightarrow> relay_stats" where
  "count_stripped st = st\<lparr>option82_stripped := option82_stripped st + 1\<rparr>"

text \<open>\<open>snapshot\<close> reads the counters one after the other; the struct it returns has the same fields.\<close>

definition stats_snapshot :: "relay_stats \<Rightarrow> relay_stats" where
  "stats_snapshot st =
     \<lparr> packets_received = packets_received st, packets_forwarded = packets_forwarded st,
       packets_dropped_parse_error = packets_dropped_parse_error st,
       packets_dropped_spoof = packets_dropped_spoof st, option82_inserted = option82_inserted st,
       option82_stripped = option82_stripped st, vss_not_supported = vss_not_supported st,
       smf_duplicates_detected = smf_duplicates_detected st, smf_forwarded = smf_forwarded st \<rparr>"

lemma stats_snapshot_id [simp]: "stats_snapshot st = st"
  by (simp add: stats_snapshot_def)

type_synonym sends = "(bytes \<times> socket_addr) list"
type_synonym handled = "(relay_stats \<times> sends) option"

section \<open>Spawn contexts\<close>

record v4_spawn_context =
  sc4_enable_option82 :: bool
  sc4_vss_enabled :: bool
  sc4_vss_cfg :: vss_config
  sc4_circuit_id :: "bytes option"
  sc4_remote_id :: "bytes option"
  sc4_local_addrs :: "ipv4addr list"

definition local_v4_addrs :: "interface_config list \<Rightarrow> ipv4addr list" where
  "local_v4_addrs ifs = List.map_filter (\<lambda>i. parse_ipv4 (before_colon (if_ip_addr i))) ifs"

definition v4_from_inner :: "relay_config \<Rightarrow> v4_spawn_context" where
  "v4_from_inner config =
     (let cfg = dhcpv4 config in
      \<lparr> sc4_enable_option82 = enable_option82 cfg, sc4_vss_enabled = vss_enabled (v4_vss cfg),
        sc4_vss_cfg = v4_vss cfg, sc4_circuit_id = map_option as_bytes (circuit_id cfg),
        sc4_remote_id = map_option as_bytes (v4_remote_id cfg),
        sc4_local_addrs = local_v4_addrs (interfaces config) \<rparr>)"

record v6_spawn_context =
  sc6_enable_interface_id :: bool
  sc6_enable_remote_id :: bool
  sc6_vss_enabled :: bool
  sc6_vss_cfg :: vss_config
  sc6_remote_id :: bytes

definition v6_from_inner :: "relay_config \<Rightarrow> v6_spawn_context" where
  "v6_from_inner config =
     (let cfg = dhcpv6 config in
      \<lparr> sc6_enable_interface_id = enable_interface_id cfg,
        sc6_enable_remote_id = enable_remote_id cfg, sc6_vss_enabled = vss_enabled (v6_vss cfg),
        sc6_vss_cfg = v6_vss cfg,
        sc6_remote_id = (case v6_remote_id cfg of Some d \<Rightarrow> d | None \<Rightarrow> []) \<rparr>)"

section \<open>Handlers\<close>

definition send_result :: "pipeline_ctx \<Rightarrow> sends" where
  "send_result ctx = (case dst_addr ctx of Some dst \<Rightarrow> [(buffer ctx, dst)] | None \<Rightarrow> [])"

definition handle_v4_client ::
    "('m, 'i, 'f) v4_api \<Rightarrow> bytes \<Rightarrow> socket_addr \<Rightarrow> string \<Rightarrow> ipv4addr \<Rightarrow> ipv4addr list \<Rightarrow>
     bytes option \<Rightarrow> bytes option \<Rightarrow> socket_addr \<Rightarrow> vss_config option \<Rightarrow> bool \<Rightarrow> relay_stats \<Rightarrow>
     handled" where
  "handle_v4_client A data src iface_name iface_ip local_addrs circuit remote server vss en82 st =
     (case execute (build_request_v4 A local_addrs circuit remote iface_ip server vss en82)
             (ctx_new data src iface_name) of
        None \<Rightarrow> None
      | Some (Inr True, ctx) \<Rightarrow> Some (count_forwarded st, send_result ctx)
      | Some (Inr False, ctx) \<Rightarrow> Some (st, [])
      | Some (Inl e, ctx) \<Rightarrow> Some (count_spoof st, []))"

definition handle_v4_server ::
    "('m, 'i, 'f) v4_api \<Rightarrow> bytes \<Rightarrow> socket_addr \<Rightarrow> string \<Rightarrow> sub_option list option \<Rightarrow>
     vss_config option \<Rightarrow> bool \<Rightarrow> relay_stats \<Rightarrow> handled" where
  "handle_v4_server A data src iface_name expected vss en82 st =
     (case execute (build_reply_v4 A expected vss en82) (ctx_new data src iface_name) of
        None \<Rightarrow> None
      | Some (Inr True, ctx) \<Rightarrow> Some (count_stripped (count_forwarded st), send_result ctx)
      | Some (Inr False, ctx) \<Rightarrow> Some (st, [])
      | Some (Inl e, ctx) \<Rightarrow> Some (st, []))"

definition v6_link_addr :: "string + socket_addr \<Rightarrow> ipv6addr" where
  "v6_link_addr local_addr =
     (case local_addr of
        Inr a \<Rightarrow> (case socket_ip a of V6 ip \<Rightarrow> ip | _ \<Rightarrow> IPV6_UNSPECIFIED)
      | Inl e \<Rightarrow> IPV6_UNSPECIFIED)"

definition handle_v6_client ::
    "'m v6_api \<Rightarrow> string + socket_addr \<Rightarrow> bytes \<Rightarrow> socket_addr \<Rightarrow> string \<Rightarrow> bytes \<Rightarrow> socket_addr \<Rightarrow>
     vss_config option \<Rightarrow> bool \<Rightarrow> bool \<Rightarrow> relay_stats \<Rightarrow> handled" where
  "handle_v6_client A local_addr data src iface_name remote server vss en_interface en_remote st =
     (case execute (build_request_v6 A iface_name remote (v6_link_addr local_addr) src server vss
                      en_interface en_remote) (ctx_new data src iface_name) of
        None \<Rightarrow> None
      | Some (Inr True, ctx) \<Rightarrow> Some (count_forwarded st, send_result ctx)
      | Some (Inr False, ctx) \<Rightarrow> Some (st, [])
      | Some (Inl e, ctx) \<Rightarrow> Some (st, []))"

definition handle_v6_server ::
    "'m v6_api \<Rightarrow> bytes \<Rightarrow> socket_addr \<Rightarrow> string \<Rightarrow> vss_config option \<Rightarrow> relay_stats \<Rightarrow> handled" where
  "handle_v6_server A data src iface_name vss st =
     (case execute (build_reply_v6 A src vss) (ctx_new data src iface_name) of
        None \<Rightarrow> None
      | Some (Inr True, ctx) \<Rightarrow> Some (count_forwarded st, send_result ctx)
      | Some (Inr False, ctx) \<Rightarrow> Some (st, [])
      | Some (Inl e, ctx) \<Rightarrow> Some (st, []))"

section \<open>Dispatch of a datagram\<close>

definition when_enabled :: "bool \<Rightarrow> vss_config \<Rightarrow> vss_config option" where
  "when_enabled b cfg = (if b then Some cfg else None)"

fun is_v4_client_type :: "v4_message_type option \<Rightarrow> bool" where
  "is_v4_client_type None = False"
| "is_v4_client_type (Some t) = (t \<in> {Discover, Request, Inform, Decline, Release})"

text \<open>The sub-options the agent expects to be echoed: those of the reply itself.\<close>

definition expected_sub_opts :: "('m, 'i, 'f) v4_api \<Rightarrow> 'm \<Rightarrow> sub_option list option" where
  "expected_sub_opts A msg =
     (case v4_get A msg RelayAgentInformationCode of
        Some (RelayAgentInformation info) \<Rightarrow> Some (sub_opts_of A info)
      | _ \<Rightarrow> None)"

record v4_task =
  t4_iface_name :: string
  t4_iface_ip :: ipv4addr
  t4_bind_addr :: socket_addr
  t4_server :: socket_addr
  t4_ctx :: v4_spawn_context

definition v4_datagram ::
    "('m, 'i, 'f) v4_api \<Rightarrow> v4_task \<Rightarrow> bytes \<Rightarrow> socket_addr \<Rightarrow> relay_stats \<Rightarrow> handled" where
  "v4_datagram A task data src st =
     (let st1 = count_received st; ctx = t4_ctx task in
      case v4_decode A data of
        Inl e \<Rightarrow> Some (st1, [])
      | Inr msg \<Rightarrow>
         (if is_v4_client_type (v4_msg_type A msg) then
            handle_v4_client A data src (t4_iface_name task) (t4_iface_ip task)
              (sc4_local_addrs ctx) (sc4_circuit_id ctx) (sc4_remote_id ctx) (t4_server task)
              (when_enabled (sc4_vss_enabled ctx) (sc4_vss_cfg ctx)) (sc4_enable_option82 ctx) st1
          else
            handle_v4_server A data src (t4_iface_name task) (expected_sub_opts A msg)
              (when_enabled (sc4_vss_enabled ctx) (sc4_vss_cfg ctx)) (sc4_enable_option82 ctx) st1))"

definition is_v6_client_type :: "v6_message_type \<Rightarrow> bool" where
  "is_v6_client_type t \<longleftrightarrow>
     t \<in> {V6Solicit, V6Request, V6Confirm, V6Renew, V6Rebind, V6Decline, V6Release,
          V6InformationRequest}"

record v6_task =
  t6_iface_name :: string
  t6_bind_addr :: socket_addr
  t6_server :: socket_addr
  t6_local_addr :: "string + socket_addr"
  t6_ctx :: v6_spawn_context

definition first_byte :: "bytes \<Rightarrow> byte" where
  "first_byte data = (case data of [] \<Rightarrow> 0 | b # _ \<Rightarrow> b)"

definition v6_datagram ::
    "'m v6_api \<Rightarrow> v6_task \<Rightarrow> bytes \<Rightarrow> socket_addr \<Rightarrow> relay_stats \<Rightarrow> handled" where
  "v6_datagram A task data src st =
     (let st1 = count_received st; ctx = t6_ctx task;
          vss = when_enabled (sc6_vss_enabled ctx) (sc6_vss_cfg ctx) in
      if first_byte data = RELAY_REPL then
        handle_v6_server A data src (t6_iface_name task) vss st1
      else (case v6_decode A data of
              Inl e \<Rightarrow> Some (st1, [])
            | Inr msg \<Rightarrow>
                if is_v6_client_type (v6_msg_type A msg) then
                  handle_v6_client A (t6_local_addr task) data src (t6_iface_name task)
                    (sc6_remote_id ctx) (t6_server task) vss (sc6_enable_interface_id ctx)
                    (sc6_enable_remote_id ctx) st1
                else Some (st1, [])))"

section \<open>The loop of a task\<close>

text \<open>
  What \<open>select!\<close> yields: the new value of the shutdown signal, or the result of receiving. The
  result says whether the loop has ended.
\<close>

datatype task_event = Changed bool | Received "string + (bytes \<times> socket_addr)"

fun task_run ::
    "(bytes \<Rightarrow> socket_addr \<Rightarrow> relay_stats \<Rightarrow> handled) \<Rightarrow> task_event list \<Rightarrow> relay_stats \<times> sends \<Rightarrow>
     (bool \<times> relay_stats \<times> sends) option" where
  "task_run handle [] (st, out) = Some (False, st, out)"
| "task_run handle (Changed stop # evs) (st, out) =
     (if stop then Some (True, st, out) else task_run handle evs (st, out))"
| "task_run handle (Received (Inl e) # evs) (st, out) = task_run handle evs (st, out)"
| "task_run handle (Received (Inr (data, src)) # evs) (st, out) =
     (case handle data src st of
        None \<Rightarrow> None
      | Some (st', sent) \<Rightarrow> task_run handle evs (st', out @ sent))"

section \<open>Construction of the tasks\<close>

text \<open>
  \<open>udp\<close> is \<open>UdpTransport::bind\<close>: an error, or a transport, of which the tasks only need what its
  \<open>local_addr\<close> returns (\<open>transport_bound\<close> computes both from the sockets). The text
  of a failed parse is that of the standard library. The tasks that were spawned before an error
  keep running: they are the first component.
\<close>

type_synonym bind_result = "socket_addr \<Rightarrow> string + (string + socket_addr)"

definition addr_parse_error :: string where
  "addr_parse_error = ''invalid socket address syntax''"

fun spawn_v4_tasks ::
    "bind_result \<Rightarrow> v4_spawn_context \<Rightarrow> socket_addr option \<Rightarrow>
     interface_config list \<Rightarrow> v4_task list \<times> unit relay_result" where
  "spawn_v4_tasks udp ctx default_server [] = ([], Inr ())"
| "spawn_v4_tasks udp ctx default_server (iface # ifaces) =
     (if \<not> if_enabled iface then spawn_v4_tasks udp ctx default_server ifaces
      else case parse_socket_addr (if_ip_addr iface) of
        None \<Rightarrow> ([], Inl (Config (''invalid IP: '' @ addr_parse_error)))
      | Some bind_addr \<Rightarrow>
         (case udp bind_addr of
            Inl e \<Rightarrow> ([], Inl (Transport (''bind: '' @ e)))
          | Inr loc \<Rightarrow>
             (let task =
                \<lparr> t4_iface_name = if_name iface,
                  t4_iface_ip = (case parse_ipv4 (before_colon (if_ip_addr iface)) of
                                   Some ip \<Rightarrow> ip | None \<Rightarrow> IPV4_UNSPECIFIED),
                  t4_bind_addr = bind_addr,
                  t4_server = (case default_server of Some s \<Rightarrow> s | None \<Rightarrow> bind_addr),
                  t4_ctx = ctx \<rparr>;
                  (tasks, r) = spawn_v4_tasks udp ctx default_server ifaces in
              (task # tasks, r))))"

fun spawn_v6_tasks ::
    "bind_result \<Rightarrow> v6_spawn_context \<Rightarrow> socket_addr option \<Rightarrow>
     interface_config list \<Rightarrow> v6_task list \<times> unit relay_result" where
  "spawn_v6_tasks udp ctx default_server [] = ([], Inr ())"
| "spawn_v6_tasks udp ctx default_server (iface # ifaces) =
     (if \<not> if_enabled iface then spawn_v6_tasks udp ctx default_server ifaces
      else case parse_socket_addr (before_colon (if_ip_addr iface) @ '':547'') of
        None \<Rightarrow> ([], Inl (Config (''invalid v6 IP: '' @ addr_parse_error)))
      | Some bind_addr \<Rightarrow>
         (case udp bind_addr of
            Inl e \<Rightarrow> ([], Inl (Transport (''v6 bind: '' @ e)))
          | Inr loc \<Rightarrow>
             (let task =
                \<lparr> t6_iface_name = if_name iface, t6_bind_addr = bind_addr,
                  t6_server = (case default_server of Some s \<Rightarrow> s | None \<Rightarrow> bind_addr),
                  t6_local_addr = loc, t6_ctx = ctx \<rparr>;
                  (tasks, r) = spawn_v6_tasks udp ctx default_server ifaces in
              (task # tasks, r))))"

section \<open>The agent\<close>

record relay_agent =
  ag_config :: relay_config
  ag_stats :: relay_stats
  ag_topology :: "topology_provider option"
  ag_selector :: "relay_set_selector option"

definition agent_new :: "relay_config \<Rightarrow> relay_agent relay_result" where
  "agent_new config =
     (case validate_config config of
        Inl e \<Rightarrow> Inl e
      | Inr _ \<Rightarrow> Inr \<lparr> ag_config = config, ag_stats = stats_default, ag_topology = None,
                       ag_selector = None \<rparr>)"

definition first_server :: "'a list \<Rightarrow> 'a option" where
  "first_server l = (case l of [] \<Rightarrow> None | x # _ \<Rightarrow> Some x)"

text \<open>The start of \<open>run\<close>: the tasks of both families, the second only if the first all started.\<close>

definition agent_spawn ::
    "bind_result \<Rightarrow> relay_agent \<Rightarrow>
     v4_task list \<times> v6_task list \<times> unit relay_result" where
  "agent_spawn udp agent =
     (let config = ag_config agent;
          (tasks4, r4) = spawn_v4_tasks udp (v4_from_inner config)
             (first_server (v4_server_addrs (dhcpv4 config))) (interfaces config) in
      case r4 of
        Inl e \<Rightarrow> (tasks4, [], Inl e)
      | Inr _ \<Rightarrow>
         (let (tasks6, r6) = spawn_v6_tasks udp (v6_from_inner config)
                (first_server (v6_server_addrs (dhcpv6 config))) (interfaces config) in
          (tasks4, tasks6, r6)))"

definition with_topology_provider :: "topology_provider \<Rightarrow> relay_agent \<Rightarrow> relay_agent" where
  "with_topology_provider provider agent = agent\<lparr>ag_topology := Some provider\<rparr>"

definition agent_with_selector :: "relay_set_selector \<Rightarrow> relay_agent \<Rightarrow> relay_agent" where
  "agent_with_selector selector agent = agent\<lparr>ag_selector := Some selector\<rparr>"

definition take_topology_provider :: "relay_agent \<Rightarrow> topology_provider option \<times> relay_agent" where
  "take_topology_provider agent = (ag_topology agent, agent\<lparr>ag_topology := None\<rparr>)"

definition take_relay_selector :: "relay_agent \<Rightarrow> relay_set_selector option \<times> relay_agent" where
  "take_relay_selector agent = (ag_selector agent, agent\<lparr>ag_selector := None\<rparr>)"

end
