(* ===== verification/Agent_Loop.thy ===== *)
theory Agent_Loop
  imports Relay_Agent
begin

text \<open>
  The contract of a datagram handler and the loop of a task as its client: whatever events a task
  sees, it does not panic, counts what it receives and sends, and stops at the shutdown signal.
\<close>

section \<open>Statistics as increments\<close>

lemma count_sel [simp]:
  "packets_received (count_received st) = packets_received st + 1"
  "packets_forwarded (count_received st) = packets_forwarded st"
  "packets_received (count_forwarded st) = packets_received st"
  "packets_forwarded (count_forwarded st) = packets_forwarded st + 1"
  "packets_received (count_spoof st) = packets_received st"
  "packets_forwarded (count_spoof st) = packets_forwarded st"
  "packets_received (count_stripped st) = packets_received st"
  "packets_forwarded (count_stripped st) = packets_forwarded st"
  by (simp_all add: count_received_def count_forwarded_def count_spoof_def count_stripped_def)

section \<open>A pipeline that ends in a stage which sets the destination\<close>

lemma execute_last:
  assumes "execute_stages sts ctx = Some (Inr True, ctx')" "sts \<noteq> []"
  shows "\<exists>c. stage_process (last sts) c = Some (Inr True, ctx')"
proof -
  have "sts = butlast sts @ [last sts]" using assms(2) by simp
  with assms(1) have "execute_stages (butlast sts @ [last sts]) ctx = Some (Inr True, ctx')" by simp
  then show ?thesis
    by (auto simp: execute_stages_append
        split: option.splits sum.splits prod.splits bool.splits if_splits)
qed

lemma v4_request_addressed:
  "execute (build_request_v4 A ls ci ri ip srv vss en82) ctx = Some (Inr True, ctx') \<Longrightarrow>
   dst_addr ctx' = Some srv"
  unfolding build_request_v4_def execute_with_stages
  by (drule execute_last) (auto simp: v4_forward_process_def)

lemma reply_addr_sets:
  "reply_addr_process A c = Some (Inr True, ctx') \<Longrightarrow> \<exists>dst. dst_addr ctx' = Some dst"
  by (cases "v4_decode A (buffer c)") (auto simp: reply_addr_process_def)

lemma v4_reply_addressed:
  "execute (build_reply_v4 A expected vss en82) ctx = Some (Inr True, ctx') \<Longrightarrow>
   \<exists>dst. dst_addr ctx' = Some dst"
  unfolding build_reply_v4_def execute_with_stages
  by (drule execute_last) (auto dest: reply_addr_sets)

lemma v6_request_addressed:
  "execute (build_request_v6 A name rid link peer srv vss en_if en_rid) ctx = Some (Inr True, ctx') \<Longrightarrow>
   dst_addr ctx' = Some srv"
  unfolding build_request_v6_def execute_with_stages
  by (drule execute_last) (auto simp: v6_forward_process_def)

lemma v6_reply_addressed:
  "execute (build_reply_v6 A client vss) ctx = Some (Inr True, ctx') \<Longrightarrow> dst_addr ctx' = Some client"
  unfolding build_reply_v6_def execute_with_stages
  by (drule execute_last) (auto simp: v6_forward_process_def)

section \<open>The handlers\<close>

text \<open>A handler counts one packet forwarded exactly if it sends one, and never sends more.\<close>

definition accounts :: "relay_stats \<Rightarrow> handled \<Rightarrow> bool" where
  "accounts st h \<longleftrightarrow>
     (case h of
        None \<Rightarrow> False
      | Some (st', sent) \<Rightarrow>
          packets_received st' = packets_received st \<and> length sent \<le> 1 \<and>
          packets_forwarded st' = packets_forwarded st + of_nat (length sent))"

lemma accounts_simps [simp]:
  "accounts st (Some (st, []))" "accounts st (Some (count_spoof st, []))"
  "accounts st (Some (count_forwarded st, [p]))"
  "accounts st (Some (count_stripped (count_forwarded st), [p]))"
  by (simp_all add: accounts_def)

lemma handle_v4_client_accounts:
  "accounts st (handle_v4_client A data src name ip ls ci ri srv vss en82 st)"
proof -
  have "execute (build_request_v4 A ls ci ri ip srv vss en82) (ctx_new data src name) \<noteq> None"
    unfolding execute_def by (rule v4_request.total)
  then show ?thesis
    by (auto simp: handle_v4_client_def send_result_def dest: v4_request_addressed
        split: option.splits sum.splits bool.splits prod.splits)
qed

lemma handle_v4_server_accounts:
  "accounts st (handle_v4_server A data src name expected vss en82 st)"
proof -
  have "execute (build_reply_v4 A expected vss en82) (ctx_new data src name) \<noteq> None"
    unfolding execute_def by (rule v4_reply.total)
  then show ?thesis
    by (auto simp: handle_v4_server_def send_result_def dest: v4_reply_addressed
        split: option.splits sum.splits bool.splits prod.splits)
qed

lemma handle_v6_client_accounts:
  "accounts st (handle_v6_client A loc data src name rid srv vss en_if en_rid st)"
proof -
  have "execute (build_request_v6 A name rid (v6_link_addr loc) src srv vss en_if en_rid)
      (ctx_new data src name) \<noteq> None"
    unfolding execute_def by (rule v6_request.total)
  then show ?thesis
    by (auto simp: handle_v6_client_def send_result_def dest: v6_request_addressed
        split: option.splits sum.splits bool.splits prod.splits)
qed

lemma handle_v6_server_accounts: "accounts st (handle_v6_server A data src name vss st)"
proof -
  have "execute (build_reply_v6 A src vss) (ctx_new data src name) \<noteq> None"
    unfolding execute_def by (rule v6_reply.total)
  then show ?thesis
    by (auto simp: handle_v6_server_def send_result_def dest: v6_reply_addressed
        split: option.splits sum.splits bool.splits prod.splits)
qed

lemmas handlers_account =
  handle_v4_client_accounts handle_v4_server_accounts handle_v6_client_accounts
  handle_v6_server_accounts

section \<open>The loop\<close>

text \<open>The datagrams among the events up to the shutdown signal.\<close>

fun delivered :: "task_event list \<Rightarrow> nat" where
  "delivered [] = 0"
| "delivered (Changed stop # evs) = (if stop then 0 else delivered evs)"
| "delivered (Received (Inl e) # evs) = delivered evs"
| "delivered (Received (Inr p) # evs) = Suc (delivered evs)"

lemma task_run_snoc:
  "task_run h evs s = Some (False, st, out) \<Longrightarrow> task_run h (evs @ [ev]) s = task_run h [ev] (st, out)"
  by (induction h evs s rule: task_run.induct) (auto split: if_splits option.splits)

locale datagram_handler =
  fixes handle :: "bytes \<Rightarrow> socket_addr \<Rightarrow> relay_stats \<Rightarrow> handled"
  assumes handles: "accounts (count_received st) (handle data src st)"
begin

lemma handle_cases:
  obtains st' sent where "handle data src st = Some (st', sent)" "length sent \<le> 1"
    "packets_received st' = packets_received st + 1"
    "packets_forwarded st' = packets_forwarded st + of_nat (length sent)"
  using handles [of st data src] by (auto simp: accounts_def split: option.splits)

lemma run_counts:
  "\<exists>st' sent. task_run handle evs (st, out) = Some (Changed True \<in> set evs, st', out @ sent) \<and>
     length sent \<le> delivered evs \<and>
     packets_received st' = packets_received st + of_nat (delivered evs) \<and>
     packets_forwarded st' = packets_forwarded st + of_nat (length sent)"
proof (induction evs arbitrary: st out)
  case (Cons ev evs)
  show ?case
  proof (cases "\<exists>data src. ev = Received (Inr (data, src))")
    case True
    then obtain data src where ev: "ev = Received (Inr (data, src))" by blast
    obtain st1 s1 where h: "handle data src st = Some (st1, s1)" "length s1 \<le> 1"
      "packets_received st1 = packets_received st + 1"
      "packets_forwarded st1 = packets_forwarded st + of_nat (length s1)"
      by (rule handle_cases)
    from Cons.IH [of st1 "out @ s1"] obtain st' s2 where
      "task_run handle evs (st1, out @ s1) = Some (Changed True \<in> set evs, st', out @ s1 @ s2)"
      "length s2 \<le> delivered evs"
      "packets_received st' = packets_received st1 + of_nat (delivered evs)"
      "packets_forwarded st' = packets_forwarded st1 + of_nat (length s2)" by auto
    with h ev show ?thesis
      by (intro exI [of _ st'] exI [of _ "s1 @ s2"]) auto
  next
    case False
    then consider stop where "ev = Changed stop" | e where "ev = Received (Inl e)"
      by (metis task_event.exhaust sum.exhaust prod.exhaust)
    then show ?thesis using Cons.IH by cases auto
  qed
qed simp

text \<open>Nothing that happens after the shutdown signal matters.\<close>

lemma run_stops: "task_run handle (evs @ Changed True # rest) s = task_run handle (evs @ [Changed True]) s"
proof (induction evs arbitrary: s)
  case Nil
  then show ?case by (cases s) simp
next
  case (Cons ev evs)
  then show ?case
    by (cases s; cases ev rule: delivered.cases [of "[_]", simplified])
      (auto split: option.splits)
qed

end

interpretation v4_loop: datagram_handler "v4_datagram A task"
  for A :: "('m, 'i, 'f) v4_api" and task
  by unfold_locales
    (auto simp: v4_datagram_def Let_def handlers_account split: sum.splits)

interpretation v6_loop: datagram_handler "v6_datagram A task" for A :: "'m v6_api" and task
  by unfold_locales
    (auto simp: v6_datagram_def Let_def handlers_account split: sum.splits)

end
