(* ===== verification/Agent_Run.thy ===== *)
theory Agent_Run
  imports Agent_Loop
begin

text \<open>
  The agent while \<open>run\<close> waits for its tasks: all tasks share the counters and each sends on its own
  socket. The counters form a commutative monoid, in which every handler adds what it counts; so a
  run in which the datagrams of the tasks interleave is the sum of the runs of the single tasks.
\<close>

section \<open>The monoid of the counters\<close>

instantiation unit :: comm_monoid_add
begin

definition zero_unit :: unit where "0 = ()"

definition plus_unit :: "unit \<Rightarrow> unit \<Rightarrow> unit" where "a + b = ()"

instance by standard simp_all

end

instantiation relay_stats_ext :: (comm_monoid_add) comm_monoid_add
begin

definition zero_relay_stats_ext :: "'a relay_stats_scheme" where
  "0 = \<lparr> packets_received = 0, packets_forwarded = 0, packets_dropped_parse_error = 0,
         packets_dropped_spoof = 0, option82_inserted = 0, option82_stripped = 0,
         vss_not_supported = 0, smf_duplicates_detected = 0, smf_forwarded = 0, \<dots> = 0 \<rparr>"

definition plus_relay_stats_ext ::
    "'a relay_stats_scheme \<Rightarrow> 'a relay_stats_scheme \<Rightarrow> 'a relay_stats_scheme" where
  "a + b =
     \<lparr> packets_received = packets_received a + packets_received b,
       packets_forwarded = packets_forwarded a + packets_forwarded b,
       packets_dropped_parse_error = packets_dropped_parse_error a + packets_dropped_parse_error b,
       packets_dropped_spoof = packets_dropped_spoof a + packets_dropped_spoof b,
       option82_inserted = option82_inserted a + option82_inserted b,
       option82_stripped = option82_stripped a + option82_stripped b,
       vss_not_supported = vss_not_supported a + vss_not_supported b,
       smf_duplicates_detected = smf_duplicates_detected a + smf_duplicates_detected b,
       smf_forwarded = smf_forwarded a + smf_forwarded b,
       \<dots> = relay_stats.more a + relay_stats.more b \<rparr>"

instance
  by standard (simp_all add: zero_relay_stats_ext_def plus_relay_stats_ext_def ac_simps)

end

lemma stats_default_zero: "stats_default = 0"
  by (simp add: stats_default_def zero_relay_stats_ext_def zero_unit_def)

lemma count_plus:
  "count_received (st + d) = st + count_received d"
  "count_forwarded (st + d) = st + count_forwarded d"
  "count_spoof (st + d) = st + count_spoof d"
  "count_stripped (st + d) = st + count_stripped d"
  by (simp_all add: count_received_def count_forwarded_def count_spoof_def count_stripped_def
      plus_relay_stats_ext_def add.assoc)

lemma packets_plus [simp]:
  "packets_received (a + b) = packets_received a + packets_received b"
  "packets_forwarded (a + b) = packets_forwarded a + packets_forwarded b"
  by (simp_all add: plus_relay_stats_ext_def)

section \<open>Handlers add to the counters\<close>

definition adds_to :: "(relay_stats \<Rightarrow> handled) \<Rightarrow> bool" where
  "adds_to f \<longleftrightarrow> (\<forall>st d. f (st + d) = map_option (apfst ((+) st)) (f d))"

lemma handlers_add:
  "adds_to (handle_v4_client A data src name ip ls ci ri srv vss en82)"
  "adds_to (handle_v4_server A data src name expected vss en82)"
  "adds_to (handle_v6_client B loc data src name rid srv vss en_if en_rid)"
  "adds_to (handle_v6_server B data src name vss)"
  by (auto simp: adds_to_def handle_v4_client_def handle_v4_server_def handle_v6_client_def
      handle_v6_server_def count_plus split: option.splits sum.splits bool.splits)

lemma adds_if: "adds_to f \<Longrightarrow> adds_to g \<Longrightarrow> adds_to (\<lambda>st. if b then f st else g st)"
  by (cases b) simp_all

lemma adds_case:
  "(\<And>e. adds_to (f e)) \<Longrightarrow> (\<And>m. adds_to (g m)) \<Longrightarrow>
   adds_to (\<lambda>st. case r of Inl e \<Rightarrow> f e st | Inr m \<Rightarrow> g m st)"
  by (cases r) simp_all

lemma adds_received: "adds_to f \<Longrightarrow> adds_to (\<lambda>st. f (count_received st))"
  by (simp add: adds_to_def count_plus)

lemma adds_nothing: "adds_to (\<lambda>st. Some (st, []))"
  by (simp add: adds_to_def)

locale additive_handler = datagram_handler +
  assumes additive: "adds_to (handle data src)"
begin

lemma handle_from_zero: "handle data src st = map_option (apfst ((+) st)) (handle data src 0)"
  using additive [of data src] unfolding adds_to_def by (metis add.right_neutral)

lemma run_from_zero:
  "task_run handle evs (st, out) =
     map_option (\<lambda>(stop, d, sent). (stop, st + d, out @ sent)) (task_run handle evs (0, []))"
proof (induction evs arbitrary: st out)
  case (Cons ev evs)
  show ?case
  proof (cases "\<exists>data src. ev = Received (Inr (data, src))")
    case True
    then obtain data src where ev: "ev = Received (Inr (data, src))" by blast
    show ?thesis
    proof (cases "handle data src 0")
      case None
      with handle_from_zero [of data src st] ev show ?thesis by simp
    next
      case (Some p)
      with handle_from_zero [of data src st] Cons.IH [of "st + fst p" "out @ snd p"]
        Cons.IH [of "fst p" "snd p"] ev
      show ?thesis by (cases p) (auto simp: option.map_comp o_def split_def add.assoc)
    qed
  next
    case False
    then consider stop where "ev = Changed stop" | e where "ev = Received (Inl e)"
      by (metis task_event.exhaust sum.exhaust prod.exhaust)
    then show ?thesis using Cons.IH [of st out] by cases auto
  qed
qed simp

end

interpretation v4_adds: additive_handler "v4_datagram A task"
  for A :: "('m, 'i, 'f) v4_api" and task
proof (unfold_locales, goal_cases)
  case (1 data src)
  show ?case
    unfolding v4_datagram_def Let_def
    by (intro adds_received [of "\<lambda>st. _ st"] adds_if adds_case handlers_add adds_nothing)
qed

interpretation v6_adds: additive_handler "v6_datagram A task" for A :: "'m v6_api" and task
proof (unfold_locales, goal_cases)
  case (1 data src)
  show ?case
    unfolding v6_datagram_def Let_def
    by (intro adds_received [of "\<lambda>st. _ st"] adds_if adds_case handlers_add adds_nothing)
qed

end
