(* ===== verification/Watch_Api.thy ===== *)
theory Watch_Api
  imports Main
begin

text \<open>
  The interface of \<open>tokio::sync::watch\<close>, as \<open>lib.rs\<close> uses it for the shutdown signal. The crate is
  not part of the repository: the state \<open>'c\<close> of a channel, its receivers \<open>'r\<close> and the operations
  are parameters, gathered in the record \<open>watch_api\<close>. \<open>watch_ok\<close> states the documented behaviour:

  \<^item> \<open>send\<close> fails when every receiver has been dropped, and then the value is not made available;
    otherwise the value is unseen by every receiver;
  \<^item> \<open>subscribe\<close> makes a receiver that has seen all messages sent before;
  \<^item> a clone has seen what the original has seen;
  \<^item> \<open>changed\<close> completes when the newest value is unseen, and marks it as seen;
  \<^item> \<open>borrow\<close> reads the most recently sent value.

  \<open>w_live\<close> (the receivers not dropped) is an observation that only the laws mention.
\<close>

record ('c, 'r) watch_api =
  w_channel :: "bool \<Rightarrow> 'c \<times> 'r"
  w_subscribe :: "'c \<Rightarrow> 'c \<times> 'r"
  w_clone :: "'c \<Rightarrow> 'r \<Rightarrow> 'c \<times> 'r"
  w_drop :: "'c \<Rightarrow> 'r \<Rightarrow> 'c"
  w_send :: "'c \<Rightarrow> bool \<Rightarrow> bool \<times> 'c"
  w_unseen :: "'c \<Rightarrow> 'r \<Rightarrow> bool"
  w_changed :: "'c \<Rightarrow> 'r \<Rightarrow> 'c"
  w_borrow :: "'c \<Rightarrow> bool"
  w_live :: "'c \<Rightarrow> 'r set"

definition channel_ok :: "('c, 'r) watch_api \<Rightarrow> bool" where
  "channel_ok W \<longleftrightarrow>
     (\<forall>v c r. w_channel W v = (c, r) \<longrightarrow> w_live W c = {r} \<and> w_borrow W c = v \<and> \<not> w_unseen W c r)"

text \<open>\<open>adds_receiver\<close>: a new receiver, and nothing changes for the others.\<close>

definition adds_receiver :: "('c, 'r) watch_api \<Rightarrow> 'c \<Rightarrow> bool \<Rightarrow> 'c \<times> 'r \<Rightarrow> bool" where
  "adds_receiver W c u p \<longleftrightarrow>
     (case p of (c', r) \<Rightarrow>
        r \<notin> w_live W c \<and> w_live W c' = insert r (w_live W c) \<and> w_borrow W c' = w_borrow W c \<and>
        w_unseen W c' r = u \<and> (\<forall>q \<in> w_live W c. w_unseen W c' q = w_unseen W c q))"

definition drop_ok :: "('c, 'r) watch_api \<Rightarrow> bool" where
  "drop_ok W \<longleftrightarrow>
     (\<forall>c r. w_live W (w_drop W c r) = w_live W c - {r} \<and>
        w_borrow W (w_drop W c r) = w_borrow W c \<and>
        (\<forall>q. q \<noteq> r \<longrightarrow> w_unseen W (w_drop W c r) q = w_unseen W c q))"

definition send_ok :: "('c, 'r) watch_api \<Rightarrow> bool" where
  "send_ok W \<longleftrightarrow>
     (\<forall>c v. if w_live W c = {} then w_send W c v = (False, c)
        else fst (w_send W c v) \<and> w_live W (snd (w_send W c v)) = w_live W c \<and>
          w_borrow W (snd (w_send W c v)) = v \<and>
          (\<forall>q \<in> w_live W c. w_unseen W (snd (w_send W c v)) q))"

definition changed_ok :: "('c, 'r) watch_api \<Rightarrow> bool" where
  "changed_ok W \<longleftrightarrow>
     (\<forall>c r. w_live W (w_changed W c r) = w_live W c \<and> w_borrow W (w_changed W c r) = w_borrow W c \<and>
        (\<forall>q. w_unseen W (w_changed W c r) q = (w_unseen W c q \<and> q \<noteq> r)))"

definition watch_ok :: "('c, 'r) watch_api \<Rightarrow> bool" where
  "watch_ok W \<longleftrightarrow> channel_ok W \<and>
     (\<forall>c. adds_receiver W c False (w_subscribe W c)) \<and>
     (\<forall>c r. r \<in> w_live W c \<longrightarrow> adds_receiver W c (w_unseen W c r) (w_clone W c r)) \<and>
     drop_ok W \<and> send_ok W \<and> changed_ok W"

lemma channelD:
  "watch_ok W \<Longrightarrow> w_channel W v = (c, r) \<Longrightarrow>
   w_live W c = {r} \<and> w_borrow W c = v \<and> \<not> w_unseen W c r"
  by (simp add: watch_ok_def channel_ok_def)

lemma subscribeD: "watch_ok W \<Longrightarrow> w_subscribe W c = p \<Longrightarrow> adds_receiver W c False p"
  unfolding watch_ok_def by blast

lemma cloneD:
  "watch_ok W \<Longrightarrow> w_clone W c r = p \<Longrightarrow> r \<in> w_live W c \<Longrightarrow> adds_receiver W c (w_unseen W c r) p"
  unfolding watch_ok_def by blast

lemma drop_simps:
  assumes "watch_ok W"
  shows "w_live W (w_drop W c r) = w_live W c - {r}" "w_borrow W (w_drop W c r) = w_borrow W c"
    "q \<noteq> r \<Longrightarrow> w_unseen W (w_drop W c r) q = w_unseen W c q"
  using assms by (simp_all add: watch_ok_def drop_ok_def)

lemma send_closed: "watch_ok W \<Longrightarrow> w_live W c = {} \<Longrightarrow> w_send W c v = (False, c)"
  by (simp add: watch_ok_def send_ok_def)

lemma send_simps:
  assumes "watch_ok W"
  shows "w_live W (snd (w_send W c v)) = w_live W c"
    "w_live W c \<noteq> {} \<Longrightarrow> w_borrow W (snd (w_send W c v)) = v"
    "q \<in> w_live W c \<Longrightarrow> w_unseen W (snd (w_send W c v)) q"
proof -
  from assms have ok: "send_ok W" by (simp add: watch_ok_def)
  show "w_live W (snd (w_send W c v)) = w_live W c"
    using ok by (cases "w_live W c = {}") (simp_all add: send_ok_def)
  show "w_live W c \<noteq> {} \<Longrightarrow> w_borrow W (snd (w_send W c v)) = v"
    using ok by (simp add: send_ok_def)
  show "w_unseen W (snd (w_send W c v)) q" if "q \<in> w_live W c"
    using ok that by (cases "w_live W c = {}") (auto simp: send_ok_def)
qed

lemma changed_simps:
  assumes "watch_ok W"
  shows "w_live W (w_changed W c r) = w_live W c" "w_borrow W (w_changed W c r) = w_borrow W c"
    "w_unseen W (w_changed W c r) q = (w_unseen W c q \<and> q \<noteq> r)"
  using assms by (simp_all add: watch_ok_def changed_ok_def)

section \<open>An instance\<close>

text \<open>
  A channel that numbers its receivers: the newest value, and the receivers with whether they have
  yet to see it. It shows that the laws can hold together, and is the instance of the witnesses.
\<close>

type_synonym sample_channel = "bool \<times> (nat \<times> bool) list"

fun sample_add :: "sample_channel \<Rightarrow> bool \<Rightarrow> sample_channel \<times> nat" where
  "sample_add (v, rs) unseen =
     (let r = Suc (sum_list (map fst rs)) in ((v, (r, unseen) # rs), r))"

fun sample_unseen :: "sample_channel \<Rightarrow> nat \<Rightarrow> bool" where
  "sample_unseen (v, rs) r = (map_of rs r = Some True)"

definition sample_watch :: "(sample_channel, nat) watch_api" where
  "sample_watch =
     \<lparr> w_channel = (\<lambda>v. sample_add (v, []) False),
       w_subscribe = (\<lambda>c. sample_add c False),
       w_clone = (\<lambda>c r. sample_add c (sample_unseen c r)),
       w_drop = (\<lambda>(v, rs) r. (v, filter (\<lambda>p. fst p \<noteq> r) rs)),
       w_send = (\<lambda>(v, rs) v'.
         if rs = [] then (False, (v, rs)) else (True, (v', map (\<lambda>(r, u). (r, True)) rs))),
       w_unseen = sample_unseen,
       w_changed = (\<lambda>(v, rs) r. (v, map (\<lambda>(q, u). (q, u \<and> q \<noteq> r)) rs)),
       w_borrow = fst,
       w_live = (\<lambda>(v, rs). fst ` set rs) \<rparr>"

lemma sum_fresh: "Suc (sum_list (map fst rs)) \<notin> fst ` set rs"
proof
  assume "Suc (sum_list (map fst rs)) \<in> fst ` set rs"
  then have "Suc (sum_list (map fst rs)) \<in> set (map fst rs)" by simp
  then have "Suc (sum_list (map fst rs)) \<le> sum_list (map fst rs)" by (simp add: member_le_sum_list)
  then show False by simp
qed

lemma map_of_drop: "q \<noteq> r \<Longrightarrow> map_of (filter (\<lambda>p. fst p \<noteq> r) rs) q = map_of rs q"
  by (induction rs) auto

lemma map_of_seen: "map_of (map (\<lambda>(q, u). (q, f q u)) rs) k = map_option (f k) (map_of rs k)"
  by (induction rs) auto

lemma fst_image_seen: "fst ` (\<lambda>(q, u). (q, f q u)) ` A = fst ` A"
  by force

lemma map_of_in: "q \<in> fst ` set rs \<Longrightarrow> \<exists>u. map_of rs q = Some u"
  by (metis domD dom_map_of_conv_image_fst)

lemma sample_add_ok: "adds_receiver sample_watch c u (sample_add c u)"
proof (cases c)
  case (Pair v rs)
  let ?r = "Suc (sum_list (map fst rs))"
  have "q \<noteq> ?r" if "q \<in> fst ` set rs" for q using that sum_fresh by metis
  then show ?thesis
    using sum_fresh [of rs] Pair by (simp add: adds_receiver_def sample_watch_def Let_def)
qed

lemma sample_send_ok: "send_ok sample_watch"
proof -
  have "w_unseen sample_watch (v', map (\<lambda>(r, u). (r, True)) rs) q" if "q \<in> fst ` set rs" for v' rs q
    using map_of_in [OF that] map_of_seen [of "\<lambda>q u. True" rs q] by (auto simp: sample_watch_def)
  then show ?thesis
    unfolding send_ok_def by (auto simp: sample_watch_def split_def image_image)
qed

lemma sample_receivers:
  "w_subscribe sample_watch c = sample_add c False"
  "w_clone sample_watch c r = sample_add c (w_unseen sample_watch c r)"
  by (simp_all add: sample_watch_def)

lemma sample_watch_ok: "watch_ok sample_watch"
proof -
  have "channel_ok sample_watch" by (auto simp: channel_ok_def sample_watch_def)
  moreover have "drop_ok sample_watch" by (auto simp: drop_ok_def sample_watch_def map_of_drop)
  moreover have "changed_ok sample_watch"
    by (auto simp: changed_ok_def sample_watch_def map_of_seen fst_image_seen)
  ultimately show ?thesis
    using sample_add_ok sample_send_ok
    by (simp add: watch_ok_def sample_receivers del: sample_add.simps)
qed

end
