(* ===== verification/Agent_System.thy ===== *)
theory Agent_System
  imports Agent_Run Watch_Api
begin

text \<open>
  \<open>RelayAgent::run\<close> and \<open>shutdown\<close> of \<open>lib.rs\<close> as a step relation: the spawning of the tasks of
  both families interface by interface, the tasks themselves, the wait for their end, and calls of
  \<open>shutdown\<close> at any moment. The steps of the tasks interleave with each other and with the rest.

  A task is a receiver of the shutdown channel, a datagram handler and the datagrams it has sent.
  \<open>select!\<close> is biased: a task looks at the channel first and receives only if there is no change.
  One step handles one datagram; the handlers add to the counters atomically and do not read them.
\<close>

section \<open>States\<close>

type_synonym handler = "bytes \<Rightarrow> socket_addr \<Rightarrow> relay_stats \<Rightarrow> handled"

datatype family = Dhcp4 | Dhcp6

text \<open>
  Where \<open>run\<close> is: before a family, at an interface of the loop that spawns a family (with the
  receiver from \<open>subscribe\<close>), waiting for the tasks, or done. \<open>run\<close> may be called again when it has
  returned; its own tasks are those from \<open>as_base\<close> on, and it waits for these only. The tasks before
  are those of earlier calls, some of which may live on after an error.
\<close>

datatype 'r phase =
    Pending family
  | Spawning family 'r "interface_config list"
  | Waiting
  | Returned "unit relay_result"

record 'r running =
  rn_rx :: 'r
  rn_handle :: handler
  rn_alive :: bool
  rn_sent :: sends

definition running_new :: "'r \<Rightarrow> handler \<Rightarrow> 'r running" where
  "running_new r h = \<lparr> rn_rx = r, rn_handle = h, rn_alive = True, rn_sent = [] \<rparr>"

record ('c, 'r) agent_state =
  as_chan :: 'c
  as_phase :: "'r phase"
  as_tasks :: "'r running list"
  as_base :: nat
  as_stats :: relay_stats

text \<open>
  The surroundings of a run: the channel operations, the interfaces, and what the body of the
  spawning loop does with an interface: an error, nothing (disabled), or a task with a handler.
\<close>

record ('c, 'r) agent_env =
  en_watch :: "('c, 'r) watch_api"
  en_ifaces :: "interface_config list"
  en_spawn :: "family \<Rightarrow> interface_config \<Rightarrow> handler option relay_result"

definition first_task :: "handler list \<times> unit relay_result \<Rightarrow> handler option relay_result" where
  "first_task p = (case p of (hs, Inl e) \<Rightarrow> Inl e | (hs, Inr _) \<Rightarrow> Inr (first_server hs))"

text \<open>The handlers of the tasks a family spawns for a list of interfaces.\<close>

definition family_handlers ::
    "('m, 'i, 'f) v4_api \<Rightarrow> 'n v6_api \<Rightarrow> bind_result \<Rightarrow> relay_config \<Rightarrow>
     family \<Rightarrow> interface_config list \<Rightarrow> handler list \<times> unit relay_result" where
  "family_handlers A B udp config f ifs =
     (case f of
        Dhcp4 \<Rightarrow> apfst (map (v4_datagram A))
          (spawn_v4_tasks udp (v4_from_inner config)
             (first_server (v4_server_addrs (dhcpv4 config))) ifs)
      | Dhcp6 \<Rightarrow> apfst (map (v6_datagram B))
          (spawn_v6_tasks udp (v6_from_inner config)
             (first_server (v6_server_addrs (dhcpv6 config))) ifs))"

definition agent_env_of ::
    "('c, 'r) watch_api \<Rightarrow> ('m, 'i, 'f) v4_api \<Rightarrow> 'n v6_api \<Rightarrow> bind_result \<Rightarrow>
     relay_agent \<Rightarrow> ('c, 'r) agent_env" where
  "agent_env_of W A B udp agent =
     \<lparr> en_watch = W, en_ifaces = interfaces (ag_config agent),
       en_spawn = (\<lambda>f iface. first_task (family_handlers A B udp (ag_config agent) f [iface])) \<rparr>"

text \<open>\<open>RelayAgent::new\<close>: the receiver that \<open>watch::channel\<close> returns is dropped at once.\<close>

definition agent_init :: "('c, 'r) watch_api \<Rightarrow> relay_agent \<Rightarrow> ('c, 'r) agent_state" where
  "agent_init W agent =
     (let (c, r) = w_channel W False in
      \<lparr> as_chan = w_drop W c r, as_phase = Pending Dhcp4, as_tasks = [], as_base = 0,
         as_stats = ag_stats agent \<rparr>)"

section \<open>Steps\<close>

datatype agent_label = CallShutdown | Internal | TaskEvent nat task_event

fun after_family :: "family \<Rightarrow> 'r phase" where
  "after_family Dhcp4 = Pending Dhcp6"
| "after_family Dhcp6 = Waiting"

text \<open>\<open>shutdown\<close>: the result of \<open>send\<close> is ignored.\<close>

definition call_shutdown :: "('c, 'r) watch_api \<Rightarrow> ('c, 'r) agent_state \<Rightarrow> ('c, 'r) agent_state" where
  "call_shutdown W s = s\<lparr>as_chan := snd (w_send W (as_chan s) True)\<rparr>"

text \<open>The branch of \<open>changed\<close>: the task ends if the value is true, and its receiver is dropped.\<close>

definition task_wake :: "('c, 'r) watch_api \<Rightarrow> nat \<Rightarrow> bool \<Rightarrow> ('c, 'r) agent_state \<Rightarrow> ('c, 'r) agent_state" where
  "task_wake W i stop s =
     (let t = as_tasks s ! i; c = w_changed W (as_chan s) (rn_rx t) in
      s\<lparr>as_chan := (if stop then w_drop W c (rn_rx t) else c),
        as_tasks := (as_tasks s)[i := t\<lparr>rn_alive := \<not> stop\<rparr>]\<rparr>)"

inductive agent_step ::
    "('c, 'r) agent_env \<Rightarrow> ('c, 'r) agent_state \<Rightarrow> agent_label \<Rightarrow> ('c, 'r) agent_state \<Rightarrow> bool"
  for E :: "('c, 'r) agent_env" where
  call: "agent_step E s CallShutdown (call_shutdown (en_watch E) s)"
| subscribe: "as_phase s = Pending f \<Longrightarrow> w_subscribe (en_watch E) (as_chan s) = (c, r) \<Longrightarrow>
    agent_step E s Internal (s\<lparr>as_chan := c, as_phase := Spawning f r (en_ifaces E)\<rparr>)"
| skip: "as_phase s = Spawning f r (iface # ifaces) \<Longrightarrow> en_spawn E f iface = Inr None \<Longrightarrow>
    agent_step E s Internal (s\<lparr>as_phase := Spawning f r ifaces\<rparr>)"
| spawn: "as_phase s = Spawning f r (iface # ifaces) \<Longrightarrow> en_spawn E f iface = Inr (Some h) \<Longrightarrow>
    w_clone (en_watch E) (as_chan s) r = (c, q) \<Longrightarrow>
    agent_step E s Internal
      (s\<lparr>as_chan := c, as_phase := Spawning f r ifaces, as_tasks := as_tasks s @ [running_new q h]\<rparr>)"
| fail: "as_phase s = Spawning f r (iface # ifaces) \<Longrightarrow> en_spawn E f iface = Inl e \<Longrightarrow>
    agent_step E s Internal
      (s\<lparr>as_chan := w_drop (en_watch E) (as_chan s) r, as_phase := Returned (Inl e)\<rparr>)"
| spawned: "as_phase s = Spawning f r [] \<Longrightarrow>
    agent_step E s Internal
      (s\<lparr>as_chan := w_drop (en_watch E) (as_chan s) r, as_phase := after_family f\<rparr>)"
| return: "as_phase s = Waiting \<Longrightarrow> list_all (\<lambda>t. \<not> rn_alive t) (drop (as_base s) (as_tasks s)) \<Longrightarrow>
    agent_step E s Internal (s\<lparr>as_phase := Returned (Inr ())\<rparr>)"
| wake: "i < length (as_tasks s) \<Longrightarrow> rn_alive (as_tasks s ! i) \<Longrightarrow>
    w_unseen (en_watch E) (as_chan s) (rn_rx (as_tasks s ! i)) \<Longrightarrow>
    stop = w_borrow (en_watch E) (as_chan s) \<Longrightarrow>
    agent_step E s (TaskEvent i (Changed stop)) (task_wake (en_watch E) i stop s)"
| receive_error: "i < length (as_tasks s) \<Longrightarrow> rn_alive (as_tasks s ! i) \<Longrightarrow>
    \<not> w_unseen (en_watch E) (as_chan s) (rn_rx (as_tasks s ! i)) \<Longrightarrow>
    agent_step E s (TaskEvent i (Received (Inl e))) s"
| receive: "i < length (as_tasks s) \<Longrightarrow> as_tasks s ! i = t \<Longrightarrow> rn_alive t \<Longrightarrow>
    \<not> w_unseen (en_watch E) (as_chan s) (rn_rx t) \<Longrightarrow>
    rn_handle t data src (as_stats s) = Some (st, out) \<Longrightarrow>
    agent_step E s (TaskEvent i (Received (Inr (data, src))))
      (s\<lparr>as_stats := st, as_tasks := (as_tasks s)[i := t\<lparr>rn_sent := rn_sent t @ out\<rparr>]\<rparr>)"

inductive agent_history ::
    "('c, 'r) agent_env \<Rightarrow> ('c, 'r) agent_state \<Rightarrow> agent_label list \<Rightarrow> ('c, 'r) agent_state \<Rightarrow> bool"
  for E :: "('c, 'r) agent_env" and s0 :: "('c, 'r) agent_state" where
  start: "agent_history E s0 [] s0"
| step: "agent_history E s0 ls s \<Longrightarrow> agent_step E s l s' \<Longrightarrow> agent_history E s0 (ls @ [l]) s'"

text \<open>The handlers of the tasks of the current call of \<open>run\<close>.\<close>

definition own_handles :: "('c, 'r) agent_state \<Rightarrow> handler list" where
  "own_handles s = drop (as_base s) (map rn_handle (as_tasks s))"

text \<open>The state in which \<open>run\<close> has just been called, for the first time or again.\<close>

definition run_called :: "('c, 'r) agent_state \<Rightarrow> bool" where
  "run_called s \<longleftrightarrow> as_phase s = Pending Dhcp4 \<and> as_base s = length (as_tasks s)"

text \<open>
  The life of an agent: any number of calls of \<open>run\<close>, one after the other. What the sockets do may
  change with every step; only the channel is the same throughout.
\<close>

definition call_run :: "('c, 'r) agent_state \<Rightarrow> ('c, 'r) agent_state" where
  "call_run s = s\<lparr>as_phase := Pending Dhcp4, as_base := length (as_tasks s)\<rparr>"

lemma run_called_simps [simp]: "run_called (agent_init W agent)" "run_called (call_run s)"
  by (simp_all add: run_called_def agent_init_def call_run_def Let_def split: prod.splits)

inductive agent_life :: "('c, 'r) watch_api \<Rightarrow> relay_agent \<Rightarrow> ('c, 'r) agent_state \<Rightarrow> bool"
  for W :: "('c, 'r) watch_api" and agent :: relay_agent where
  new: "agent_life W agent (agent_init W agent)"
| lives: "agent_life W agent s \<Longrightarrow> en_watch E = W \<Longrightarrow> agent_step E s l s' \<Longrightarrow> agent_life W agent s'"
| again: "agent_life W agent s \<Longrightarrow> as_phase s = Returned r \<Longrightarrow> agent_life W agent (call_run s)"

lemma life_history:
  "agent_history E s ls s' \<Longrightarrow> agent_life (en_watch E) agent s \<Longrightarrow> agent_life (en_watch E) agent s'"
  by (induction rule: agent_history.induct) (auto intro: agent_life.lives)

lemma history_append:
  "agent_history E s1 ls' s2 \<Longrightarrow> agent_history E s0 ls s1 \<Longrightarrow> agent_history E s0 (ls @ ls') s2"
  by (induction rule: agent_history.induct) (auto intro: agent_history.step simp flip: append_assoc)

end
