(* ===== verification/Agent_Shutdown.thy ===== *)
theory Agent_Shutdown
  imports Agent_System
begin

text \<open>
  The shutdown signal over the runs of the agent: the receivers in use are those of the loop that
  spawns and of the tasks that are alive; which tasks a call of \<open>shutdown\<close> reaches, and that \<open>run\<close>
  returns when it has reached them all.
\<close>

section \<open>The receivers in use\<close>

fun phase_rxs :: "'r phase \<Rightarrow> 'r list" where
  "phase_rxs (Spawning f r ifaces) = [r]"
| "phase_rxs _ = []"

definition alive_rxs :: "'r running list \<Rightarrow> 'r list" where
  "alive_rxs ts = map rn_rx (filter rn_alive ts)"

lemma alive_rxs_simps [simp]:
  "alive_rxs [] = []"
  "alive_rxs (ts @ us) = alive_rxs ts @ alive_rxs us"
  "alive_rxs (t # ts) = (if rn_alive t then rn_rx t # alive_rxs ts else alive_rxs ts)"
  by (simp_all add: alive_rxs_def)

lemma rn_new_simps [simp]:
  "rn_rx (running_new r h) = r" "rn_alive (running_new r h)" "rn_handle (running_new r h) = h"
  "rn_sent (running_new r h) = []"
  by (simp_all add: running_new_def)

lemma after_family_rxs [simp]: "phase_rxs (after_family f) = []"
  by (cases f) simp_all

definition rx_inv :: "('c, 'r) watch_api \<Rightarrow> ('c, 'r) agent_state \<Rightarrow> bool" where
  "rx_inv W s \<longleftrightarrow>
     distinct (phase_rxs (as_phase s) @ alive_rxs (as_tasks s)) \<and>
     w_live W (as_chan s) = set (phase_rxs (as_phase s) @ alive_rxs (as_tasks s))"

text \<open>The same among receivers \<open>R\<close> of others, which no step of this agent touches.\<close>

definition rx_frame :: "('c, 'r) watch_api \<Rightarrow> 'r list \<Rightarrow> ('c, 'r) agent_state \<Rightarrow> bool" where
  "rx_frame W R s \<longleftrightarrow>
     distinct (R @ phase_rxs (as_phase s) @ alive_rxs (as_tasks s)) \<and>
     w_live W (as_chan s) = set (R @ phase_rxs (as_phase s) @ alive_rxs (as_tasks s))"

lemma rx_frame_alone: "rx_inv W s = rx_frame W [] s"
  by (simp add: rx_inv_def rx_frame_def)

text \<open>A list around the element at an index, before and after an update there.\<close>

lemma split_at:
  assumes "i < length xs"
  obtains us vs where "xs = us @ xs ! i # vs" "\<And>y. xs[i := y] = us @ y # vs" "length us = i"
proof
  show "xs = take i xs @ xs ! i # drop (Suc i) xs" using assms by (rule id_take_nth_drop)
  show "xs[i := y] = take i xs @ y # drop (Suc i) xs" for y
    using assms by (rule upd_conv_take_nth_drop)
  show "length (take i xs) = i" using assms by simp
qed

lemma rx_inv_init: "watch_ok W \<Longrightarrow> rx_inv W (agent_init W agent)"
  by (cases "w_channel W False")
    (auto simp: rx_inv_def agent_init_def drop_simps dest: channelD)

lemma rx_frame_wake:
  assumes "watch_ok W" "rx_frame W R s" "i < length (as_tasks s)" "rn_alive (as_tasks s ! i)"
  shows "rx_frame W R (task_wake W i stop s)"
proof -
  obtain us vs where split: "as_tasks s = us @ as_tasks s ! i # vs"
    "\<And>y. (as_tasks s)[i := y] = us @ y # vs" using split_at [OF assms(3)] by metis
  show ?thesis
  proof (cases "as_tasks s ! i")
    case (fields rx h al sent)
    with assms split show ?thesis
      unfolding rx_frame_def by (auto simp: task_wake_def Let_def drop_simps changed_simps)
  qed
qed

lemma rx_frame_step:
  assumes "watch_ok (en_watch E)" "agent_step E s l s'" "rx_frame (en_watch E) R s"
  shows "rx_frame (en_watch E) R s'"
  using assms(2)
proof cases
  case call
  with assms show ?thesis by (simp add: rx_frame_def call_shutdown_def send_simps)
next
  case (subscribe f c r)
  with assms subscribeD [OF assms(1) subscribe(4)] show ?thesis
    by (auto simp: rx_frame_def adds_receiver_def)
next
  case (spawn f r iface ifaces h c q)
  with assms cloneD [OF assms(1) spawn(5)] show ?thesis
    by (auto simp: rx_frame_def adds_receiver_def)
next
  case (wake i stop)
  with assms show ?thesis by (simp add: rx_frame_wake)
next
  case (receive i t data src st out)
  then obtain us vs where "as_tasks s = us @ t # vs" "\<And>y. (as_tasks s)[i := y] = us @ y # vs"
    using split_at [of i "as_tasks s"] by metis
  with assms receive show ?thesis by (simp add: rx_frame_def)
qed (use assms in \<open>auto simp: rx_frame_def drop_simps\<close>)

lemmas rx_inv_step = rx_frame_step [where R = "[]", folded rx_frame_alone]

text \<open>The receivers in use and the tasks of the current call, over the whole life of an agent.\<close>

definition base_ok :: "('c, 'r) agent_state \<Rightarrow> bool" where
  "base_ok s \<longleftrightarrow> as_base s \<le> length (as_tasks s)"

lemma base_step: "agent_step E s l s' \<Longrightarrow> as_base s' = as_base s \<and> length (as_tasks s) \<le> length (as_tasks s')"
  by (cases rule: agent_step.cases) (auto simp: call_shutdown_def task_wake_def Let_def)

lemma rx_inv_call_run: "rx_inv W s \<Longrightarrow> as_phase s = Returned r \<Longrightarrow> rx_inv W (call_run s)"
  by (simp add: rx_inv_def call_run_def)

lemma life_inv:
  assumes "agent_life W agent s" "watch_ok W"
  shows "rx_inv W s \<and> base_ok s"
  using assms
proof induction
  case new
  then have "rx_inv W (agent_init W agent)" by (rule rx_inv_init)
  moreover have "base_ok (agent_init W agent)" by (simp add: base_ok_def agent_init_def Let_def split: prod.splits)
  ultimately show ?case by simp
next
  case (lives s E l s')
  then show ?case using rx_inv_step [of E s l s'] base_step [of E s l s'] by (auto simp: base_ok_def)
next
  case (again s r)
  then show ?case using rx_inv_call_run [of W s r] by (simp add: base_ok_def call_run_def)
qed

section \<open>Calls that reach nobody\<close>

lemma call_without_receivers:
  assumes "watch_ok W" "rx_inv W s" "phase_rxs (as_phase s) = []" "alive_rxs (as_tasks s) = []"
  shows "call_shutdown W s = s"
proof -
  from assms have "w_live W (as_chan s) = {}" by (simp add: rx_inv_def)
  with assms(1) show ?thesis by (simp add: call_shutdown_def send_closed)
qed

text \<open>The tasks from index \<open>n\<close> on have seen all there is to see, and so they stay alive.\<close>

definition unreached :: "('c, 'r) watch_api \<Rightarrow> nat \<Rightarrow> ('c, 'r) agent_state \<Rightarrow> bool" where
  "unreached W n s \<longleftrightarrow>
     as_base s \<le> n \<and> n \<le> length (as_tasks s) \<and>
     (\<forall>t \<in> set (drop n (as_tasks s)). rn_alive t \<and> \<not> w_unseen W (as_chan s) (rn_rx t)) \<and>
     (case as_phase s of
        Spawning f r ifaces \<Rightarrow> \<not> w_unseen W (as_chan s) r
      | Returned res \<Rightarrow> res = Inr () \<longrightarrow> length (as_tasks s) = n
      | _ \<Rightarrow> True)"

lemma alive_rx_in: "t \<in> set ts \<Longrightarrow> rn_alive t \<Longrightarrow> rn_rx t \<in> set (alive_rxs ts)"
  by (auto simp: alive_rxs_def)

lemma live_rx:
  "rx_inv W s \<Longrightarrow> t \<in> set (drop n (as_tasks s)) \<Longrightarrow> rn_alive t \<Longrightarrow> rn_rx t \<in> w_live W (as_chan s)"
  by (auto simp: rx_inv_def dest: in_set_dropD intro: alive_rx_in)

lemma nth_in_drop:
  assumes "n \<le> i" "i < length xs"
  shows "xs ! i \<in> set (drop n xs)"
proof -
  from assms have "drop n xs ! (i - n) = xs ! i" "i - n < length (drop n xs)" by simp_all
  then show ?thesis by (metis nth_mem)
qed

lemma rx_inv_apart:
  assumes "rx_inv W s" "i < n" "i < length (as_tasks s)" "rn_alive (as_tasks s ! i)"
  shows "t \<in> set (drop n (as_tasks s)) \<Longrightarrow> rn_alive t \<Longrightarrow> rn_rx t \<noteq> rn_rx (as_tasks s ! i)"
    and "as_phase s = Spawning f r ifaces \<Longrightarrow> r \<noteq> rn_rx (as_tasks s ! i)"
proof -
  let ?ts = "as_tasks s"
  have "take n ?ts ! i = ?ts ! i" "i < length (take n ?ts)" using assms by simp_all
  then have "?ts ! i \<in> set (take n ?ts)" by (metis nth_mem)
  then have i: "rn_rx (?ts ! i) \<in> set (alive_rxs (take n ?ts))"
    using assms(4) by (rule alive_rx_in)
  have "alive_rxs ?ts = alive_rxs (take n ?ts) @ alive_rxs (drop n ?ts)"
    by (metis alive_rxs_simps(2) append_take_drop_id)
  with assms(1) have d: "distinct (phase_rxs (as_phase s) @ alive_rxs (take n ?ts) @ alive_rxs (drop n ?ts))"
    by (simp add: rx_inv_def)
  show "rn_rx t \<noteq> rn_rx (?ts ! i)" if "t \<in> set (drop n ?ts)" "rn_alive t"
    using d i alive_rx_in [OF that] by auto
  show "r \<noteq> rn_rx (?ts ! i)" if "as_phase s = Spawning f r ifaces"
    using d i that by auto
qed

lemma unreached_wake:
  assumes "watch_ok W" "rx_inv W s" "unreached W n s"
    and "i < length (as_tasks s)" "rn_alive (as_tasks s ! i)"
    and "w_unseen W (as_chan s) (rn_rx (as_tasks s ! i))"
  shows "unreached W n (task_wake W i stop s)"
proof -
  have "i < n"
  proof (rule ccontr)
    assume "\<not> i < n"
    with assms(4) have "as_tasks s ! i \<in> set (drop n (as_tasks s))" by (simp add: nth_in_drop)
    with assms(3,6) show False by (auto simp: unreached_def)
  qed
  note apart = rx_inv_apart [OF assms(2) this assms(4,5)]
  show ?thesis
    using assms(1,3) \<open>i < n\<close> apart
    by (auto simp: unreached_def task_wake_def Let_def drop_simps changed_simps split: phase.splits)
qed

lemma unreached_drop:
  assumes "watch_ok W" "rx_inv W s" "unreached W n s" "as_phase s = Spawning f r ifaces"
    and "as_phase s' = after_family f \<or> as_phase s' = Returned (Inl e)"
    and "as_tasks s' = as_tasks s" "as_base s' = as_base s" "as_chan s' = w_drop W (as_chan s) r"
  shows "unreached W n s'"
proof -
  have "rn_rx t \<noteq> r" if "t \<in> set (drop n (as_tasks s))" "rn_alive t" for t
    using assms(2,4) alive_rx_in [OF in_set_dropD [OF that(1)] that(2)] by (auto simp: rx_inv_def)
  with assms show ?thesis by (cases f) (auto simp: unreached_def drop_simps)
qed

lemma unreached_step:
  assumes "watch_ok (en_watch E)" "rx_inv (en_watch E) s" "agent_step E s l s'"
    and "l \<noteq> CallShutdown" "unreached (en_watch E) n s"
  shows "unreached (en_watch E) n s'"
  using assms(3)
proof cases
  case (subscribe f c r)
  from subscribeD [OF assms(1) subscribe(4)] have "\<not> w_unseen (en_watch E) c r"
    "\<And>q. q \<in> w_live (en_watch E) (as_chan s) \<Longrightarrow>
      w_unseen (en_watch E) c q = w_unseen (en_watch E) (as_chan s) q"
    by (auto simp: adds_receiver_def)
  with assms(5) subscribe live_rx [OF assms(2), of _ n] show ?thesis by (auto simp: unreached_def)
next
  case (spawn f r iface ifaces h c q)
  let ?W = "en_watch E" and ?ts = "as_tasks s"
  have r: "r \<in> w_live ?W (as_chan s)" using assms(2) spawn by (simp add: rx_inv_def)
  have live: "rn_rx t \<in> w_live ?W (as_chan s)" if "t \<in> set (drop n ?ts)" "rn_alive t" for t
    using that by (rule live_rx [OF assms(2)])
  from cloneD [OF assms(1) spawn(5) r] have add: "w_unseen ?W c q = w_unseen ?W (as_chan s) r"
    "\<And>p. p \<in> w_live ?W (as_chan s) \<Longrightarrow> w_unseen ?W c p = w_unseen ?W (as_chan s) p"
    by (auto simp: adds_receiver_def)
  from assms(5) spawn have un: "n \<le> length ?ts" "as_base s \<le> n" "\<not> w_unseen ?W (as_chan s) r"
    "\<And>t. t \<in> set (drop n ?ts) \<Longrightarrow> rn_alive t \<and> \<not> w_unseen ?W (as_chan s) (rn_rx t)"
    by (auto simp: unreached_def)
  then have "\<not> w_unseen ?W c (rn_rx t)" if "t \<in> set (drop n ?ts)" for t
    using that add(2) live by blast
  then show ?thesis using spawn un add r by (auto simp: unreached_def)
next
  case (wake i stop)
  with assms show ?thesis by (simp add: unreached_wake)
next
  case (receive i t data src st out)
  let ?u = "t\<lparr>rn_sent := rn_sent t @ out\<rparr>"
  have "set (drop n ((as_tasks s)[i := ?u])) \<subseteq> insert ?u (set (drop n (as_tasks s)))"
    by (metis drop_update_cancel drop_update_swap linorder_not_le set_update_subset_insert
        subset_insertI)
  with assms receive show ?thesis by (fastforce simp: unreached_def split: phase.splits)
next
  case return
  have "drop n (as_tasks s) = []"
  proof (rule ccontr)
    assume "drop n (as_tasks s) \<noteq> []"
    then have "hd (drop n (as_tasks s)) \<in> set (drop n (as_tasks s))" by (rule hd_in_set)
    moreover from assms(5) return have "set (drop n (as_tasks s)) \<subseteq> set (drop (as_base s) (as_tasks s))"
      by (intro set_drop_subset_set_drop) (simp add: unreached_def)
    ultimately show False using assms(5) return by (auto simp: unreached_def list_all_iff)
  qed
  with assms return show ?thesis by (auto simp: unreached_def)
next
  case (fail f r iface ifaces e)
  then show ?thesis by (intro unreached_drop [OF assms(1,2,5)]) auto
next
  case (spawned f r)
  then show ?thesis by (intro unreached_drop [OF assms(1,2,5)]) auto
qed (use assms in \<open>auto simp: unreached_def\<close>)

lemma unreached_history:
  assumes "agent_history E s1 ls s2" "watch_ok (en_watch E)" "rx_inv (en_watch E) s1"
    and "unreached (en_watch E) n s1" "CallShutdown \<notin> set ls"
  shows "unreached (en_watch E) n s2 \<and> rx_inv (en_watch E) s2"
  using assms
proof induction
  case (step ls s l s')
  then have "unreached (en_watch E) n s \<and> rx_inv (en_watch E) s" "l \<noteq> CallShutdown" by auto
  with step.hyps(2) step.prems(1) show ?case
    using unreached_step rx_inv_step by metis
qed simp

section \<open>Calls that reach every task\<close>

text \<open>After a call all tasks that are alive have a change to see, and what they will see is true.\<close>

definition stopping :: "('c, 'r) watch_api \<Rightarrow> ('c, 'r) agent_state \<Rightarrow> bool" where
  "stopping W s \<longleftrightarrow>
     (\<forall>r \<in> set (alive_rxs (as_tasks s)). w_unseen W (as_chan s) r \<and> w_borrow W (as_chan s)) \<and>
     (as_phase s = Waiting \<or> (\<exists>res. as_phase s = Returned res))"

definition to_stop :: "('c, 'r) agent_state \<Rightarrow> nat" where
  "to_stop s = length (alive_rxs (as_tasks s)) + (if as_phase s = Waiting then 1 else 0)"

lemma stopping_call:
  assumes "watch_ok W" "rx_inv W s" "as_phase s = Waiting \<or> (\<exists>res. as_phase s = Returned res)"
  shows "stopping W (call_shutdown W s)"
proof (cases "alive_rxs (as_tasks s) = []")
  case True
  with assms(3) show ?thesis by (auto simp: stopping_def call_shutdown_def)
next
  case False
  from assms have "w_live W (as_chan s) = set (alive_rxs (as_tasks s))" by (auto simp: rx_inv_def)
  with assms(1,3) False show ?thesis by (simp add: stopping_def call_shutdown_def send_simps)
qed

lemma to_stop_call [simp]: "to_stop (call_shutdown W s) = to_stop s"
  by (simp add: to_stop_def call_shutdown_def)

lemma alive_none: "alive_rxs ts = [] \<longleftrightarrow> list_all (\<lambda>t. \<not> rn_alive t) ts"
  by (auto simp: alive_rxs_def filter_empty_conv list_all_iff)

lemma stopping_wake:
  assumes "watch_ok W" "rx_inv W s" "stopping W s"
    and "i < length (as_tasks s)" "rn_alive (as_tasks s ! i)"
  shows "stopping W (task_wake W i True s) \<and> Suc (to_stop (task_wake W i True s)) = to_stop s"
proof -
  obtain us vs where split: "as_tasks s = us @ as_tasks s ! i # vs"
    "\<And>y. (as_tasks s)[i := y] = us @ y # vs" using split_at [OF assms(4)] by metis
  let ?t = "as_tasks s ! i"
  have rxs: "alive_rxs (as_tasks s) = alive_rxs us @ rn_rx ?t # alive_rxs vs"
    using assms(5) by (subst split(1)) simp
  have "alive_rxs (as_tasks (task_wake W i True s)) = alive_rxs us @ alive_rxs vs"
    by (simp add: task_wake_def Let_def split(2))
  moreover have "as_chan (task_wake W i True s) = w_drop W (w_changed W (as_chan s) (rn_rx ?t)) (rn_rx ?t)"
    and "as_phase (task_wake W i True s) = as_phase s"
    by (simp_all add: task_wake_def Let_def)
  moreover have "rn_rx ?t \<notin> set (alive_rxs us @ alive_rxs vs)"
    using assms(2) rxs by (auto simp: rx_inv_def)
  then have "w_unseen W (w_drop W (w_changed W (as_chan s) (rn_rx ?t)) (rn_rx ?t)) r"
    if "r \<in> set (alive_rxs us @ alive_rxs vs)" for r
  proof -
    from that \<open>rn_rx ?t \<notin> _\<close> have "r \<noteq> rn_rx ?t" by metis
    with assms(1,3) that rxs show ?thesis by (auto simp: stopping_def drop_simps changed_simps)
  qed
  ultimately show ?thesis
    using assms(1,3) rxs by (auto simp: stopping_def to_stop_def drop_simps changed_simps)
qed

text \<open>A step of a stopping agent stops a task or returns, unless it is another call.\<close>

lemma stopping_step:
  assumes "watch_ok (en_watch E)" "rx_inv (en_watch E) s" "stopping (en_watch E) s" "agent_step E s l s'"
  shows "stopping (en_watch E) s' \<and> to_stop s = to_stop s' + (if l = CallShutdown then 0 else 1) \<and>
    as_phase s' \<in> {as_phase s, Returned (Inr ())} \<and>
    as_stats s' = as_stats s \<and> map rn_sent (as_tasks s') = map rn_sent (as_tasks s)"
proof -
  have seen: "w_unseen (en_watch E) (as_chan s) (rn_rx (as_tasks s ! i)) \<and>
      w_borrow (en_watch E) (as_chan s)"
    if "i < length (as_tasks s)" "rn_alive (as_tasks s ! i)" for i
    using assms(3) alive_rx_in [OF nth_mem [OF that(1)] that(2)] by (auto simp: stopping_def)
  from assms(4) show ?thesis
  proof cases
    case call
    with assms stopping_call [OF assms(1,2)] show ?thesis
      by (auto simp: stopping_def) (simp_all add: call_shutdown_def)
  next
    case (wake i stop)
    then have "stop" using seen by simp
    with stopping_wake [OF assms(1-3) wake(3,4)] wake show ?thesis
      by (auto simp: task_wake_def Let_def map_update list_update_same_conv)
  next
    case return
    with assms(3) show ?thesis by (simp add: stopping_def to_stop_def alive_none)
  next
    case (receive i t data src st out)
    with seen [of i] show ?thesis by simp
  next
    case (receive_error i e)
    with seen [of i] show ?thesis by simp
  qed (use assms(3) in \<open>auto simp: stopping_def\<close>)
qed

lemma stopping_history:
  assumes "agent_history E s1 ls s2" "watch_ok (en_watch E)" "rx_inv (en_watch E) s1"
    and "stopping (en_watch E) s1"
  shows "stopping (en_watch E) s2 \<and> rx_inv (en_watch E) s2 \<and>
    to_stop s1 = to_stop s2 + length (filter (\<lambda>l. l \<noteq> CallShutdown) ls) \<and>
    as_phase s2 \<in> {as_phase s1, Returned (Inr ())} \<and>
    as_stats s2 = as_stats s1 \<and> map rn_sent (as_tasks s2) = map rn_sent (as_tasks s1)"
  using assms
proof induction
  case (step ls s l s')
  from step.IH [OF step.prems] have "stopping (en_watch E) s" "rx_inv (en_watch E) s" by auto
  from stopping_step [OF step.prems(1) this(2,1) step.hyps(2)]
    rx_inv_step [OF step.prems(1) step.hyps(2) this(2)] step.IH [OF step.prems]
  show ?case by auto
qed simp

lemma stopping_progress:
  assumes "stopping (en_watch E) s" "as_phase s = Waiting \<or> alive_rxs (as_tasks s) \<noteq> []"
  shows "\<exists>l s'. l \<noteq> CallShutdown \<and> agent_step E s l s'"
proof (cases "alive_rxs (as_tasks s) = []")
  case True
  with assms(2) have "agent_step E s Internal (s\<lparr>as_phase := Returned (Inr ())\<rparr>)"
    by (intro agent_step.return) (auto simp: alive_none list_all_iff dest: in_set_dropD)
  then show ?thesis by blast
next
  case False
  then obtain t where t: "t \<in> set (as_tasks s)" "rn_alive t"
    by (auto simp: alive_none list_all_iff)
  then obtain i where i: "i < length (as_tasks s)" "as_tasks s ! i = t" by (meson in_set_conv_nth)
  with t assms(1) alive_rx_in [OF t] have "w_unseen (en_watch E) (as_chan s) (rn_rx t)"
    by (auto simp: stopping_def)
  with i t show ?thesis using agent_step.wake [of i s E] by blast
qed

end
