(* ===== verification/Agent_Ledger.thy ===== *)
theory Agent_Ledger
  imports Agent_Shutdown
begin

text \<open>
  The runs of the agent against the runs of its parts: the tasks that are spawned are those of
  \<open>agent_spawn\<close>, and what the interleaved tasks count and send is what each of them counts and
  sends on its own.
\<close>

section \<open>The events of a task\<close>

fun events_of :: "nat \<Rightarrow> agent_label list \<Rightarrow> task_event list" where
  "events_of i [] = []"
| "events_of i (TaskEvent j ev # ls) = (if j = i then ev # events_of i ls else events_of i ls)"
| "events_of i (CallShutdown # ls) = events_of i ls"
| "events_of i (Internal # ls) = events_of i ls"

lemma events_of_append [simp]: "events_of i (ls @ ms) = events_of i ls @ events_of i ms"
  by (induction i ls rule: events_of.induct) auto

lemma sum_update:
  fixes d :: "nat \<Rightarrow> 'a::comm_monoid_add"
  assumes "i < n"
  shows "(\<Sum>j<n. (d(i := d i + x)) j) = (\<Sum>j<n. d j) + x"
proof -
  have "(d(i := d i + x)) j = d j + (if j = i then x else 0)" for j by simp
  then have "(\<Sum>j<n. (d(i := d i + x)) j) = (\<Sum>j<n. d j + (if j = i then x else 0))"
    by (intro sum.cong) simp_all
  also have "\<dots> = (\<Sum>j<n. d j) + (\<Sum>j<n. if j = i then x else 0)" by (rule sum.distrib)
  finally show ?thesis using assms by simp
qed

text \<open>The account of every task: \<open>d i\<close> is what task \<open>i\<close> has added to the counters.\<close>

definition ledger ::
    "relay_stats \<Rightarrow> agent_label list \<Rightarrow> ('c, 'r) agent_state \<Rightarrow> (nat \<Rightarrow> relay_stats) \<Rightarrow> bool" where
  "ledger st0 ls s d \<longleftrightarrow>
     as_stats s = st0 + (\<Sum>i<length (as_tasks s). d i) \<and>
     (\<forall>i<length (as_tasks s).
        task_run (rn_handle (as_tasks s ! i)) (events_of i ls) (0, []) =
          Some (\<not> rn_alive (as_tasks s ! i), d i, rn_sent (as_tasks s ! i))) \<and>
     (\<forall>i\<ge>length (as_tasks s). events_of i ls = []) \<and>
     (\<forall>t \<in> set (as_tasks s). additive_handler (rn_handle t))"

lemma ledger_same:
  "ledger st0 ls s d \<Longrightarrow> as_tasks s' = as_tasks s \<Longrightarrow> as_stats s' = as_stats s \<Longrightarrow>
   (\<And>i. events_of i [l] = []) \<Longrightarrow> ledger st0 (ls @ [l]) s' d"
  by (simp add: ledger_def)

lemma ledger_spawn:
  assumes "ledger st0 ls s d" "additive_handler h" "as_tasks s' = as_tasks s @ [running_new q h]"
    and "as_stats s' = as_stats s"
  shows "ledger st0 (ls @ [Internal]) s' (d(length (as_tasks s) := 0))"
  using assms by (auto simp: ledger_def nth_append less_Suc_eq)

lemma ledger_event:
  assumes "ledger st0 ls s d" "i < length (as_tasks s)" "rn_alive (as_tasks s ! i)"
    and "task_run (rn_handle (as_tasks s ! i)) [ev] (d i, rn_sent (as_tasks s ! i)) =
      Some (\<not> rn_alive t, d i + x, rn_sent t)"
    and "as_tasks s' = (as_tasks s)[i := t]" "rn_handle t = rn_handle (as_tasks s ! i)"
    and "as_stats s' = as_stats s + x"
  shows "ledger st0 (ls @ [TaskEvent i ev]) s' (d(i := d i + x))"
proof -
  have "task_run (rn_handle (as_tasks s ! i)) (events_of i ls @ [ev]) (0, []) =
      Some (\<not> rn_alive t, d i + x, rn_sent t)"
    using assms(1-4) by (subst task_run_snoc) (auto simp: ledger_def)
  moreover have "additive_handler (rn_handle t)" using assms(1,2,6) by (simp add: ledger_def)
  ultimately show ?thesis
    using assms sum_update [OF assms(2), of d x]
    by (auto simp: ledger_def nth_list_update add.assoc dest: set_update_subset_insert [THEN subsetD])
qed

lemma ledger_step:
  assumes "agent_step E s l s'" "ledger st0 ls s d"
    and "\<And>f iface h. en_spawn E f iface = Inr (Some h) \<Longrightarrow> additive_handler h"
  shows "\<exists>d'. ledger st0 (ls @ [l]) s' d'"
  using assms(1)
proof cases
  case (spawn f r iface ifaces h c q)
  with ledger_spawn [OF assms(2), of h s' q] assms(3) show ?thesis by auto
next
  case (wake i stop)
  then show ?thesis
    using ledger_event [OF assms(2), of i "Changed stop" "(as_tasks s ! i)\<lparr>rn_alive := \<not> stop\<rparr>" 0 s']
    by (auto simp: task_wake_def Let_def)
next
  case (receive_error i e)
  then show ?thesis
    using ledger_event [OF assms(2), of i "Received (Inl e)" "as_tasks s ! i" 0 s'] by auto
next
  case (receive i t data src st out)
  then have add: "additive_handler (rn_handle t)" using assms(2) by (auto simp: ledger_def)
  note from_zero = additive_handler.handle_from_zero [OF add, of data src]
  from from_zero [of "as_stats s"] receive(7) obtain x where
    x: "rn_handle t data src 0 = Some (x, out)" "st = as_stats s + x"
    by (cases "rn_handle t data src 0") auto
  have "rn_handle t data src (d i) = Some (d i + x, out)" using from_zero [of "d i"] x(1) by simp
  with receive x(2) show ?thesis
    using ledger_event [OF assms(2), of i "Received (Inr (data, src))"
        "t\<lparr>rn_sent := rn_sent t @ out\<rparr>" x s'] by auto
qed ((rule exI [of _ d], rule ledger_same [OF assms(2)]; simp add: call_shutdown_def)+)

lemma ledger_history:
  assumes "agent_history E s0 ls s" "as_tasks s0 = []"
    and "\<And>f iface h. en_spawn E f iface = Inr (Some h) \<Longrightarrow> additive_handler h"
  shows "\<exists>d. ledger (as_stats s0) ls s d"
  using assms
proof induction
  case start
  then show ?case by (simp add: ledger_def)
next
  case (step ls s l s')
  then obtain d where "ledger (as_stats s0) ls s d" by blast
  from ledger_step [OF step.hyps(2) this step.prems(2)] show ?case .
qed

lemma family_handlers_additive: "h \<in> set (fst (family_handlers A B udp config f ifs)) \<Longrightarrow> additive_handler h"
  using v4_adds.additive_handler_axioms v6_adds.additive_handler_axioms
  by (auto simp: family_handlers_def split: family.splits)

lemma first_task_in: "first_task p = Inr (Some h) \<Longrightarrow> h \<in> set (fst p)"
  by (auto simp: first_task_def first_server_def split: prod.splits sum.splits list.splits)

lemma env_additive: "en_spawn (agent_env_of W A B udp agent) f iface = Inr (Some h) \<Longrightarrow> additive_handler h"
  by (auto simp: agent_env_of_def dest!: first_task_in intro: family_handlers_additive)

section \<open>The tasks that are spawned\<close>

text \<open>
  The contract of the two spawning loops: they go through the interfaces in order, an interface
  gives at most one task, and an error ends the loop with the tasks of the interfaces before.
\<close>

locale task_spawner =
  fixes spawn :: "interface_config list \<Rightarrow> 't list \<times> unit relay_result"
  assumes spawn_none: "spawn [] = ([], Inr ())"
    and spawn_append: "spawn (is @ js) =
      (case spawn is of
         (ts, Inl e) \<Rightarrow> (ts, Inl e)
       | (ts, Inr _) \<Rightarrow> (case spawn js of (us, r) \<Rightarrow> (ts @ us, r)))"
    and spawn_one: "spawn [i] = (us, r) \<Longrightarrow> length us \<le> 1 \<and> (\<forall>e. r = Inl e \<longrightarrow> us = [])"
begin

lemma spawn_snoc: "spawn xs = (ts, Inr ()) \<Longrightarrow> spawn [i] = (us, r) \<Longrightarrow> spawn (xs @ [i]) = (ts @ us, r)"
  using spawn_append [of xs "[i]"] by simp

lemma spawn_stops: "spawn xs = (ts, Inr ()) \<Longrightarrow> spawn [i] = (us, Inl e) \<Longrightarrow> spawn (xs @ i # js) = (ts, Inl e)"
  using spawn_snoc [of xs ts i us "Inl e"] spawn_append [of "xs @ [i]" js] spawn_one [of i us "Inl e"]
  by simp

lemma mapped: "task_spawner (\<lambda>xs. apfst (map h) (spawn xs))"
proof (unfold_locales, goal_cases)
  case (2 xs ys)
  show ?case unfolding spawn_append [of xs ys]
    by (cases "spawn xs"; cases "snd (spawn xs)"; cases "spawn ys") auto
next
  case (3 i us r)
  then show ?case using spawn_one [of i] by (cases "spawn [i]") auto
qed (simp add: spawn_none)

end

interpretation s4: task_spawner "spawn_v4_tasks udp ctx srv" for udp ctx srv
proof (unfold_locales, goal_cases)
  case (2 xs ys)
  show ?case by (induction xs) (auto simp: Let_def split: option.splits sum.splits prod.splits)
qed (auto simp: Let_def split: if_splits option.splits sum.splits)

interpretation s6: task_spawner "spawn_v6_tasks udp ctx srv" for udp ctx srv
proof (unfold_locales, goal_cases)
  case (2 xs ys)
  show ?case by (induction xs) (auto simp: Let_def split: option.splits sum.splits prod.splits)
qed (auto simp: Let_def split: if_splits option.splits sum.splits)

interpretation family: task_spawner "family_handlers A B udp config f" for A B udp config f
  by (cases f) (simp_all add: family_handlers_def [abs_def] s4.mapped s6.mapped)

lemma first_task_cases:
  assumes "first_task (family_handlers A B udp config f [i]) = res"
  shows "family_handlers A B udp config f [i] =
    (case res of Inl e \<Rightarrow> ([], Inl e) | Inr None \<Rightarrow> ([], Inr ()) | Inr (Some h) \<Rightarrow> ([h], Inr ()))"
proof -
  obtain us r where one: "family_handlers A B udp config f [i] = (us, r)" by fastforce
  from family.spawn_one [OF one] assms one show ?thesis
    by (cases us) (auto simp: first_task_def first_server_def split: sum.splits)
qed

text \<open>The handlers of the families before \<open>f\<close>, and of both.\<close>

definition handlers_before ::
    "('m, 'i, 'f) v4_api \<Rightarrow> 'n v6_api \<Rightarrow> bind_result \<Rightarrow> relay_config \<Rightarrow>
     family \<Rightarrow> handler list \<times> unit relay_result" where
  "handlers_before A B udp config f =
     (case f of
        Dhcp4 \<Rightarrow> ([], Inr ())
      | Dhcp6 \<Rightarrow> family_handlers A B udp config Dhcp4 (interfaces config))"

definition agent_handlers ::
    "('m, 'i, 'f) v4_api \<Rightarrow> 'n v6_api \<Rightarrow> bind_result \<Rightarrow> relay_config \<Rightarrow>
     handler list \<times> unit relay_result" where
  "agent_handlers A B udp config =
     (case family_handlers A B udp config Dhcp4 (interfaces config) of
        (hs, Inl e) \<Rightarrow> (hs, Inl e)
      | (hs, Inr _) \<Rightarrow>
         (case family_handlers A B udp config Dhcp6 (interfaces config) of (gs, r) \<Rightarrow> (hs @ gs, r)))"

lemma agent_handlers_spawn:
  "agent_handlers A B udp (ag_config agent) =
     (case agent_spawn udp agent of
        (t4, t6, r) \<Rightarrow> (map (v4_datagram A) t4 @ map (v6_datagram B) t6, r))"
  by (auto simp: agent_handlers_def family_handlers_def agent_spawn_def Let_def
      split: prod.splits sum.splits)

text \<open>Where the agent is in \<open>agent_spawn\<close>, and that its tasks are the ones spawned so far.\<close>

definition spawned_ok ::
    "('m, 'i, 'f) v4_api \<Rightarrow> 'n v6_api \<Rightarrow> bind_result \<Rightarrow> relay_config \<Rightarrow>
     'r phase \<Rightarrow> handler list \<Rightarrow> bool" where
  "spawned_ok A B udp config ph hs \<longleftrightarrow>
     (case ph of
        Pending f \<Rightarrow> handlers_before A B udp config f = (hs, Inr ())
      | Spawning f r rest \<Rightarrow>
          (\<exists>before pre gs. interfaces config = pre @ rest \<and> hs = before @ gs \<and>
             handlers_before A B udp config f = (before, Inr ()) \<and>
             family_handlers A B udp config f pre = (gs, Inr ()))
      | Waiting \<Rightarrow> agent_handlers A B udp config = (hs, Inr ())
      | Returned r \<Rightarrow> agent_handlers A B udp config = (hs, r))"

lemma spawned_ok_next:
  assumes "spawned_ok A B udp config (Spawning f r (iface # rest)) hs"
    and "family_handlers A B udp config f [iface] = (us, Inr ())"
  shows "spawned_ok A B udp config (Spawning f q rest) (hs @ us)"
proof -
  from assms(1) obtain before pre gs where *: "interfaces config = (pre @ [iface]) @ rest"
    "hs @ us = before @ gs @ us" "handlers_before A B udp config f = (before, Inr ())"
    "family_handlers A B udp config f pre = (gs, Inr ())"
    by (auto simp: spawned_ok_def)
  with family.spawn_snoc [OF *(4) assms(2)] show ?thesis unfolding spawned_ok_def by auto
qed

lemma spawned_ok_fail:
  assumes "spawned_ok A B udp config (Spawning f r (iface # rest)) hs"
    and "family_handlers A B udp config f [iface] = ([], Inl e)"
  shows "spawned_ok A B udp config (Returned (Inl e)) hs"
proof -
  from assms(1) obtain before pre gs where *: "interfaces config = pre @ iface # rest"
    "hs = before @ gs" "handlers_before A B udp config f = (before, Inr ())"
    "family_handlers A B udp config f pre = (gs, Inr ())"
    by (auto simp: spawned_ok_def)
  with family.spawn_stops [OF *(4) assms(2), of rest] show ?thesis
    by (cases f) (auto simp: spawned_ok_def agent_handlers_def handlers_before_def)
qed

lemma spawned_ok_done:
  "spawned_ok A B udp config (Spawning f r []) hs \<Longrightarrow> spawned_ok A B udp config (after_family f) hs"
  by (cases f) (auto simp: spawned_ok_def agent_handlers_def handlers_before_def)

lemma handles_update:
  "rn_handle y = rn_handle (ts ! i) \<Longrightarrow> map rn_handle (ts[i := y]) = map rn_handle ts"
  by (metis list_update_id map_update)

lemma spawned_ok_step:
  assumes "agent_step (agent_env_of W A B udp agent) s l s'"
    and "spawned_ok A B udp (ag_config agent) (as_phase s) (own_handles s)" "base_ok s"
  shows "spawned_ok A B udp (ag_config agent) (as_phase s') (own_handles s')"
  using assms(1)
proof cases
  case (subscribe f c r)
  with assms(2) show ?thesis by (auto simp: own_handles_def spawned_ok_def agent_env_of_def family.spawn_none)
next
  case (skip f r iface rest)
  then have "family_handlers A B udp (ag_config agent) f [iface] = ([], Inr ())"
    using first_task_cases [of A B udp "ag_config agent" f iface "Inr None"]
    by (simp add: agent_env_of_def)
  with assms(2) skip spawned_ok_next show ?thesis by (fastforce simp: own_handles_def)
next
  case (spawn f r iface rest h c q)
  then have "family_handlers A B udp (ag_config agent) f [iface] = ([h], Inr ())"
    using first_task_cases [of A B udp "ag_config agent" f iface "Inr (Some h)"]
    by (simp add: agent_env_of_def)
  with spawned_ok_next assms(2) spawn
  have "spawned_ok A B udp (ag_config agent) (Spawning f r rest) (own_handles s @ [h])" by metis
  moreover have "own_handles s' = own_handles s @ [h]"
    using spawn assms(3) by (simp add: own_handles_def base_ok_def)
  ultimately show ?thesis using spawn by simp
next
  case (fail f r iface rest e)
  then have "family_handlers A B udp (ag_config agent) f [iface] = ([], Inl e)"
    using first_task_cases [of A B udp "ag_config agent" f iface "Inl e"]
    by (simp add: agent_env_of_def)
  with assms(2) fail spawned_ok_fail show ?thesis by (fastforce simp: own_handles_def)
next
  case (wake i stop)
  with assms(2) show ?thesis by (simp add: task_wake_def Let_def own_handles_def handles_update)
next
  case (receive i t data src st out)
  with assms(2) show ?thesis by (simp add: own_handles_def handles_update)
qed (use assms(2) spawned_ok_done in \<open>auto simp: own_handles_def call_shutdown_def spawned_ok_def [of _ _ _ _ Waiting]
    spawned_ok_def [of _ _ _ _ "Returned _"]\<close>)

lemma spawned_ok_history:
  assumes "agent_history (agent_env_of W A B udp agent) s0 ls s" "run_called s0"
  shows "spawned_ok A B udp (ag_config agent) (as_phase s) (own_handles s) \<and> base_ok s"
  using assms
proof induction
  case start
  then show ?case
    by (auto simp: spawned_ok_def run_called_def own_handles_def base_ok_def handlers_before_def)
next
  case (step ls s l s')
  then show ?case using spawned_ok_step base_step [OF step.hyps(2)] by (fastforce simp: base_ok_def)
qed

end
