(* ===== verification/V4_Spec.thy ===== *)
theory V4_Spec
  imports V4_Pipeline
begin

text \<open>
  The abstract specification of the DHCPv4 request path and the refinement of the stages to it.
  The specification works on the view of the message and never encodes or decodes; a stage of
  the pipeline decodes the buffer, changes the message and encodes it again. The simulation
  relation \<open>carries\<close> says that the buffer decodes to a message with the abstract view. The only
  outcome that the specification does not predict is a \<open>Parse\<close> error, and that occurs only with
  an encoder that can fail.
\<close>

section \<open>The specification\<close>

record 'f v4_abs =
  ab_view :: "'f v4_view"
  ab_reforwarded :: bool
  ab_dst :: "socket_addr option"
  ab_trusted :: bool
  ab_metadata :: "string \<rightharpoonup> string"

type_synonym 'f v4_spec = "'f v4_abs \<Rightarrow> bool relay_result \<times> 'f v4_abs"

definition spec_parse :: "'f v4_spec" where
  "spec_parse a = (Inr True, a)"

definition spoof_error :: "ipv4addr \<Rightarrow> relay_error" where
  "spoof_error ip = GiaddrSpoof (''giaddr '' @ show_ipv4 ip @ '' matches local interface'')"

definition spec_validate :: "ipv4addr list \<Rightarrow> 'f v4_spec" where
  "spec_validate local_addrs a =
     (let g = vw_giaddr (ab_view a) in
      if g = IPV4_UNSPECIFIED then
        (Inr (vw_opt82 (ab_view a) = None \<or> ab_trusted a), a)
      else if g \<in> set local_addrs then (Inl (spoof_error g), a)
      else (Inr True, a\<lparr>ab_reforwarded := True\<rparr>))"

definition spec_insert82 :: "bytes option \<Rightarrow> bytes option \<Rightarrow> 'f v4_spec" where
  "spec_insert82 circuit remote a =
     (if ab_reforwarded a then (Inr True, a)
      else if circuit = None \<and> remote = None then (Inl (Config no_sub_option_msg), a)
      else if vw_opt82 (ab_view a) \<noteq> None then (Inl (Config already_present_msg), a)
      else (Inr True,
            a\<lparr>ab_view := (ab_view a)\<lparr>vw_opt82 := Some (relay_sub_options circuit remote)\<rparr>,
              ab_metadata := (ab_metadata a)(''option82_inserted'' \<mapsto> ''true'')\<rparr>))"

text \<open>The VSS pair put into a table of sub-options, replacing what has these codes.\<close>

definition with_vss :: "vss_config \<Rightarrow> 'f sub_options \<Rightarrow> 'f sub_options" where
  "with_vss cfg so =
     filter_mset (\<lambda>p. fst p \<noteq> VirtualSubnet \<and> fst p \<noteq> VirtualSubnetControl) so +
     {# (VirtualSubnet, UnknownRelayInfo VirtualSubnet (vss_type cfg # vss_info cfg)),
        (VirtualSubnetControl, UnknownRelayInfo VirtualSubnetControl []) #}"

definition spec_vss :: "vss_config option \<Rightarrow> 'f v4_spec" where
  "spec_vss vss a =
     (case vss of
        None \<Rightarrow> (Inr True, a)
      | Some cfg \<Rightarrow>
          if \<not> vss_enabled cfg then (Inr True, a)
          else (case validate_vss cfg of
                  Inl e \<Rightarrow> (Inl e, a)
                | Inr _ \<Rightarrow>
                    (Inr True,
                     a\<lparr>ab_view := (ab_view a)\<lparr>vw_opt82 :=
                                   map_option (with_vss cfg) (vw_opt82 (ab_view a))\<rparr>,
                       ab_metadata := (ab_metadata a)(''vss_inserted'' \<mapsto> ''true'')\<rparr>)))"

definition spec_giaddr :: "ipv4addr \<Rightarrow> 'f v4_spec" where
  "spec_giaddr ip a =
     (if ab_reforwarded a \<or> vw_giaddr (ab_view a) \<noteq> IPV4_UNSPECIFIED then (Inr True, a)
      else (Inr True, a\<lparr>ab_view := (ab_view a)\<lparr>vw_giaddr := ip\<rparr>\<rparr>))"

definition spec_forward :: "socket_addr \<Rightarrow> 'f v4_spec" where
  "spec_forward dest a = (Inr True, a\<lparr>ab_dst := Some dest\<rparr>)"

fun spec_run :: "'f v4_spec list \<Rightarrow> 'f v4_spec" where
  "spec_run [] a = (Inr True, a)"
| "spec_run (g # gs) a =
     (case g a of
        (Inr True, a') \<Rightarrow> spec_run gs a'
      | r \<Rightarrow> r)"

definition spec_request_steps ::
    "ipv4addr list \<Rightarrow> bytes option \<Rightarrow> bytes option \<Rightarrow> ipv4addr \<Rightarrow> socket_addr \<Rightarrow>
     vss_config option \<Rightarrow> bool \<Rightarrow> 'f v4_spec list" where
  "spec_request_steps local_addrs circuit remote iface_ip server vss enable82 =
     [spec_parse, spec_validate local_addrs] @
     (if enable82 then [spec_insert82 circuit remote] else []) @
     [spec_vss vss, spec_giaddr iface_ip, spec_forward server]"

section \<open>The simulation relation\<close>

definition carries :: "('m, 'i, 'f) v4_api \<Rightarrow> pipeline_ctx \<Rightarrow> 'f v4_abs \<Rightarrow> bool" where
  "carries A c a \<longleftrightarrow>
     (\<exists>m. v4_decode A (buffer c) = Inr m \<and> v4_view A m = ab_view a) \<and>
     is_reforwarded c = ab_reforwarded a \<and> dst_addr c = ab_dst a \<and>
     is_trusted_circuit c = ab_trusted a \<and> metadata c = ab_metadata a"

definition refines ::
    "('m, 'i, 'f) v4_api \<Rightarrow> (pipeline_ctx \<Rightarrow> stage_run) \<Rightarrow> 'f v4_spec \<Rightarrow> bool" where
  "refines A process spec \<longleftrightarrow>
     (\<forall>c a. carries A c a \<longrightarrow>
        (\<exists>r c'. process c = Some (r, c') \<and>
          (((\<exists>e. r = Inl (Parse e)) \<and> \<not> v4_encode_total A) \<or>
           (r = fst (spec a) \<and> carries A c' (snd (spec a))))))"

lemma refinesI:
  assumes "\<And>c a m. v4_decode A (buffer c) = Inr m \<Longrightarrow> v4_view A m = ab_view a \<Longrightarrow>
      carries A c a \<Longrightarrow>
      \<exists>r c'. process c = Some (r, c') \<and>
        (((\<exists>e. r = Inl (Parse e)) \<and> \<not> v4_encode_total A) \<or>
         (r = fst (spec a) \<and> carries A c' (snd (spec a))))"
  shows "refines A process spec"
  using assms unfolding refines_def by (metis carries_def)

text \<open>The decode/modify/encode step: what the closure does to the view happens to the buffer.\<close>

lemma modify_v4_refines:
  assumes ok: "dhcproto_v4_ok A" and c: "carries A c a"
    and dec: "v4_decode A (buffer c) = Inr m" and f: "f m = Inr m'"
    and can: "canonical_view (v4_view A m')"
  shows "(\<exists>e. modify_v4 A st f c = (Inl (Parse e), c) \<and> \<not> v4_encode_total A) \<or>
         (\<exists>b. modify_v4 A st f c = (Inr (), c\<lparr>buffer := b\<rparr>) \<and>
              carries A (c\<lparr>buffer := b\<rparr>) (a\<lparr>ab_view := v4_view A m'\<rparr>))"
proof (cases "v4_encode A m'")
  case (Inl e)
  then have "\<not> v4_encode_total A" by (metis Inl_Inr_False v4_encode_total_def)
  with Inl show ?thesis by (simp add: modify_v4_def modify_msg_def dec f)
next
  case (Inr b)
  from encode_decode [OF ok can Inr] obtain m''
    where "v4_decode A b = Inr m''" "v4_view A m'' = v4_view A m'" .
  with Inr c show ?thesis
    by (auto simp: modify_v4_def modify_msg_def dec f carries_def)
qed

lemma modify_then_refines:
  assumes "dhcproto_v4_ok A" "carries A c a" "v4_decode A (buffer c) = Inr m" "f m = Inr m'"
    and "canonical_view (v4_view A m')"
    and "\<And>b. carries A (c\<lparr>buffer := b\<rparr>) (a\<lparr>ab_view := v4_view A m'\<rparr>) \<Longrightarrow>
           carries A (rest (c\<lparr>buffer := b\<rparr>)) a'"
  shows "\<exists>r c'. modify_then (modify_v4 A st f c) rest = Some (r, c') \<and>
           (((\<exists>e. r = Inl (Parse e)) \<and> \<not> v4_encode_total A) \<or> (r = Inr True \<and> carries A c' a'))"
  using modify_v4_refines [where f = f and st = st, OF assms(1-5)] assms(6) by auto

section \<open>The stages refine their specifications\<close>

lemma parse_refines: "dhcproto_v4_ok A \<Longrightarrow> refines A (v4_parse_process A) spec_parse"
  by (rule refinesI)
    (auto simp: v4_parse_process_def spec_parse_def intro!: modify_then_refines
      dest: decode_canonical)

lemma validate_refines:
  assumes "dhcproto_v4_ok A"
  shows "refines A (validate_process A ls) (spec_validate ls)"
proof (rule refinesI)
  fix c a m
  assume dec: "v4_decode A (buffer c) = Inr m" and v: "v4_view A m = ab_view a"
    and c: "carries A c a"
  have [simp]: "vw_giaddr (ab_view a) = v4_giaddr A m" "vw_opt82 (ab_view a) = opt82_of A m"
    "ab_trusted a = is_trusted_circuit c"
    using v c by (simp_all add: carries_def flip: v)
  have "carries A (c\<lparr>is_reforwarded := True\<rparr>) (a\<lparr>ab_reforwarded := True\<rparr>)"
    using c by (simp add: carries_def)
  with c show "\<exists>r c'. validate_process A ls c = Some (r, c') \<and>
        (((\<exists>e. r = Inl (Parse e)) \<and> \<not> v4_encode_total A) \<or>
         (r = fst (spec_validate ls a) \<and> carries A c' (snd (spec_validate ls a))))"
    by (auto simp: validate_process_def dec spec_validate_def giaddr_validate_def
        contains_iff_opt82 [OF assms] spoof_error_def Let_def)
qed

lemma insert82_refines:
  assumes ok: "dhcproto_v4_ok A"
  shows "refines A (option82_insert_process A ci ri) (spec_insert82 ci ri)"
proof (rule refinesI)
  fix c a m
  assume dec: "v4_decode A (buffer c) = Inr m" and v: "v4_view A m = ab_view a"
    and c: "carries A c a"
  have o: "vw_opt82 (ab_view a) = opt82_of A m" by (simp flip: v)
  have ref: "ab_reforwarded a = is_reforwarded c" using c by (simp add: carries_def)
  show "\<exists>r c'. option82_insert_process A ci ri c = Some (r, c') \<and>
        (((\<exists>e. r = Inl (Parse e)) \<and> \<not> v4_encode_total A) \<or>
         (r = fst (spec_insert82 ci ri a) \<and> carries A c' (snd (spec_insert82 ci ri a))))"
  proof (cases "is_reforwarded c")
    case True
    with c ref show ?thesis by (simp add: option82_insert_process_def spec_insert82_def)
  next
    case False
    show ?thesis
    proof (cases "option82_insert A m ci ri")
      case (Inl e)
      then have "fst (spec_insert82 ci ri a) = Inl e \<and> snd (spec_insert82 ci ri a) = a"
        using False ref o by (auto simp: spec_insert82_def option82_insert_Inl [OF ok])
      with Inl c False show ?thesis
        by (simp add: option82_insert_process_def modify_v4_def modify_msg_def dec)
    next
      case (Inr m')
      note ins = option82_insert_Inr [OF ok Inr]
      have ids: "\<not> (ci = None \<and> ri = None)"
        using Inr by (auto simp: option82_insert_def split: if_splits)
      let ?v = "(ab_view a)\<lparr>vw_opt82 := Some (relay_sub_options ci ri)\<rparr>"
      let ?a = "a\<lparr>ab_view := ?v,
                  ab_metadata := (ab_metadata a)(''option82_inserted'' \<mapsto> ''true'')\<rparr>"
      have spec: "spec_insert82 ci ri a = (Inr True, ?a)"
        using False ref o ins ids by (auto simp: spec_insert82_def)
      have "\<exists>r c'. option82_insert_process A ci ri c = Some (r, c') \<and>
          (((\<exists>e. r = Inl (Parse e)) \<and> \<not> v4_encode_total A) \<or> (r = Inr True \<and> carries A c' ?a))"
        unfolding option82_insert_process_def using False
        by simp (rule modify_then_refines [where f = "\<lambda>m. option82_insert A m ci ri",
              OF ok c dec Inr], auto simp: ins v carries_def relay_sub_options_canonical)
      then show ?thesis by (simp add: spec)
    qed
  qed
qed

lemma view_add_vss:
  assumes ok: "dhcproto_v4_ok A"
  shows "v4_view A (add_vss_sub_opts A (vss_type cfg # vss_info cfg) m) =
    (v4_view A m)\<lparr>vw_opt82 := map_option (with_vss cfg) (opt82_of A m)\<rparr>"
  using ok
proof (cases rule: opt82_cases [of A m])
  case absent
  then show ?thesis by (simp add: add_vss_sub_opts_def v4_view_def)
next
  case (present i)
  then show ?thesis
    by (simp add: add_vss_sub_opts_def view_write [OF ok] relay_iter_insert [OF ok]
        sub_put_def relay_codes [OF ok] with_vss_def filter_filter_mset add_mset_commute)
qed

lemma with_vss_canonical:
  "\<forall>p \<in># so. canonical_info (snd p) \<Longrightarrow> p \<in># with_vss cfg so \<Longrightarrow> canonical_info (snd p)"
  by (auto simp: with_vss_def)

lemma vss_refines:
  assumes ok: "dhcproto_v4_ok A"
  shows "refines A (vss_insert_process A cfg) (spec_vss (Some cfg))"
proof (rule refinesI)
  fix c a m
  assume dec: "v4_decode A (buffer c) = Inr m" and v: "v4_view A m = ab_view a"
    and c: "carries A c a"
  have o: "vw_opt82 (ab_view a) = opt82_of A m" by (simp flip: v)
  have can: "canonical_view (v4_view A m)" by (rule decode_canonical [OF ok dec])
  let ?a = "a\<lparr>ab_view := (ab_view a)\<lparr>vw_opt82 := map_option (with_vss cfg) (opt82_of A m)\<rparr>,
              ab_metadata := (ab_metadata a)(''vss_inserted'' \<mapsto> ''true'')\<rparr>"
  show "\<exists>r c'. vss_insert_process A cfg c = Some (r, c') \<and>
        (((\<exists>e. r = Inl (Parse e)) \<and> \<not> v4_encode_total A) \<or>
         (r = fst (spec_vss (Some cfg) a) \<and> carries A c' (snd (spec_vss (Some cfg) a))))"
  proof (cases "vss_enabled cfg")
    case False
    with c show ?thesis by (simp add: vss_insert_process_def spec_vss_def)
  next
    case True
    show ?thesis
    proof (cases "encode_sub_opts cfg")
      case (Inl e)
      with True c show ?thesis
        by (simp add: vss_insert_process_def spec_vss_def encode_sub_opts_Inl [THEN iffD1])
    next
      case (Inr p)
      then obtain d ctl where p: "encode_sub_opts cfg = Inr (d, ctl)" by (cases p) auto
      then have valid: "validate_vss cfg = Inr ()"
        by (simp add: encode_sub_opts_Inr validate_vss_iff)
      let ?f = "\<lambda>msg. Inr (add_vss_sub_opts A (vss_type cfg # vss_info cfg) msg)"
      have canonical: "canonical_view (v4_view A (add_vss_sub_opts A (vss_type cfg # vss_info cfg) m))"
        using can with_vss_canonical
        by (cases "opt82_of A m") (auto simp: view_add_vss [OF ok] canonical_view_def)
      have "\<exists>r c'. vss_insert_process A cfg c = Some (r, c') \<and>
          (((\<exists>e. r = Inl (Parse e)) \<and> \<not> v4_encode_total A) \<or> (r = Inr True \<and> carries A c' ?a))"
        unfolding vss_insert_process_def using True
        by (simp add: p encode_sub_opts_payload [OF p])
          (rule modify_then_refines [where f = ?f, OF ok c dec refl canonical],
           simp add: view_add_vss [OF ok] v carries_def)
      then show ?thesis using True by (simp add: spec_vss_def valid o)
    qed
  qed
qed

lemma giaddr_refines:
  assumes ok: "dhcproto_v4_ok A"
  shows "refines A (giaddr_process A ip) (spec_giaddr ip)"
proof (rule refinesI)
  fix c a m
  assume dec: "v4_decode A (buffer c) = Inr m" and v: "v4_view A m = ab_view a"
    and c: "carries A c a"
  let ?f = "\<lambda>msg. if v4_giaddr A msg = IPV4_UNSPECIFIED then v4_set_giaddr A msg ip else msg"
  have can: "canonical_view (v4_view A (?f m))"
    using decode_canonical [OF ok dec] by (simp add: view_set_giaddr [OF ok])
  have g: "vw_giaddr (ab_view a) = v4_giaddr A m" by (simp flip: v)
  have ref: "ab_reforwarded a = is_reforwarded c" using c by (simp add: carries_def)
  show "\<exists>r c'. giaddr_process A ip c = Some (r, c') \<and>
        (((\<exists>e. r = Inl (Parse e)) \<and> \<not> v4_encode_total A) \<or>
         (r = fst (spec_giaddr ip a) \<and> carries A c' (snd (spec_giaddr ip a))))"
  proof (cases "is_reforwarded c")
    case True
    with c ref show ?thesis by (simp add: giaddr_process_def spec_giaddr_def)
  next
    case False
    have "snd (spec_giaddr ip a) = a\<lparr>ab_view := v4_view A (?f m)\<rparr>"
      using False ref by (simp add: spec_giaddr_def g view_set_giaddr [OF ok] v)
    moreover have "fst (spec_giaddr ip a) = Inr True" by (simp add: spec_giaddr_def)
    moreover have "\<exists>r c'. modify_then (modify_v4 A ''dhcpv4::giaddr'' (\<lambda>msg. Inr (?f msg)) c)
          (\<lambda>c. c) = Some (r, c') \<and> (((\<exists>e. r = Inl (Parse e)) \<and> \<not> v4_encode_total A) \<or>
          (r = Inr True \<and> carries A c' (a\<lparr>ab_view := v4_view A (?f m)\<rparr>)))"
      by (rule modify_then_refines [where f = "\<lambda>msg. Inr (?f msg)", OF ok c dec refl can])
    ultimately show ?thesis using False by (simp only: giaddr_process_def if_False)
  qed
qed

lemma forward_refines: "refines A (v4_forward_process d) (spec_forward d)"
  by (rule refinesI) (auto simp: v4_forward_process_def spec_forward_def carries_def)

section \<open>Composition\<close>

lemma refines_run:
  "list_all2 (\<lambda>st g. refines A (stage_process st) g) sts gs \<Longrightarrow>
   refines A (execute_stages sts) (spec_run gs)"
proof (induction rule: list_all2_induct)
  case Nil
  then show ?case by (simp add: refines_def)
next
  case (Cons st sts g gs)
  show ?case
    unfolding refines_def
  proof (intro allI impI)
    fix c a assume "carries A c a"
    with Cons.hyps(1) obtain r c' where p: "stage_process st c = Some (r, c')"
      and r: "((\<exists>e. r = Inl (Parse e)) \<and> \<not> v4_encode_total A) \<or>
              (r = fst (g a) \<and> carries A c' (snd (g a)))"
      unfolding refines_def by blast
    obtain q a' where ga: "g a = (q, a')" by (cases "g a")
    from Cons.IH p r ga
    show "\<exists>r c'. execute_stages (st # sts) c = Some (r, c') \<and>
        (((\<exists>e. r = Inl (Parse e)) \<and> \<not> v4_encode_total A) \<or>
         (r = fst (spec_run (g # gs) a) \<and> carries A c' (snd (spec_run (g # gs) a))))"
      unfolding refines_def by (cases q) (auto split: bool.splits)
  qed
qed

lemma spec_run_append:
  "spec_run (xs @ ys) a = (case spec_run xs a of (Inr True, a') \<Rightarrow> spec_run ys a' | r \<Rightarrow> r)"
  by (induction xs arbitrary: a) (auto split: prod.splits sum.splits bool.splits)

lemma request_refines:
  assumes "dhcproto_v4_ok A"
  shows "refines A (execute (build_request_v4 A ls ci ri ip srv vss en82))
           (spec_run (spec_request_steps ls ci ri ip srv vss en82))"
proof -
  have drop_vss: "spec_run (xs @ spec_vss None # ys) = (spec_run (xs @ ys) :: 'c v4_spec)" for xs ys
    by (auto simp: fun_eq_iff spec_run_append spec_vss_def
        split: prod.splits sum.splits bool.splits)
  show ?thesis
    unfolding build_request_v4_def execute_with_stages spec_request_steps_def
    using assms drop_vss [of "spec_parse # spec_validate ls #
        (if en82 then [spec_insert82 ci ri] else [])" "[spec_giaddr ip, spec_forward srv]"]
    by (cases vss)
      (auto intro!: refines_run simp del: spec_run.simps
        intro: parse_refines validate_refines insert82_refines vss_refines giaddr_refines
          forward_refines)
qed

end
