(* ===== verification/V4_Sample.thy ===== *)
theory V4_Sample
  imports Dhcp_V4_Api "HOL-Library.List_Lexorder" "HOL-Library.Product_Lexorder"
begin

text \<open>
  A concrete instance of the \<open>dhcproto\<close> interface that satisfies the laws of \<open>dhcproto_v4_ok\<close>,
  with an encoder that never fails and an iteration in the order of the codes. It shows that the hypotheses of the DHCPv4 theorems can
  hold together and is the instance their witnesses use; it is no model of the crate. A message
  is its two addresses, its type and its list of raw sub-options; on the wire a byte string is
  written byte by byte, each byte after a 1, with a 0 at the end.
\<close>

type_synonym raw_sub = "byte \<times> bytes"
type_synonym sample_msg = "ipv4addr \<times> ipv4addr \<times> byte \<times> raw_sub list option"

fun code_raw :: "relay_code \<Rightarrow> bytes" where
  "code_raw AgentCircuitIdCode = [0, 0]"
| "code_raw AgentRemoteIdCode = [1, 0]"
| "code_raw VirtualSubnet = [2, 0]"
| "code_raw VirtualSubnetControl = [3, 0]"
| "code_raw (OtherRelayCode b) = [4, b]"

definition raw_code :: "byte \<Rightarrow> byte \<Rightarrow> relay_code" where
  "raw_code k b =
     (if k = 0 then AgentCircuitIdCode else if k = 1 then AgentRemoteIdCode
      else if k = 2 then VirtualSubnet else if k = 3 then VirtualSubnetControl
      else OtherRelayCode b)"

fun info_raw :: "byte relay_info \<Rightarrow> raw_sub" where
  "info_raw (AgentCircuitId d) = (0, d)"
| "info_raw (AgentRemoteId d) = (1, d)"
| "info_raw (DocsisDeviceClass w) = (2, be32 w)"
| "info_raw (LinkSelection a) = (3, ipv4_octets a)"
| "info_raw (SubscriberId d) = (4, d)"
| "info_raw (RelayAgentFlags f) = (5, [f])"
| "info_raw (ServerIdentifierOverride a) = (6, ipv4_octets a)"
| "info_raw (UnknownRelayInfo c d) = (7, code_raw c @ d)"

fun ipv4_of_bytes :: "bytes \<Rightarrow> ipv4addr" where
  "ipv4_of_bytes [a, b, c, d] = Ipv4Addr a b c d"
| "ipv4_of_bytes _ = IPV4_UNSPECIFIED"

definition raw_info :: "raw_sub \<Rightarrow> byte relay_info" where
  "raw_info r =
     (let d = snd r in
      if fst r = 0 then AgentCircuitId d else if fst r = 1 then AgentRemoteId d
      else if fst r = 2 then DocsisDeviceClass (of_nat (be_nat d))
      else if fst r = 3 then LinkSelection (ipv4_of_bytes d)
      else if fst r = 4 then SubscriberId d
      else if fst r = 5 then RelayAgentFlags (hd d)
      else if fst r = 6 then ServerIdentifierOverride (ipv4_of_bytes d)
      else UnknownRelayInfo (raw_code (hd d) (hd (tl d))) (drop 2 d))"

lemma ipv4_of_octets [simp]: "ipv4_of_bytes (ipv4_octets a) = a"
  by (cases a) simp

lemma unat_u32_less: "unat (w :: u32) < 4294967296"
proof -
  have "unat w < 2 ^ LENGTH(32)" by (rule unsigned_less)
  then show ?thesis by simp
qed

lemma be_nat_be32 [simp]: "be_nat (be32 w) = unat w"
  using unat_u32_less [of w] by (simp add: be32_def be_nat_to_be)

lemma raw_info_raw [simp]: "raw_info (info_raw x) = x"
proof (cases x)
  case (UnknownRelayInfo c d)
  then show ?thesis by (cases c) (simp_all add: raw_info_def raw_code_def)
qed (simp_all add: raw_info_def)

fun sample_info_code :: "byte relay_info \<Rightarrow> relay_code" where
  "sample_info_code (AgentCircuitId d) = AgentCircuitIdCode"
| "sample_info_code (AgentRemoteId d) = AgentRemoteIdCode"
| "sample_info_code (DocsisDeviceClass w) = OtherRelayCode 4"
| "sample_info_code (LinkSelection a) = OtherRelayCode 5"
| "sample_info_code (SubscriberId d) = OtherRelayCode 6"
| "sample_info_code (RelayAgentFlags f) = OtherRelayCode 10"
| "sample_info_code (ServerIdentifierOverride a) = OtherRelayCode 11"
| "sample_info_code (UnknownRelayInfo c d) = c"

fun sample_code_u8 :: "relay_code \<Rightarrow> byte" where
  "sample_code_u8 AgentCircuitIdCode = 1"
| "sample_code_u8 AgentRemoteIdCode = 2"
| "sample_code_u8 VirtualSubnet = 151"
| "sample_code_u8 VirtualSubnetControl = 152"
| "sample_code_u8 (OtherRelayCode b) = b"

fun sample_type :: "byte \<Rightarrow> v4_message_type option" where
  "sample_type t =
     (if t = 0 then None else if t = 1 then Some Discover else if t = 3 then Some Request
      else if t = 4 then Some Decline else if t = 7 then Some Release
      else if t = 8 then Some Inform else Some (OtherV4MessageType t))"

definition sample_iter :: "raw_sub list \<Rightarrow> (relay_code \<times> byte relay_info) list" where
  "sample_iter i =
     map (\<lambda>r. (sample_info_code (raw_info r), raw_info r)) (sort (map (\<lambda>r. info_raw (raw_info r)) i))"

lemma mset_sample_iter:
  "mset (sample_iter i) =
     mset (map (\<lambda>r. (sample_info_code (raw_info r), raw_info r)) i)"
  by (simp add: sample_iter_def multiset.map_comp comp_def)

lemma sample_iter_ordered:
  assumes "mset (sample_iter i) = mset (sample_iter j)"
  shows "sample_iter i = sample_iter j"
proof -
  from assms have "image_mset (\<lambda>p. info_raw (snd p)) (mset (sample_iter i)) =
      image_mset (\<lambda>p. info_raw (snd p)) (mset (sample_iter j))" by simp
  then have "mset (map (\<lambda>r. info_raw (raw_info r)) i) = mset (map (\<lambda>r. info_raw (raw_info r)) j)"
    by (simp add: mset_sample_iter multiset.map_comp comp_def)
  then have "sort (map (\<lambda>r. info_raw (raw_info r)) i) = sort (map (\<lambda>r. info_raw (raw_info r)) j)"
    by (simp only: sorted_list_of_multiset_mset [symmetric])
  then show ?thesis by (simp only: sample_iter_def)
qed

definition sample_insert :: "raw_sub list \<Rightarrow> byte relay_info \<Rightarrow> raw_sub list" where
  "sample_insert i x =
     filter (\<lambda>r. sample_info_code (raw_info r) \<noteq> sample_info_code x) i @ [info_raw x]"

section \<open>Wire format\<close>

fun put_bytes :: "bytes \<Rightarrow> bytes" where
  "put_bytes [] = [0]"
| "put_bytes (b # bs) = 1 # b # put_bytes bs"

fun get_bytes :: "bytes \<Rightarrow> (bytes \<times> bytes) option" where
  "get_bytes (k # r) =
     (if k = 0 then Some ([], r)
      else case r of [] \<Rightarrow> None
           | b # r' \<Rightarrow> map_option (\<lambda>(d, rest). (b # d, rest)) (get_bytes r'))"
| "get_bytes [] = None"

fun put_subs :: "raw_sub list \<Rightarrow> bytes" where
  "put_subs [] = [0]"
| "put_subs ((t, d) # l) = 1 # t # put_bytes d @ put_subs l"

lemma get_put_bytes [simp]: "get_bytes (put_bytes d @ r) = Some (d, r)"
  by (induction d) auto

lemma get_bytes_shorter: "get_bytes bs = Some (d, r) \<Longrightarrow> length r < length bs"
  by (induction bs arbitrary: d r rule: get_bytes.induct) (fastforce split: if_splits list.splits)+

function get_subs :: "bytes \<Rightarrow> raw_sub list option" where
  "get_subs bs =
     (case bs of
        k # t # r \<Rightarrow>
          if k = 0 then Some []
          else (case get_bytes r of None \<Rightarrow> None
                | Some (d, rest) \<Rightarrow> map_option (\<lambda>l. (t, d) # l) (get_subs rest))
      | _ \<Rightarrow> Some [])"
  by pat_completeness auto
termination
  by (relation "measure length") (auto dest!: get_bytes_shorter)

declare get_subs.simps [simp del]

lemma get_put_subs [simp]: "get_subs (put_subs l) = Some l"
proof (induction l rule: put_subs.induct)
  case 1
  then show ?case by (simp add: get_subs.simps)
next
  case (2 t d l)
  then show ?case by (simp add: get_subs.simps [of "1 # _"])
qed

fun sample_encode :: "sample_msg \<Rightarrow> string + bytes" where
  "sample_encode (g, c, t, opt) =
     Inr (ipv4_octets g @ ipv4_octets c @ t #
          (case opt of None \<Rightarrow> [] | Some l \<Rightarrow> 82 # put_subs l))"

fun sample_opt :: "bytes \<Rightarrow> string + raw_sub list option" where
  "sample_opt [] = Inr None"
| "sample_opt (k # r) =
     (case get_subs r of
        None \<Rightarrow> Inl ''truncated''
      | Some l \<Rightarrow>
          if list_all (\<lambda>s. canonical_info (raw_info s)) l then Inr (Some l)
          else Inl ''sub-option'')"

fun sample_decode :: "bytes \<Rightarrow> string + sample_msg" where
  "sample_decode (a # b # c # d # e # f # g # h # t # r) =
     (case sample_opt r of
        Inl e \<Rightarrow> Inl e
      | Inr opt \<Rightarrow> Inr (Ipv4Addr a b c d, Ipv4Addr e f g h, t, opt))"
| "sample_decode _ = Inl ''too short''"

definition sample_get :: "sample_msg \<Rightarrow> v4_option_code \<Rightarrow> raw_sub list v4_option option" where
  "sample_get m k =
     (case m of (g, c, t, opt) \<Rightarrow>
        if k = RelayAgentInformationCode then map_option RelayAgentInformation opt else None)"

fun sample_put :: "sample_msg \<Rightarrow> raw_sub list v4_option \<Rightarrow> sample_msg" where
  "sample_put (g, c, t, opt) (RelayAgentInformation i) = (g, c, t, Some i)"
| "sample_put m OtherV4Option = m"

definition sample_v4 :: "(sample_msg, raw_sub list, byte) v4_api" where
  "sample_v4 =
     \<lparr> v4_decode = sample_decode, v4_encode = sample_encode,
       v4_giaddr = (\<lambda>(g, c, t, opt). g),
       v4_set_giaddr = (\<lambda>(g, c, t, opt) ip. (ip, c, t, opt)),
       v4_ciaddr = (\<lambda>(g, c, t, opt). c),
       v4_msg_type = (\<lambda>(g, c, t, opt). sample_type t),
       v4_contains = (\<lambda>m k. sample_get m k \<noteq> None),
       v4_get = sample_get,
       v4_insert = sample_put,
       v4_remove = (\<lambda>(g, c, t, opt) k.
          if k = RelayAgentInformationCode
          then ((g, c, t, None), map_option RelayAgentInformation opt)
          else ((g, c, t, opt), None)),
       v4_write = (\<lambda>m k opt. sample_put m opt),
       relay_default = [], relay_insert = sample_insert, relay_iter = sample_iter,
       relay_info_code = sample_info_code, relay_code_u8 = sample_code_u8 \<rparr>"

lemma sample_v4_sel [simp]:
  "v4_decode sample_v4 = sample_decode" "v4_encode sample_v4 = sample_encode"
  "v4_giaddr sample_v4 (g, c, t, opt) = g" "v4_ciaddr sample_v4 (g, c, t, opt) = c"
  "v4_set_giaddr sample_v4 (g, c, t, opt) ip = (ip, c, t, opt)"
  "v4_msg_type sample_v4 (g, c, t, opt) = sample_type t"
  "v4_contains sample_v4 m k = (sample_get m k \<noteq> None)"
  "v4_get sample_v4 = sample_get" "v4_insert sample_v4 = sample_put"
  "v4_remove sample_v4 (g, c, t, opt) RelayAgentInformationCode =
     ((g, c, t, None), map_option RelayAgentInformation opt)"
  "v4_write sample_v4 m k opt' = sample_put m opt'"
  "relay_default sample_v4 = []" "relay_insert sample_v4 = sample_insert"
  "relay_iter sample_v4 = sample_iter" "relay_info_code sample_v4 = sample_info_code"
  "relay_code_u8 sample_v4 = sample_code_u8"
  by (simp_all add: sample_v4_def)

lemma sample_opt82 [simp]:
  "opt82_of sample_v4 (g, c, t, opt) = map_option (\<lambda>i. mset (sample_iter i)) opt"
  by (cases opt) (simp_all add: opt82_of_def sample_get_def)

lemma sample_view:
  "v4_view sample_v4 (g, c, t, opt) =
     \<lparr> vw_giaddr = g, vw_ciaddr = c, vw_type = sample_type t,
       vw_opt82 = map_option (\<lambda>i. mset (sample_iter i)) opt \<rparr>"
  by (simp add: v4_view_def)

section \<open>The laws hold\<close>

lemma sample_iter_insert:
  "mset (sample_iter (sample_insert i x)) =
     filter_mset (\<lambda>p. fst p \<noteq> sample_info_code x) (mset (sample_iter i)) +
     {# (sample_info_code x, x) #}"
  by (induction i) (auto simp: mset_sample_iter sample_insert_def)

lemma sample_relay_info_ok: "relay_info_ok sample_v4"
  by (simp add: relay_info_ok_def sub_put_def sample_iter_insert) (simp add: sample_iter_def)

lemma sample_fields_ok: "v4_fields_ok sample_v4"
  by (auto simp: v4_fields_ok_def sample_view sample_get_def)

lemma sample_canonical:
  "canonical_view (v4_view sample_v4 (g, c, t, opt)) \<longleftrightarrow>
     (case opt of None \<Rightarrow> True | Some l \<Rightarrow> list_all (\<lambda>s. canonical_info (raw_info s)) l)"
  by (cases opt) (auto simp: canonical_view_def mset_sample_iter list_all_iff)

lemma sample_round_trip:
  assumes "canonical_view (v4_view sample_v4 m)" "sample_encode m = Inr b"
  shows "sample_decode b = Inr m"
proof -
  obtain g c t opt where m: "m = (g, c, t, opt)" by (cases m)
  obtain g0 g1 g2 g3 c0 c1 c2 c3 where "g = Ipv4Addr g0 g1 g2 g3" "c = Ipv4Addr c0 c1 c2 c3"
    by (cases g; cases c)
  with assms m show ?thesis
    by (cases opt) (auto simp: sample_canonical)
qed

lemma sample_opt_canonical:
  "sample_opt r = Inr (Some l) \<Longrightarrow> list_all (\<lambda>s. canonical_info (raw_info s)) l"
  by (cases r) (auto split: option.splits if_splits)

lemma sample_decode_canonical:
  assumes "sample_decode b = Inr m"
  shows "canonical_view (v4_view sample_v4 m)"
proof -
  obtain g c t opt where m: "m = (g, c, t, opt)" by (cases m)
  have "\<exists>r. sample_opt r = Inr opt"
    using assms unfolding m by (elim sample_decode.elims) (auto split: sum.splits)
  then show ?thesis
    by (cases opt) (auto simp: m sample_canonical dest: sample_opt_canonical)
qed

lemma sample_v4_ok: "dhcproto_v4_ok sample_v4"
proof -
  have "v4_codec_ok sample_v4"
    unfolding v4_codec_ok_def sample_v4_sel
    using sample_decode_canonical sample_round_trip by blast
  then show ?thesis
    by (simp only: dhcproto_v4_ok_def sample_relay_info_ok sample_fields_ok)
qed

lemma sample_v4_total: "v4_encode_total sample_v4"
  by (auto simp: v4_encode_total_def)

end
