(* ===== verification/V4_Request.thy ===== *)
theory V4_Request
  imports V4_Spec V4_Sample
begin

text \<open>
  The DHCPv4 request path: what the client-to-server pipeline does with a packet, read off the
  abstract specification that it refines. \<open>relay_request\<close> runs the pipeline on a received
  datagram as the handler does.
\<close>

definition relay_request ::
    "('m, 'i, 'f) v4_api \<Rightarrow> ipv4addr list \<Rightarrow> bytes option \<Rightarrow> bytes option \<Rightarrow> ipv4addr \<Rightarrow>
     socket_addr \<Rightarrow> vss_config option \<Rightarrow> bool \<Rightarrow> bytes \<Rightarrow> socket_addr \<Rightarrow> string \<Rightarrow> stage_run" where
  "relay_request A ls ci ri ip srv vss en82 data src iface =
     execute (build_request_v4 A ls ci ri ip srv vss en82) (ctx_new data src iface)"

definition initial_abs :: "'f v4_view \<Rightarrow> 'f v4_abs" where
  "initial_abs v =
     \<lparr> ab_view = v, ab_reforwarded = False, ab_dst = None, ab_trusted = False,
       ab_metadata = Map.empty \<rparr>"

lemma initial_abs_sel [simp]:
  "ab_view (initial_abs v) = v" "ab_reforwarded (initial_abs v) = False"
  "ab_dst (initial_abs v) = None" "ab_trusted (initial_abs v) = False"
  by (simp_all add: initial_abs_def)

lemma carries_initial:
  "v4_decode A data = Inr m \<Longrightarrow> carries A (ctx_new data src iface) (initial_abs (v4_view A m))"
  by (simp add: carries_def initial_abs_def)

lemma relay_request_refines:
  assumes "dhcproto_v4_ok A" "v4_decode A data = Inr m"
  obtains r c' where "relay_request A ls ci ri ip srv vss en82 data src iface = Some (r, c')"
    and "((\<exists>e. r = Inl (Parse e)) \<and> \<not> v4_encode_total A) \<or>
         (r = fst (spec_run (spec_request_steps ls ci ri ip srv vss en82)
                     (initial_abs (v4_view A m))) \<and>
          carries A c' (snd (spec_run (spec_request_steps ls ci ri ip srv vss en82)
                     (initial_abs (v4_view A m)))))"
proof -
  from request_refines [OF assms(1), of ls ci ri ip srv vss en82, unfolded refines_def,
      rule_format, OF carries_initial [OF assms(2), of src iface]]
  show thesis
    unfolding relay_request_def [symmetric] by (elim exE conjE) (rule that)
qed

section \<open>The specification in closed form\<close>

lemma ab_upd_commute [simp]:
  "ab_view (a\<lparr>ab_metadata := x\<rparr>) = ab_view a" by simp

definition vss_valid :: "vss_config option \<Rightarrow> bool" where
  "vss_valid vss \<longleftrightarrow> (\<forall>cfg. vss = Some cfg \<longrightarrow> vss_enabled cfg \<longrightarrow> vss_ok cfg)"

definition vss_subs :: "vss_config option \<Rightarrow> 'f sub_options \<Rightarrow> 'f sub_options" where
  "vss_subs vss so =
     (case vss of Some cfg \<Rightarrow> if vss_enabled cfg then with_vss cfg so else so | None \<Rightarrow> so)"

definition vss_view :: "vss_config option \<Rightarrow> 'f v4_view \<Rightarrow> 'f v4_view" where
  "vss_view vss v = v\<lparr>vw_opt82 := map_option (vss_subs vss) (vw_opt82 v)\<rparr>"

lemma vss_view_sel [simp]:
  "vw_giaddr (vss_view vss v) = vw_giaddr v" "vw_ciaddr (vss_view vss v) = vw_ciaddr v"
  "vw_type (vss_view vss v) = vw_type v"
  "vw_opt82 (vss_view vss v) = map_option (vss_subs vss) (vw_opt82 v)"
  by (simp_all add: vss_view_def)

lemma vss_view_off [simp]:
  "vss_view None v = v"
  "\<not> vss_enabled cfg \<Longrightarrow> vss_view (Some cfg) v = v"
  by (cases "vw_opt82 v"; simp add: vss_view_def vss_subs_def)+

lemma vss_view_on [simp]:
  "vss_enabled cfg \<Longrightarrow>
   vss_view (Some cfg) v = v\<lparr>vw_opt82 := map_option (with_vss cfg) (vw_opt82 v)\<rparr>"
  by (cases "vw_opt82 v"; simp add: vss_view_def vss_subs_def)

lemma spec_vss_ok:
  assumes "vss_valid vss"
  obtains md where "spec_vss vss a =
    (Inr True, a\<lparr>ab_view := vss_view vss (ab_view a), ab_metadata := md\<rparr>)"
proof (cases vss)
  case None
  then show ?thesis by (intro that [of "ab_metadata a"]) (simp add: spec_vss_def)
next
  case (Some cfg)
  show ?thesis
  proof (cases "vss_enabled cfg")
    case True
    with assms Some have "validate_vss cfg = Inr ()"
      by (simp add: vss_valid_def validate_vss_iff)
    with Some True show ?thesis
      by (intro that [of "(ab_metadata a)(''vss_inserted'' \<mapsto> ''true'')"])
        (simp add: spec_vss_def)
  next
    case False
    with Some show ?thesis
      by (intro that [of "ab_metadata a"]) (simp add: spec_vss_def)
  qed
qed

lemma spec_vss_invalid:
  assumes "\<not> vss_valid vss" shows "\<exists>e. spec_vss vss a = (Inl e, a)"
proof -
  from assms obtain cfg where "vss = Some cfg" "vss_enabled cfg" "\<not> vss_ok cfg"
    by (auto simp: vss_valid_def)
  then show ?thesis
    using unit_sum_cases [of "validate_vss cfg"]
    by (auto simp: spec_vss_def validate_vss_iff [symmetric])
qed

lemma request_spec_unfold:
  "spec_run (spec_request_steps ls ci ri ip srv vss en82) a =
     (case spec_validate ls a of
        (Inr True, a1) \<Rightarrow>
          (case (if en82 then spec_insert82 ci ri a1 else (Inr True, a1)) of
             (Inr True, a2) \<Rightarrow>
               (case spec_vss vss a2 of
                  (Inr True, a3) \<Rightarrow>
                    (Inr True, (snd (spec_giaddr ip a3))\<lparr>ab_dst := Some srv\<rparr>)
                | r \<Rightarrow> r)
           | r \<Rightarrow> r)
      | r \<Rightarrow> r)"
  by (auto simp: spec_request_steps_def spec_parse_def spec_giaddr_def spec_forward_def
      split: prod.splits sum.splits bool.splits)

section \<open>Outcomes of the specification\<close>

lemma spec_spoof:
  assumes "vw_giaddr v \<noteq> IPV4_UNSPECIFIED" "vw_giaddr v \<in> set ls"
  shows "spec_run (spec_request_steps ls ci ri ip srv vss en82) (initial_abs v) =
    (Inl (spoof_error (vw_giaddr v)), initial_abs v)"
  using assms by (simp add: request_spec_unfold spec_validate_def Let_def)

lemma spec_untrusted:
  assumes "vw_giaddr v = IPV4_UNSPECIFIED" "vw_opt82 v \<noteq> None"
  shows "spec_run (spec_request_steps ls ci ri ip srv vss en82) (initial_abs v) =
    (Inr False, initial_abs v)"
  using assms by (auto simp: request_spec_unfold spec_validate_def Let_def)

lemma spec_no_ids:
  assumes "vw_giaddr v = IPV4_UNSPECIFIED" "vw_opt82 v = None"
  shows "spec_run (spec_request_steps ls None None ip srv vss True) (initial_abs v) =
    (Inl (Config no_sub_option_msg), initial_abs v)"
  using assms by (simp add: request_spec_unfold spec_validate_def spec_insert82_def Let_def)

text \<open>The view a first relay sends out.\<close>

definition first_relay_view ::
    "bytes option \<Rightarrow> bytes option \<Rightarrow> ipv4addr \<Rightarrow> vss_config option \<Rightarrow> bool \<Rightarrow>
     'f v4_view \<Rightarrow> 'f v4_view" where
  "first_relay_view ci ri ip vss en82 v =
     (vss_view vss (if en82 then v\<lparr>vw_opt82 := Some (relay_sub_options ci ri)\<rparr> else v))
       \<lparr>vw_giaddr := ip\<rparr>"

lemma spec_first_relay:
  assumes "vw_giaddr v = IPV4_UNSPECIFIED" "vw_opt82 v = None"
    and "en82 \<Longrightarrow> ci \<noteq> None \<or> ri \<noteq> None" and "vss_valid vss"
  obtains a where "spec_run (spec_request_steps ls ci ri ip srv vss en82) (initial_abs v) = (Inr True, a)"
    and "ab_view a = first_relay_view ci ri ip vss en82 v" and "ab_dst a = Some srv"
proof -
  define a1 :: "'a v4_abs" where "a1 = (if en82 then snd (spec_insert82 ci ri (initial_abs v)) else initial_abs v)"
  have a1: "(if en82 then spec_insert82 ci ri (initial_abs v) else (Inr True, initial_abs v)) = (Inr True, a1)"
    and v1: "ab_view a1 = (if en82 then v\<lparr>vw_opt82 := Some (relay_sub_options ci ri)\<rparr> else v)"
    and "\<not> ab_reforwarded a1"
    using assms(2,3) by (auto simp: a1_def spec_insert82_def)
  moreover obtain md where "spec_vss vss a1 =
      (Inr True, a1\<lparr>ab_view := vss_view vss (ab_view a1), ab_metadata := md\<rparr>)"
    by (rule spec_vss_ok [OF assms(4)])
  ultimately show ?thesis
    using assms(1,2)
    by (intro that) (auto simp: request_spec_unfold spec_validate_def Let_def spec_giaddr_def
        first_relay_view_def)
qed

lemma spec_reforwarded:
  assumes "vw_giaddr v \<noteq> IPV4_UNSPECIFIED" "vw_giaddr v \<notin> set ls" "vss_valid vss"
  obtains a where "spec_run (spec_request_steps ls ci ri ip srv vss en82) (initial_abs v) = (Inr True, a)"
    and "ab_view a = vss_view vss v" and "ab_dst a = Some srv"
proof -
  obtain md where "spec_vss vss ((initial_abs v)\<lparr>ab_reforwarded := True\<rparr>) =
      (Inr True, (initial_abs v)\<lparr>ab_reforwarded := True, ab_view := vss_view vss v, ab_metadata := md\<rparr>)"
    using spec_vss_ok [OF assms(3), of "(initial_abs v)\<lparr>ab_reforwarded := True\<rparr>"] by auto
  then show ?thesis
    using assms(1,2)
    by (intro that) (auto simp: request_spec_unfold spec_validate_def Let_def spec_giaddr_def
        spec_insert82_def)
qed

text \<open>Every outcome of the specification, by the state of the packet.\<close>

lemma spec_forwarded_cases:
  assumes "spec_run (spec_request_steps ls ci ri ip srv vss en82) (initial_abs v) = (Inr True, a)"
  shows "ab_dst a = Some srv \<and> vss_valid vss \<and>
    ((vw_giaddr v = IPV4_UNSPECIFIED \<and> vw_opt82 v = None \<and>
      (en82 \<longrightarrow> ci \<noteq> None \<or> ri \<noteq> None) \<and> ab_view a = first_relay_view ci ri ip vss en82 v) \<or>
     (vw_giaddr v \<noteq> IPV4_UNSPECIFIED \<and> vw_giaddr v \<notin> set ls \<and> ab_view a = vss_view vss v))"
proof -
  have valid: "vss_valid vss"
  proof (rule ccontr)
    assume "\<not> vss_valid vss"
    then have "spec_vss vss x \<noteq> (Inr b, y)" for x y :: "'a v4_abs" and b
      using spec_vss_invalid [of vss x] by auto
    with assms show False
      by (auto simp: request_spec_unfold split: prod.splits sum.splits bool.splits if_splits)
  qed
  show ?thesis
  proof (cases "vw_giaddr v = IPV4_UNSPECIFIED")
    case True
    show ?thesis
    proof (cases "vw_opt82 v")
      case (Some so)
      with assms True show ?thesis by (simp add: spec_untrusted)
    next
      case None
      have ids: "ci \<noteq> None \<or> ri \<noteq> None" if en82
        using that assms spec_no_ids [OF True None, of ls ip srv vss] by (cases ci; cases ri) auto
      with spec_first_relay [OF True None ids valid] assms True None valid
      show ?thesis by (metis Pair_inject)
    qed
  next
    case False
    show ?thesis
    proof (cases "vw_giaddr v \<in> set ls")
      case True
      with assms False show ?thesis by (simp add: spec_spoof)
    next
      case not_local: False
      from spec_reforwarded [OF False not_local valid] assms False not_local valid
      show ?thesis by (metis Pair_inject)
    qed
  qed
qed


section \<open>Outcomes of the pipeline\<close>

lemma request_outcome:
  assumes "dhcproto_v4_ok A" "v4_decode A data = Inr m"
  shows "\<exists>r c'. relay_request A ls ci ri ip srv vss en82 data src iface = Some (r, c') \<and>
    (let (r', a) = spec_run (spec_request_steps ls ci ri ip srv vss en82)
                     (initial_abs (v4_view A m)) in
     ((\<exists>e. r = Inl (Parse e)) \<and> \<not> v4_encode_total A) \<or>
     (r = r' \<and> dst_addr c' = ab_dst a \<and> is_reforwarded c' = ab_reforwarded a \<and>
      (\<exists>m'. v4_decode A (buffer c') = Inr m' \<and> v4_view A m' = ab_view a)))"
  by (rule relay_request_refines [OF assms, of ls ci ri ip srv vss en82 src iface])
    (auto simp: carries_def Let_def case_prod_beta)

lemma total_forward:
  assumes "dhcproto_v4_ok A" "v4_encode_total A" "v4_decode A data = Inr m"
    and "spec_run (spec_request_steps ls ci ri ip srv vss en82) (initial_abs (v4_view A m)) = (r, a)"
  obtains c' m' where "relay_request A ls ci ri ip srv vss en82 data src iface = Some (r, c')"
    and "dst_addr c' = ab_dst a" and "v4_decode A (buffer c') = Inr m'"
    and "v4_view A m' = ab_view a"
  using request_outcome [OF assms(1,3), of ls ci ri ip srv vss en82 src iface] assms(2,4)
  by force


text \<open>Whatever is refused by the specification is refused by the pipeline, with any encoder.\<close>

lemma refused:
  assumes "dhcproto_v4_ok A" "v4_decode A data = Inr m"
    and "fst (spec_run (spec_request_steps ls ci ri ip srv vss en82) (initial_abs (v4_view A m)))
           \<noteq> Inr True"
  shows "\<exists>r c'. relay_request A ls ci ri ip srv vss en82 data src iface = Some (r, c') \<and> r \<noteq> Inr True"
  using request_outcome [OF assms(1,2), of ls ci ri ip srv vss en82 src iface] assms(3)
  by (auto simp: Let_def case_prod_beta)

lemma forwarded_request:
  assumes "dhcproto_v4_ok A" "v4_decode A data = Inr m"
    and "relay_request A ls ci ri ip srv vss en82 data src iface = Some (Inr True, c')"
  obtains m' where "v4_decode A (buffer c') = Inr m'" "dst_addr c' = Some srv" "vss_valid vss"
    and "(v4_giaddr A m = IPV4_UNSPECIFIED \<and> opt82_of A m = None \<and>
          v4_view A m' = first_relay_view ci ri ip vss en82 (v4_view A m)) \<or>
         (v4_giaddr A m \<noteq> IPV4_UNSPECIFIED \<and> v4_giaddr A m \<notin> set ls \<and>
          v4_view A m' = vss_view vss (v4_view A m))"
proof -
  obtain q a where run: "spec_run (spec_request_steps ls ci ri ip srv vss en82)
      (initial_abs (v4_view A m)) = (q, a)"
    by fastforce
  with request_outcome [OF assms(1,2), of ls ci ri ip srv vss en82 src iface] assms(3)
  obtain m' where "q = Inr True" "dst_addr c' = ab_dst a"
    and m': "v4_decode A (buffer c') = Inr m'" "v4_view A m' = ab_view a"
    by auto
  with spec_forwarded_cases [of ls ci ri ip srv vss en82 "v4_view A m" a] run show thesis
    by (intro that [OF m'(1)]) auto
qed

lemma view_eqD:
  assumes "v4_view A m = w"
  shows "v4_giaddr A m = vw_giaddr w" "v4_ciaddr A m = vw_ciaddr w"
    "v4_msg_type A m = vw_type w" "opt82_of A m = vw_opt82 w"
  using assms by auto

lemma first_relay_forwarded:
  assumes "dhcproto_v4_ok A" "v4_encode_total A" "v4_decode A data = Inr m"
    and "v4_giaddr A m = IPV4_UNSPECIFIED" "\<not> v4_contains A m RelayAgentInformationCode"
    and "en82 \<Longrightarrow> ci \<noteq> None \<or> ri \<noteq> None" "vss_valid vss"
  shows "\<exists>c' m'. relay_request A ls ci ri ip srv vss en82 data src iface = Some (Inr True, c') \<and>
    dst_addr c' = Some srv \<and> v4_decode A (buffer c') = Inr m' \<and> v4_giaddr A m' = ip \<and>
    opt82_of A m' = (if en82 then Some (vss_subs vss (relay_sub_options ci ri)) else None) \<and>
    v4_ciaddr A m' = v4_ciaddr A m \<and> v4_msg_type A m' = v4_msg_type A m"
proof -
  have o: "opt82_of A m = None" using assms(1,5) by (simp add: contains_iff_opt82)
  with assms(4,6,7) obtain a where
    run: "spec_run (spec_request_steps ls ci ri ip srv vss en82) (initial_abs (v4_view A m)) = (Inr True, a)"
    and a: "ab_view a = first_relay_view ci ri ip vss en82 (v4_view A m)" "ab_dst a = Some srv"
    using spec_first_relay [of "v4_view A m" en82 ci ri vss ls ip srv thesis] by auto
  from total_forward [OF assms(1-3) run, of src iface] obtain c' m'
    where c': "relay_request A ls ci ri ip srv vss en82 data src iface = Some (Inr True, c')"
      "dst_addr c' = ab_dst a" "v4_decode A (buffer c') = Inr m'" and v: "v4_view A m' = ab_view a"
    by auto
  from arg_cong [OF v, of vw_giaddr] arg_cong [OF v, of vw_opt82] arg_cong [OF v, of vw_ciaddr]
    arg_cong [OF v, of vw_type] a c' o
  show ?thesis by (auto simp: first_relay_view_def)
qed

section \<open>Properties of the request path\<close>

text \<open>
  C1: the request pipeline refines its specification. On a datagram that decodes, the pipeline
  does not panic, and its result and the message in its buffer are those of the specification run
  on the view of the decoded message; the only other outcome is a \<open>Parse\<close> error, and only when
  the encoder can fail.
\<close>

theorem request_pipeline_refines_spec:
  assumes "dhcproto_v4_ok A" "v4_decode A data = Inr m"
  shows "\<exists>r c'. relay_request A ls ci ri ip srv vss en82 data src iface = Some (r, c') \<and>
    (let (r', a) = spec_run (spec_request_steps ls ci ri ip srv vss en82)
                     (initial_abs (v4_view A m)) in
     ((\<exists>e. r = Inl (Parse e)) \<and> \<not> v4_encode_total A) \<or>
     (r = r' \<and> dst_addr c' = ab_dst a \<and> is_reforwarded c' = ab_reforwarded a \<and>
      (\<exists>m'. v4_decode A (buffer c') = Inr m' \<and> v4_view A m' = ab_view a)))"
  by (rule request_outcome [OF assms])

definition sample_discover :: bytes where
  "sample_discover = [0, 0, 0, 0, 0, 0, 0, 0, 1]"

definition sample_server :: socket_addr where
  "sample_server = SocketAddrV4 (Ipv4Addr 10 0 0 100) 67"

lemma sample_discover_decodes:
  "v4_decode sample_v4 sample_discover = Inr (IPV4_UNSPECIFIED, IPV4_UNSPECIFIED, 1, None)"
  by (simp add: sample_discover_def IPV4_UNSPECIFIED_def)

theorem request_pipeline_refines_spec_witness:
  "\<exists>r c'. relay_request sample_v4 [Ipv4Addr 10 0 0 1] (Some [101]) None (Ipv4Addr 10 0 0 1)
            sample_server None True sample_discover sample_server ''eth0'' = Some (r, c') \<and>
     r = Inr True \<and> dst_addr c' = Some sample_server"
  using request_pipeline_refines_spec [OF sample_v4_ok sample_discover_decodes,
      of "[Ipv4Addr 10 0 0 1]" "Some [101]" None "Ipv4Addr 10 0 0 1" sample_server None True
      sample_server "''eth0''"]
  by (auto simp: sample_v4_total request_spec_unfold spec_validate_def spec_insert82_def
      spec_vss_def sample_view spec_giaddr_def Let_def split: prod.splits)

text \<open>
  A first relay packet (no relay address, no Option 82) is forwarded to the server, with the
  interface address as relay address, the configured circuit and remote identifiers as its
  Option 82 when that is enabled (and the VSS pair in it when VSS is enabled), and its client
  address and message type unchanged.
\<close>

lemma first_relay_request_forwarded:
  assumes "dhcproto_v4_ok A" "v4_encode_total A" "v4_decode A data = Inr m"
    and "v4_giaddr A m = IPV4_UNSPECIFIED" "\<not> v4_contains A m RelayAgentInformationCode"
    and "en82 \<Longrightarrow> ci \<noteq> None \<or> ri \<noteq> None" "vss_valid vss"
  shows "\<exists>c' m'. relay_request A ls ci ri ip srv vss en82 data src iface = Some (Inr True, c') \<and>
    dst_addr c' = Some srv \<and> v4_decode A (buffer c') = Inr m' \<and> v4_giaddr A m' = ip \<and>
    opt82_of A m' = (if en82 then Some (vss_subs vss (relay_sub_options ci ri)) else None) \<and>
    v4_ciaddr A m' = v4_ciaddr A m \<and> v4_msg_type A m' = v4_msg_type A m"
  using assms by (rule first_relay_forwarded)

text \<open>
  A packet whose relay address is one of the relay's own is never forwarded, whatever the
  configuration, and with an encoder that succeeds the error names the spoofed address.
\<close>

lemma spoofed_request_never_forwarded:
  assumes "dhcproto_v4_ok A" "v4_decode A data = Inr m"
    and "v4_giaddr A m \<noteq> IPV4_UNSPECIFIED" "v4_giaddr A m \<in> set ls"
  shows "\<exists>r c'. relay_request A ls ci ri ip srv vss en82 data src iface = Some (r, c') \<and>
    (if v4_encode_total A then r = Inl (spoof_error (v4_giaddr A m)) else \<exists>e. r = Inl e)"
  using request_outcome [OF assms(1,2), of ls ci ri ip srv vss en82 src iface] assms(3,4)
  by (auto simp: spec_spoof Let_def)

definition sample_spoof :: bytes where
  "sample_spoof = [10, 0, 0, 1, 0, 0, 0, 0, 1]"

text \<open>
  C31: a packet without a relay address that already carries Option 82 is never forwarded: the
  circuit is untrusted in every run of the pipeline, because no stage and no constructor of the
  context sets the trust flag.
\<close>

theorem untrusted_circuit_never_forwarded:
  assumes "dhcproto_v4_ok A" "v4_decode A data = Inr m"
    and "v4_giaddr A m = IPV4_UNSPECIFIED" "v4_contains A m RelayAgentInformationCode"
  shows "\<exists>r c'. relay_request A ls ci ri ip srv vss en82 data src iface = Some (r, c') \<and>
    r \<noteq> Inr True \<and> (v4_encode_total A \<longrightarrow> r = Inr False) \<and> \<not> is_trusted_circuit c'"
proof -
  have "opt82_of A m \<noteq> None" using assms(1,4) by (simp add: contains_iff_opt82)
  with request_outcome [OF assms(1,2), of ls ci ri ip srv vss en82 src iface] assms(3)
  obtain r c' where r: "relay_request A ls ci ri ip srv vss en82 data src iface = Some (r, c')"
    "r \<noteq> Inr True" "v4_encode_total A \<longrightarrow> r = Inr False"
    by (auto simp: spec_untrusted Let_def)
  moreover have "same_origin (ctx_new data src iface) c'"
    using r(1) by (simp add: relay_request_def execute_def v4_request.keeps_origin)
  ultimately show ?thesis by (auto simp: same_origin_def)
qed

definition sample_foreign82 :: bytes where
  "sample_foreign82 = [0, 0, 0, 0, 0, 0, 0, 0, 1, 82, 0]"

theorem untrusted_circuit_never_forwarded_witness:
  "\<exists>c'. relay_request sample_v4 [] (Some [101]) None (Ipv4Addr 10 0 0 1)
      sample_server None True sample_foreign82 sample_server ''eth0'' = Some (Inr False, c')"
proof -
  have "get_subs [0] = Some []" by (simp add: get_subs.simps)
  then have "v4_decode sample_v4 sample_foreign82 = Inr (IPV4_UNSPECIFIED, IPV4_UNSPECIFIED, 1, Some [])"
    by (simp add: sample_foreign82_def IPV4_UNSPECIFIED_def)
  from untrusted_circuit_never_forwarded [OF sample_v4_ok this, of "[]" "Some [101]" None
      "Ipv4Addr 10 0 0 1" sample_server None True sample_server "''eth0''"]
  show ?thesis by (auto simp: sample_v4_total sample_get_def)
qed



definition sample_relayed :: bytes where
  "sample_relayed = [172, 16, 0, 1, 0, 0, 0, 0, 1]"


text \<open>
  With Option 82 enabled and neither identifier configured, which is the default
  configuration, no first relay packet is forwarded: the insertion refuses it.
\<close>

lemma no_identifiers_no_first_relay:
  assumes "dhcproto_v4_ok A" "v4_decode A data = Inr m"
    and "v4_giaddr A m = IPV4_UNSPECIFIED"
  shows "\<exists>r c'. relay_request A ls None None ip srv vss True data src iface = Some (r, c') \<and>
    r \<noteq> Inr True \<and>
    (v4_encode_total A \<and> \<not> v4_contains A m RelayAgentInformationCode \<longrightarrow>
       r = Inl (Config no_sub_option_msg))"
proof (cases "opt82_of A m")
  case None
  then show ?thesis
    using request_outcome [OF assms(1,2), of ls None None ip srv vss True src iface] assms(3)
    by (auto simp: spec_no_ids Let_def)
next
  case (Some so)
  then show ?thesis
    using request_outcome [OF assms(1,2), of ls None None ip srv vss True src iface] assms(1,3)
    by (auto simp: spec_untrusted Let_def contains_iff_opt82)
qed



end
