(* ===== verification/V4_Reply.thy ===== *)
theory V4_Reply
  imports V4_Request
begin

text \<open>
  The DHCPv4 reply path: what the server-to-client pipeline does with a packet. The echo check
  compares lists in the order in which the agent information is iterated, so its outcome is
  stated on the multiset of sub-options, and on the list for an interface whose iteration order
  depends on the content only (\<open>ordered_iteration\<close>).
\<close>

definition relay_reply ::
    "('m, 'i, 'f) v4_api \<Rightarrow> sub_option list option \<Rightarrow> vss_config option \<Rightarrow> bool \<Rightarrow> bytes \<Rightarrow>
     socket_addr \<Rightarrow> string \<Rightarrow> stage_run" where
  "relay_reply A expected vss en82 data src iface =
     execute (build_reply_v4 A expected vss en82) (ctx_new data src iface)"

text \<open>The sub-options a message carries, as an unordered collection of code and data.\<close>

definition carried_subs :: "('m, 'i, 'f) v4_api \<Rightarrow> 'm \<Rightarrow> sub_option multiset option" where
  "carried_subs A m =
     map_option (image_mset (\<lambda>p. relay_info_to_sub_opt A (snd p))) (opt82_of A m)"

definition ordered_iteration :: "('m, 'i, 'f) v4_api \<Rightarrow> bool" where
  "ordered_iteration A \<longleftrightarrow>
     (\<forall>i j. mset (relay_iter A i) = mset (relay_iter A j) \<longrightarrow> relay_iter A i = relay_iter A j)"

section \<open>The stages on a decoded message\<close>

lemma modify_v4_runs:
  assumes "dhcproto_v4_ok A" "v4_decode A (buffer c) = Inr m" "f m = Inr m'"
    and "canonical_view (v4_view A m')"
  obtains (failed) e where "modify_v4 A st f c = (Inl (Parse e), c)" "\<not> v4_encode_total A"
  | (written) b m'' where "modify_v4 A st f c = (Inr (), c\<lparr>buffer := b\<rparr>)"
      "v4_decode A b = Inr m''" "v4_view A m'' = v4_view A m'"
proof (cases "v4_encode A m'")
  case (Inl e)
  then have "\<not> v4_encode_total A" by (metis Inl_Inr_False v4_encode_total_def)
  with Inl assms show ?thesis by (intro failed) (auto simp: modify_v4_def modify_msg_def)
next
  case (Inr b)
  from encode_decode [OF assms(1,4) Inr] obtain m''
    where "v4_decode A b = Inr m''" "v4_view A m'' = v4_view A m'" .
  with Inr assms show ?thesis by (intro written [of b m'']) (simp_all add: modify_v4_def modify_msg_def)
qed

lemma check_echo_None: "check_echo_and_strip A None m = Inr (fst (option82_strip A m))"
  by (simp add: check_echo_and_strip_def)

lemma check_echo_absent:
  "dhcproto_v4_ok A \<Longrightarrow> opt82_of A m = None \<Longrightarrow>
   check_echo_and_strip A (Some sent) m = Inl Option82Mismatch"
  by (cases rule: opt82_cases [of A m]) (simp_all add: check_echo_and_strip_def)

lemma check_echo_present:
  "v4_get A m RelayAgentInformationCode = Some (RelayAgentInformation i) \<Longrightarrow>
   check_echo_and_strip A (Some sent) m =
     (if sub_opts_of A i = sent then Inr (fst (option82_strip A m)) else Inl Option82Mismatch)"
  by (simp add: check_echo_and_strip_def validate_echo_iff)

lemma carried_subs_present:
  "v4_get A m RelayAgentInformationCode = Some (RelayAgentInformation i) \<Longrightarrow>
   carried_subs A m = Some (mset (sub_opts_of A i))"
  by (simp add: carried_subs_def opt82_of_def sub_opts_of_def case_prod_beta')

lemma carried_subs_view: "v4_view A m = v4_view A m' \<Longrightarrow> carried_subs A m = carried_subs A m'"
  by (simp add: carried_subs_def v4_view_def)

text \<open>The check either strips or reports a mismatch, and strips only the option it expects.\<close>

lemma check_echo_cases:
  assumes "dhcproto_v4_ok A"
  obtains (mismatch) sent where "check_echo_and_strip A expected m = Inl Option82Mismatch"
      "expected = Some sent"
  | (strip) "check_echo_and_strip A expected m = Inr (fst (option82_strip A m))"
      "\<forall>sent. expected = Some sent \<longrightarrow> carried_subs A m = Some (mset sent)"
proof (cases expected)
  case None
  then show ?thesis by (intro strip) (simp_all add: check_echo_None)
next
  case (Some sent)
  show ?thesis
    using assms
  proof (cases rule: opt82_cases [of A m])
    case absent
    with Some assms show ?thesis by (intro mismatch) (simp_all add: check_echo_absent)
  next
    case (present i)
    with Some show ?thesis
      by (cases "sub_opts_of A i = sent")
        (auto intro: mismatch strip simp: check_echo_present carried_subs_present)
  qed
qed

section \<open>The run of the reply pipeline\<close>

definition vss_check_stage :: "('m, 'i, 'f) v4_api \<Rightarrow> vss_config option \<Rightarrow> stage list" where
  "vss_check_stage A vss =
     (case vss of
        Some cfg \<Rightarrow> [\<lparr>stage_name = ''dhcpv4::vss::check'', stage_process = vss_check_process A cfg\<rparr>]
      | None \<Rightarrow> [])"

lemma vss_check_passes:
  assumes "v4_decode A (buffer c) = Inr m"
  shows "vss_check_process A cfg c = Some (Inr True, c)"
proof -
  have "vss_check_process A cfg c \<noteq> None" using vss_check_result by blast
  with assms show ?thesis
    by (auto simp: vss_check_process_def split: option.splits v4_option.splits)
qed

lemma vss_check_stage_skip:
  "v4_decode A (buffer c) = Inr m \<Longrightarrow>
   execute_stages (vss_check_stage A vss @ sts) c = execute_stages sts c"
  by (auto simp: vss_check_stage_def vss_check_passes split: option.splits)

lemma reply_addr_run:
  "v4_decode A (buffer c) = Inr m \<Longrightarrow>
   reply_addr_process A c = Some (Inr True, c\<lparr>dst_addr := Some (reply_client A m)\<rparr>)"
  by (simp add: reply_addr_process_def)

lemma reply_client_view: "v4_view A m = v4_view A m' \<Longrightarrow> reply_client A m = reply_client A m'"
  by (simp add: reply_client_def v4_view_def)

lemma build_reply_stages:
  "execute (build_reply_v4 A expected vss en82) =
   execute_stages ([\<lparr>stage_name = ''dhcpv4::parse'', stage_process = v4_parse_process A\<rparr>] @
     vss_check_stage A vss @
     (if en82 then [\<lparr>stage_name = ''dhcpv4::option82::strip'',
                      stage_process = option82_strip_process A expected\<rparr>] else []) @
     [\<lparr>stage_name = ''dhcpv4::reply_addr'', stage_process = reply_addr_process A\<rparr>])"
  by (simp add: build_reply_v4_def vss_check_stage_def)

text \<open>What the strip stage and the address stage make of a message \<open>m1\<close> in the buffer.\<close>

definition reply_outcome ::
    "('m, 'i, 'f) v4_api \<Rightarrow> sub_option list option \<Rightarrow> bool \<Rightarrow> 'm \<Rightarrow>
     bool relay_result \<times> pipeline_ctx \<Rightarrow> bool" where
  "reply_outcome A expected en82 m1 res \<longleftrightarrow>
     (let (r, c') = res in
      if en82 \<and> check_echo_and_strip A expected m1 = Inl Option82Mismatch
      then r = Inl Option82Mismatch
      else r = Inr True \<and> dst_addr c' = Some (reply_client A m1) \<and>
           (\<exists>m'. v4_decode A (buffer c') = Inr m' \<and>
                 v4_view A m' = (if en82 then (v4_view A m1)\<lparr>vw_opt82 := None\<rparr>
                                 else v4_view A m1)))"

lemma strip_run:
  assumes ok: "dhcproto_v4_ok A" and dec: "v4_decode A (buffer c) = Inr m1"
  obtains (failed) e c' where "execute_stages
      [\<lparr>stage_name = n, stage_process = option82_strip_process A expected\<rparr>,
       \<lparr>stage_name = n', stage_process = reply_addr_process A\<rparr>] c = Some (Inl (Parse e), c')"
      "\<not> v4_encode_total A"
  | (finished) res where "execute_stages
      [\<lparr>stage_name = n, stage_process = option82_strip_process A expected\<rparr>,
       \<lparr>stage_name = n', stage_process = reply_addr_process A\<rparr>] c = Some res"
      "reply_outcome A expected True m1 res"
  using ok
proof (cases rule: check_echo_cases [of A expected m1])
  case (mismatch sent)
  then show ?thesis
    using dec by (intro finished [of "(Inl Option82Mismatch, c)"])
      (simp_all add: option82_strip_process_def modify_v4_def modify_msg_def reply_outcome_def)
next
  case strip
  have can: "canonical_view (v4_view A (fst (option82_strip A m1)))"
    by (simp add: option82_strip_view [OF ok])
  from ok dec strip(1) can show ?thesis
  proof (cases rule: modify_v4_runs [where st = "''dhcpv4::option82::strip''"])
    case (failed e)
    then show ?thesis
      by (intro that(1) [of e c]) (simp_all add: option82_strip_process_def)
  next
    case (written b m'')
    have v: "v4_view A m'' = (v4_view A m1)\<lparr>vw_opt82 := None\<rparr>"
      using written(3) by (simp add: option82_strip_view [OF ok])
    then have "reply_client A m'' = reply_client A m1"
      using view_eqD(2) [OF v] by (simp add: reply_client_def)
    with written v strip show ?thesis
      by (intro finished [of "(Inr True, c\<lparr>buffer := b, dst_addr := Some (reply_client A m'')\<rparr>)"])
        (simp_all add: option82_strip_process_def reply_addr_run reply_outcome_def)
  qed
qed

lemma reply_run_at:
  assumes ok: "dhcproto_v4_ok A" and dec: "v4_decode A (buffer c) = Inr m"
  obtains (failed) e c' where "execute (build_reply_v4 A expected vss en82) c = Some (Inl (Parse e), c')"
      "\<not> v4_encode_total A"
  | (finished) m1 res where "execute (build_reply_v4 A expected vss en82) c = Some res"
      "v4_view A m1 = v4_view A m" "reply_outcome A expected en82 m1 res"
proof -
  have can: "canonical_view (v4_view A m)" by (rule decode_canonical [OF ok dec])
  from ok dec refl can show thesis
  proof (cases rule: modify_v4_runs [where st = "''dhcpv4::parse''" and f = "\<lambda>msg. Inr msg"])
    case (failed e)
    then show ?thesis
      by (intro that(1) [of e c]) (simp_all add: build_reply_stages v4_parse_process_def)
  next
    case (written b m1)
    define c1 where "c1 = c\<lparr>buffer := b\<rparr>"
    have d1: "v4_decode A (buffer c1) = Inr m1" using written by (simp add: c1_def)
    have run: "execute (build_reply_v4 A expected vss en82) c =
        execute_stages ((if en82 then [\<lparr>stage_name = ''dhcpv4::option82::strip'',
            stage_process = option82_strip_process A expected\<rparr>] else []) @
          [\<lparr>stage_name = ''dhcpv4::reply_addr'', stage_process = reply_addr_process A\<rparr>]) c1"
      using written(1)
      by (simp add: build_reply_stages v4_parse_process_def vss_check_stage_skip [OF d1] flip: c1_def)
    show ?thesis
    proof (cases en82)
      case False
      with run d1 written show ?thesis
        by (intro finished [of "(Inr True, c1\<lparr>dst_addr := Some (reply_client A m1)\<rparr>)" m1])
          (simp_all add: reply_addr_run reply_outcome_def)
    next
      case True
      from ok d1 show ?thesis
      proof (cases rule: strip_run [of A c1 m1 "''dhcpv4::option82::strip''" expected
            "''dhcpv4::reply_addr''"])
        case (failed e c')
        with run True show ?thesis by (intro that(1)) simp_all
      next
        case (finished res)
        with run True written show ?thesis by (intro that(2)) simp_all
      qed
    qed
  qed
qed

lemma reply_run:
  assumes "dhcproto_v4_ok A" "v4_decode A data = Inr m"
  obtains (failed) e c' where "relay_reply A expected vss en82 data src iface = Some (Inl (Parse e), c')"
      "\<not> v4_encode_total A"
  | (finished) m1 res where "relay_reply A expected vss en82 data src iface = Some res"
      "v4_view A m1 = v4_view A m" "reply_outcome A expected en82 m1 res"
proof -
  from assms(2) have "v4_decode A (buffer (ctx_new data src iface)) = Inr m" by simp
  with assms(1) show thesis
    by (cases rule: reply_run_at [of A _ m expected vss en82]) (auto simp: relay_reply_def intro: that)
qed

text \<open>The run when the expected sub-options were read from the reply itself.\<close>

lemma own_echo_run:
  assumes "dhcproto_v4_ok A" "v4_encode_total A" "ordered_iteration A" "v4_decode A data = Inr m"
    and "expected = None \<or> (\<exists>i. v4_get A m RelayAgentInformationCode = Some (RelayAgentInformation i) \<and>
      expected = Some (sub_opts_of A i))"
  shows "\<exists>c' m'. relay_reply A expected vss en82 data src iface = Some (Inr True, c') \<and>
    dst_addr c' = Some (reply_client A m) \<and> v4_decode A (buffer c') = Inr m' \<and>
    v4_view A m' = (if en82 then (v4_view A m)\<lparr>vw_opt82 := None\<rparr> else v4_view A m)"
  using assms(1,4)
proof (cases rule: reply_run [of A data m expected vss en82 src iface])
  case (failed e c'')
  with assms(2) show ?thesis by simp
next
  case (finished m1 res)
  have "check_echo_and_strip A expected m1 \<noteq> Inl Option82Mismatch"
    using assms(5)
  proof (elim disjE exE conjE)
    fix i assume i: "v4_get A m RelayAgentInformationCode = Some (RelayAgentInformation i)"
      and e: "expected = Some (sub_opts_of A i)"
    then have "opt82_of A m1 = Some (mset (relay_iter A i))"
      using view_eqD(4) [OF finished(2)] by (simp add: opt82_of_def)
    with assms(1,3) obtain j where "v4_get A m1 RelayAgentInformationCode = Some (RelayAgentInformation j)"
      and "relay_iter A j = relay_iter A i"
      by (cases rule: opt82_cases [of A m1]) (auto simp: ordered_iteration_def)
    then show ?thesis by (simp add: e check_echo_present sub_opts_of_def)
  qed (simp add: check_echo_None)
  moreover obtain r c' where "res = (r, c')" by (cases res)
  moreover have "reply_client A m1 = reply_client A m" by (rule reply_client_view [OF finished(2)])
  ultimately show ?thesis using finished by (auto simp: reply_outcome_def)
qed

section \<open>Properties of the reply path\<close>

text \<open>
  A reply that is relayed without an expected echo loses its Option 82 and nothing else: the
  relay address, client address and message type are those of the reply received, and it goes to
  the client's address or, when the reply has none, to the limited broadcast, port 68.
\<close>

lemma reply_stripped_and_addressed:
  assumes "dhcproto_v4_ok A" "v4_encode_total A" "v4_decode A data = Inr m"
  shows "\<exists>c' m'. relay_reply A None vss True data src iface = Some (Inr True, c') \<and>
    v4_decode A (buffer c') = Inr m' \<and> v4_view A m' = (v4_view A m)\<lparr>vw_opt82 := None\<rparr> \<and>
    dst_addr c' = Some (SocketAddrV4
      (if v4_ciaddr A m = IPV4_UNSPECIFIED then Ipv4Addr 255 255 255 255 else v4_ciaddr A m) 68)"
  using assms(1,3)
proof (cases rule: reply_run [of A data m None vss True src iface])
  case (failed e c')
  with assms(2) show ?thesis by simp
next
  case (finished m1 res)
  moreover have "v4_ciaddr A m1 = v4_ciaddr A m" using view_eqD(2) [OF finished(2)] by simp
  ultimately show ?thesis
    by (cases res)
      (auto simp: reply_outcome_def check_echo_None reply_client_def split: if_splits)
qed

definition sample_reply :: bytes where
  "sample_reply = [10, 0, 0, 1, 192, 168, 0, 7, 3, 82, 1, 0, 1, 101, 0, 0]"

lemma sample_reply_decodes:
  "v4_decode sample_v4 sample_reply =
     Inr (Ipv4Addr 10 0 0 1, Ipv4Addr 192 168 0 7, 3, Some [(0, [101])])"
  by (simp add: sample_reply_def get_subs.simps raw_info_def)

text \<open>
  C2: with any encoder, what the reply pipeline forwards carries no Option 82 when the option is
  enabled, and when an echo was expected, the reply received carried exactly the expected
  sub-options.
\<close>

theorem forwarded_reply_sound:
  assumes "dhcproto_v4_ok A" "v4_decode A data = Inr m"
    and "relay_reply A expected vss en82 data src iface = Some (Inr True, c')"
  shows "\<exists>m'. v4_decode A (buffer c') = Inr m' \<and>
    v4_giaddr A m' = v4_giaddr A m \<and> v4_ciaddr A m' = v4_ciaddr A m \<and>
    (en82 \<longrightarrow> \<not> v4_contains A m' RelayAgentInformationCode) \<and>
    (\<forall>sent. en82 \<and> expected = Some sent \<longrightarrow> carried_subs A m = Some (mset sent))"
  using assms(1,2)
proof (cases rule: reply_run [of A data m expected vss en82 src iface])
  case (failed e c'')
  with assms(3) show ?thesis by simp
next
  case (finished m1 res)
  with assms(3) have out: "reply_outcome A expected en82 m1 (Inr True, c')" by simp
  obtain m' where m': "v4_decode A (buffer c') = Inr m'"
    and v: "v4_view A m' = (if en82 then (v4_view A m1)\<lparr>vw_opt82 := None\<rparr> else v4_view A m1)"
    and ok: "en82 \<Longrightarrow> check_echo_and_strip A expected m1 \<noteq> Inl Option82Mismatch"
    using out by (auto simp: reply_outcome_def split: if_splits)
  have "carried_subs A m = Some (mset sent)" if "en82" "expected = Some sent" for sent
    using assms(1)
  proof (cases rule: check_echo_cases [of A expected m1])
    case strip
    then show ?thesis using that carried_subs_view [OF finished(2)] by simp
  qed (use ok that in simp)
  with m' view_eqD [OF v] view_eqD [OF finished(2)] show ?thesis
    by (intro exI [of _ m']) (auto simp: contains_iff_opt82 [OF assms(1)])
qed

theorem forwarded_reply_sound_witness:
  "\<exists>c' m'. relay_reply sample_v4 None None True sample_reply sample_server ''eth1'' =
      Some (Inr True, c') \<and> v4_decode sample_v4 (buffer c') = Inr m' \<and>
    \<not> v4_contains sample_v4 m' RelayAgentInformationCode"
  using sample_v4_ok sample_reply_decodes
proof (cases rule: reply_run [where expected = None and vss = None and src = sample_server and
      iface = "''eth1''" and ?en82.0 = True])
  case (failed e c')
  with sample_v4_total show ?thesis by simp
next
  case (finished m1 res)
  obtain r c' where "res = (r, c')" by (cases res)
  with finished have "relay_reply sample_v4 None None True sample_reply sample_server ''eth1'' =
      Some (Inr True, c')"
    by (simp add: reply_outcome_def check_echo_None)
  with forwarded_reply_sound [OF sample_v4_ok sample_reply_decodes this] show ?thesis by blast
qed

text \<open>
  C33: a reply whose sub-options differ from those expected (or that has no Option 82) is never
  forwarded, and with an encoder that succeeds the error is \<open>Option82Mismatch\<close>.
\<close>

theorem echo_mismatch_refused:
  assumes "dhcproto_v4_ok A" "v4_decode A data = Inr m"
    and "carried_subs A m \<noteq> Some (mset sent)"
  shows "\<exists>r c'. relay_reply A (Some sent) vss True data src iface = Some (r, c') \<and>
    (if v4_encode_total A then r = Inl Option82Mismatch else \<exists>e. r = Inl e)"
  using assms(1,2)
proof (cases rule: reply_run [of A data m "Some sent" vss True src iface])
  case (failed e c'')
  then show ?thesis by simp
next
  case (finished m1 res)
  have "check_echo_and_strip A (Some sent) m1 = Inl Option82Mismatch"
    using assms(1)
  proof (cases rule: check_echo_cases [of A "Some sent" m1])
    case strip
    with assms(3) carried_subs_view [OF finished(2)] show ?thesis by simp
  qed
  with finished show ?thesis by (cases res) (simp add: reply_outcome_def)
qed

theorem echo_mismatch_refused_witness:
  "\<exists>c'. relay_reply sample_v4 (Some [sub_option_new 1 [99]]) None True sample_reply sample_server
      ''eth1'' = Some (Inl Option82Mismatch, c')"
proof -
  have "carried_subs sample_v4 (Ipv4Addr 10 0 0 1, Ipv4Addr 192 168 0 7, 3, Some [(0, [101])]) \<noteq>
      Some (mset [sub_option_new 1 [99]])"
    by (simp add: carried_subs_def sample_iter_def sub_option_new_def raw_info_def)
  from echo_mismatch_refused [OF sample_v4_ok sample_reply_decodes this, of None sample_server "''eth1''"]
  show ?thesis by (auto simp: sample_v4_total)
qed

text \<open>
  The echo check can not fail when the expected sub-options are read from the very reply that
  is checked, as the agent does, provided the iteration order of the agent information depends
  on its content only. The check then says nothing about what was sent to the server.
\<close>

lemma own_echo_always_accepted:
  assumes "dhcproto_v4_ok A" "v4_encode_total A" "ordered_iteration A"
    and "v4_decode A data = Inr m"
    and "v4_get A m RelayAgentInformationCode = Some (RelayAgentInformation i)"
  shows "\<exists>c'. relay_reply A (Some (sub_opts_of A i)) vss en82 data src iface = Some (Inr True, c')"
  using own_echo_run [OF assms(1-4), of "Some (sub_opts_of A i)" vss en82 src iface] assms(5) by blast

end
