(* ===== verification/V4_Options.thy ===== *)
theory V4_Options
  imports V4_Spec V4_Sample
begin

text \<open>
  Properties of the DHCPv4 components on their own: Option 82 insertion against stripping, the VSS
  encoder against the scan for its echo, the report of the VSS check, the packet size check, and
  the absence of panics in the two pipelines.
\<close>

section \<open>Option 82\<close>

definition configured_subs :: "bytes option \<Rightarrow> bytes option \<Rightarrow> sub_option list" where
  "configured_subs circuit remote =
     (case circuit of None \<Rightarrow> [] | Some d \<Rightarrow> [sub_option_new 1 d]) @
     (case remote of None \<Rightarrow> [] | Some d \<Rightarrow> [sub_option_new 2 d])"

lemma relay_sub_options_subs:
  "image_mset (\<lambda>p. relay_info_to_sub_opt A (snd p)) (relay_sub_options ci ri) =
     mset (configured_subs ci ri)"
  by (auto simp: relay_sub_options_def configured_subs_def split: option.splits)

text \<open>
  What \<open>insert\<close> adds, \<open>strip\<close> removes and returns: stripping a message after a successful
  insertion gives back every field of the message, and the sub-options returned are the
  configured circuit and remote identifiers under codes 1 and 2.
\<close>

lemma option82_insert_strip:
  assumes "dhcproto_v4_ok A" "option82_insert A msg circuit remote = Inr msg'"
  shows "v4_view A (fst (option82_strip A msg')) = v4_view A msg \<and>
    map_option mset (snd (option82_strip A msg')) = Some (mset (configured_subs circuit remote)) \<and>
    configured_subs circuit remote \<noteq> []"
proof -
  note ins = option82_insert_Inr [OF assms]
  have o: "opt82_of A msg' = Some (relay_sub_options circuit remote)"
    using arg_cong [OF ins(1), of vw_opt82] by simp
  have "circuit \<noteq> None \<or> remote \<noteq> None"
    using assms(2) by (auto simp: option82_insert_def split: if_splits)
  then have "configured_subs circuit remote \<noteq> []"
    by (auto simp: configured_subs_def)
  moreover have "v4_view A (fst (option82_strip A msg')) = v4_view A msg"
    using ins(2) by (subst option82_strip_view [OF assms(1)]) (simp only: ins(1), simp add: v4_view_def)
  ultimately show ?thesis
    by (simp add: option82_strip_result [OF assms(1)] o relay_sub_options_subs)
qed

section \<open>VSS sub-options\<close>

text \<open>
  The scan of \<open>check_server_support\<close> never indexes out of bounds, whatever the bytes, and on a
  well-formed sequence of sub-options it answers that the server supports VSS exactly if no
  VSS-Control sub-option is in the sequence, however the values look.
\<close>

lemma server_support_scan:
  "check_server_support raw \<noteq> None \<and>
   (list_all tlv_ok ps \<longrightarrow>
      check_server_support (concat (map tlv ps)) = Some (VSS_CONTROL_SUBOPT_CODE \<notin> fst ` set ps))"
  unfolding check_server_support_def using check_from_total check_from_tlvs by blast

text \<open>
  The sub-options of the VSS encoder are read back by the scan. A server that echoes both is
  found not to support VSS, one that echoes only the first is found to support it; the encoder
  succeeds exactly on the configurations that validate.
\<close>

lemma vss_echo_detected:
  assumes "vss_ok vss" "length (vss_info vss) < 255"
  shows "\<exists>d c. encode_sub_opts vss = Inr (d, c) \<and>
    check_server_support (d @ c) = Some False \<and> check_server_support d = Some True \<and>
    d = [151, of_nat (1 + length (vss_info vss)), vss_type vss] @ vss_info vss"
proof -
  obtain d c where e: "encode_sub_opts vss = Inr (d, c)"
    using assms(1) by (auto simp: encode_sub_opts_Inr)
  note t = encode_sub_opts_tlv [OF e assms(2)]
  have "check_from (concat (map tlv [(VSS_SUBOPT_CODE, vss_type vss # vss_info vss),
      (VSS_CONTROL_SUBOPT_CODE, [])])) 0 = Some False"
    using t(2) by (subst check_from_tlvs) (simp_all add: tlv_ok_def)
  moreover have "check_from (concat (map tlv [(VSS_SUBOPT_CODE, vss_type vss # vss_info vss)])) 0 =
      Some True"
    using t(2) by (subst check_from_tlvs)
      (simp_all add: VSS_SUBOPT_CODE_def VSS_CONTROL_SUBOPT_CODE_def)
  ultimately show ?thesis
    using e t by (intro exI [of _ d] exI [of _ c])
      (simp add: check_server_support_def, simp add: encode_sub_opts_Inr)
qed

definition sample_vss :: vss_config where
  "sample_vss = \<lparr> vss_enabled = True, vss_type = 0, vss_info = [65], vpn_name = None \<rparr>"

text \<open>
  The length byte of the VSS sub-option is the length modulo 256. For an identifier of 255 or
  more bytes, which the validation accepts, it is smaller than the number of bytes that follow.
\<close>

lemma vss_length_byte_wraps:
  assumes "encode_sub_opts vss = Inr (d, c)"
  shows "unat (d ! 1) = (1 + length (vss_info vss)) mod 256 \<and>
    (unat (d ! 1) < length (drop 2 d) \<longleftrightarrow> 255 \<le> length (vss_info vss))"
proof -
  let ?n = "1 + length (vss_info vss)"
  have "d ! 1 = of_nat ?n" and l: "length (drop 2 d) = ?n"
    using assms by (auto simp: encode_sub_opts_Inr)
  then have d: "unat (d ! 1) = ?n mod 256" by (simp only: unat_of_nat_byte)
  have "n mod 256 < n \<longleftrightarrow> 256 \<le> n" for n :: nat
    by (cases "n < 256") (auto simp: not_less intro: less_le_trans [OF mod_less_divisor])
  then have "?n mod 256 < ?n \<longleftrightarrow> 256 \<le> ?n" .
  with d l show ?thesis by simp
qed

lemma vss_scan_control:
  "fst (vss_scan pairs (b, info)) \<longleftrightarrow> b \<or> VirtualSubnetControl \<in> fst ` set pairs"
  by (induction pairs arbitrary: b info) (auto split: relay_code.splits)

text \<open>
  The VSS check of a reply never panics on its slice, and it warns that the server lacks VSS
  exactly if the echoed option holds a VSS-Control sub-option; it reports no mismatch when no VPN
  name is configured or the VSS type is not the textual one.
\<close>

lemma vss_check_warns:
  "\<exists>ws. vss_check_report cfg pairs = Some ws \<and>
     (ServerLacksVss \<in> set ws \<longleftrightarrow> VirtualSubnetControl \<in> fst ` set pairs) \<and>
     (vpn_name cfg = None \<or> vss_type cfg \<noteq> VSS_TYPE_NVT_ASCII \<longrightarrow> set ws \<subseteq> {ServerLacksVss})"
proof -
  obtain b info where s: "vss_scan pairs (False, None) = (b, info)" by fastforce
  then have b: "b \<longleftrightarrow> VirtualSubnetControl \<in> fst ` set pairs"
    using vss_scan_control [of pairs False None] by simp
  obtain ws where ws: "vpn_mismatch cfg info = Some ws"
    using vpn_mismatch_total [of cfg info] by auto
  have "ServerLacksVss \<notin> set ws \<and>
      (vpn_name cfg = None \<or> vss_type cfg \<noteq> VSS_TYPE_NVT_ASCII \<longrightarrow> ws = [])"
    using ws by (auto simp: vpn_mismatch_def Let_def split: option.splits if_splits)
  with s b ws show ?thesis by (auto simp: vss_check_report_def)
qed

section \<open>Packet size\<close>

text \<open>
  While the sum fits 64 bits the packet size check compares the exact sum with the limit, with
  and without overflow checks; on overflow it panics with checks and accepts a wrapped sum
  without them when that is within the limit.
\<close>

lemma packet_size_check:
  "check_packet_size checks cur len limit =
     (if unat cur + unat len < 2 ^ 64 then Some (unat cur + unat len \<le> unat limit)
      else if checks then None
      else Some (unat cur + unat len - 2 ^ 64 \<le> unat limit))"
proof -
  have a: "unat cur < 2 ^ LENGTH(64)" and b: "unat len < 2 ^ LENGTH(64)"
    by (rule unsigned_less)+
  have "unat (cur + len) = (if unat cur + unat len < 2 ^ 64 then unat cur + unat len
      else unat cur + unat len - 2 ^ 64)"
    using a b by (auto simp: unat_word_ariths mod_if)
  then show ?thesis
    by (auto simp: check_packet_size_def usize_add_def word_le_nat_alt not_less)
qed

section \<open>The pipelines do not panic\<close>

text \<open>
  Neither DHCPv4 pipeline panics on any datagram, configuration and interface to the message
  library, no law of which is needed, and both leave the inbound bytes, the source address, the
  interface name and the trust flag of the context alone.
\<close>

lemma v4_pipelines_total:
  "(\<exists>r c. execute (build_request_v4 A ls ci ri ip srv vss en82) ctx = Some (r, c) \<and> same_origin ctx c) \<and>
   (\<exists>r c. execute (build_reply_v4 A expected vss en82) ctx = Some (r, c) \<and> same_origin ctx c)"
  unfolding execute_def
  using v4_request.execute_runs [OF order_refl] v4_reply.execute_runs [OF order_refl] by blast

end
