(* ===== verification/V6_Properties.thy ===== *)
theory V6_Properties
  imports V6_Relay
begin

text \<open>
  Properties of the DHCPv6 pipelines: what a client message becomes on its way to the server, what
  a Relay-reply becomes on its way back, and the options codecs.
\<close>

section \<open>The request path\<close>

text \<open>
  C6: a DHCPv6 client message that decodes is forwarded to the server, wrapped in a Relay-forward
  with the given link and peer address. The wrapped message has the type of the received one and
  its options plus exactly the Interface-ID, Remote-ID and VSS options that are enabled, and the
  relay message can be read back from the datagram when it is below 64 KiB.
\<close>

theorem v6_request_forwarded:
  assumes "dhcproto_v6_ok A" "v6_encode_total A" "v6_decode A data = Inr m"
    and "v6_options_ok name rid vss en_if en_rid"
  shows "\<exists>c' b m'. relay_request_v6 A name rid link peer srv vss en_if en_rid data iface =
      Some (Inr True, c') \<and>
    dst_addr c' = Some srv \<and> buffer c' = encapsulate b link peer \<and>
    v6_decode A b = Inr m' \<and> v6_msg_type A m' = v6_msg_type A m \<and>
    option_facts A (v6_opts A m') =
      option_facts A (v6_opts A m) + v6_added name rid vss en_if en_rid \<and>
    (length b < 65536 \<longrightarrow> extract_relay_msg (drop RELAY_HDR_LEN (buffer c')) = Some (Inr b))"
  using assms(1,4,3)
proof (cases rule: request_v6_run [of A name rid vss en_if en_rid data m link peer srv iface])
  case (failed e c')
  with assms(2) show ?thesis by simp
next
  case (forwarded b m' c')
  have "extract_relay_msg (drop RELAY_HDR_LEN (buffer c')) = Some (Inr b)" if "length b < 65536"
  proof -
    have "drop RELAY_HDR_LEN (encapsulate b link peer) = put_tlv (OPTION_RELAY_MSG, b)"
      by (simp add: encapsulate_def put_tlv_def RELAY_HDR_LEN_def Let_def split: ip_addr.splits)
    then show ?thesis
      using that forwarded(3) parse_put_tlv [of "(OPTION_RELAY_MSG, b)" "[]"]
      by (simp add: extract_relay_msg_parse tlv_fits_def find_relay_msg_def)
  qed
  with forwarded show ?thesis by (auto simp: v6_view_def)
qed

definition sample_solicit :: bytes where
  "sample_solicit = [1]"

lemma sample_solicit_decodes: "v6_decode sample_v6 sample_solicit = Inr (1, [])"
  by (simp add: sample_solicit_def)

theorem v6_request_forwarded_witness:
  "\<exists>c' b m'. relay_request_v6 sample_v6 ''eth0'' [97] IPV6_UNSPECIFIED
      (SocketAddrV6 IPV6_UNSPECIFIED 546 0 0) (SocketAddrV6 IPV6_UNSPECIFIED 547 0 0) None True True
      sample_solicit ''eth0'' = Some (Inr True, c') \<and>
    v6_decode sample_v6 b = Inr m' \<and>
    option_facts sample_v6 (v6_opts sample_v6 m') = {# (37, [97]), (18, as_bytes ''eth0'') #}"
  using v6_request_forwarded [OF sample_v6_ok sample_v6_total sample_solicit_decodes,
      of "''eth0''" "[97]" None True True IPV6_UNSPECIFIED "SocketAddrV6 IPV6_UNSPECIFIED 546 0 0"
      "SocketAddrV6 IPV6_UNSPECIFIED 547 0 0" "''eth0''"]
  by (simp add: v6_options_ok_def v6_added_def vss_fact_def option_facts_def del: sample6_type.simps)
    blast

text \<open>
  An invalid VSS configuration stops every DHCPv6 request: nothing is forwarded, and when the
  encoder cannot fail the error is that of the validation.
\<close>

lemma v6_invalid_vss_refused:
  assumes "dhcproto_v6_ok A" "v6_decode A data = Inr m"
    and "vss_enabled cfg" "validate_vss cfg = Inl e"
    and "en_if \<Longrightarrow> length name < 65536" "en_rid \<Longrightarrow> length rid < 65536"
  shows "\<exists>r c'. relay_request_v6 A name rid link peer srv (Some cfg) en_if en_rid data iface =
      Some (Inl r, c') \<and> (v6_encode_total A \<longrightarrow> r = e)"
proof -
  have ok: "v6_options_ok name rid None en_if en_rid" using assms(5,6) by (simp add: v6_options_ok_def)
  have "v6_carries A (ctx_new data peer iface) (v6_msg_type A m, snd (v6_view A m))"
    using assms(2) by (simp add: v6_carries_def v6_view_def)
  with option_stages_add [OF assms(1) ok] show ?thesis
  proof (cases rule: stage_addsE)
    case (failed e c')
    then show ?thesis
      by (simp add: relay_request_v6_def build_request_v6_def execute_stages_append
          del: append.simps flip: append_assoc)
  next
    case (added c')
    have "v6_vss_insert_process A cfg c' = Some (Inl e, c')"
      using assms(3,4) by (simp add: v6_vss_insert_process_def v6_vss_encode_Inl [THEN iffD2])
    with added(1) show ?thesis
      by (simp add: relay_request_v6_def build_request_v6_def execute_stages_append
          del: append.simps(2) flip: append_assoc)
  qed
qed

section \<open>The reply path\<close>

definition relay_reply_v6 ::
    "'m v6_api \<Rightarrow> socket_addr \<Rightarrow> vss_config option \<Rightarrow> bytes \<Rightarrow> socket_addr \<Rightarrow> string \<Rightarrow> stage_run" where
  "relay_reply_v6 A client vss data src iface =
     execute (build_reply_v6 A client vss) (ctx_new data src iface)"

definition reply_metadata :: "'m v6_api \<Rightarrow> 'm \<Rightarrow> string \<rightharpoonup> string" where
  "reply_metadata A m =
     (case first_interface (v6_opts A m) of
        None \<Rightarrow> Map.empty
      | Some name \<Rightarrow> [''outbound_interface'' \<mapsto> name])"

lemma relay_reply_v6_run:
  "relay_reply_v6 A client vss data src iface =
     (let c = ctx_new data src iface in
      case v6_decode A data of
        Inl e \<Rightarrow> Some (Inl (Parse (''failed to parse DHCPv6 message: '' @ e)), c)
      | Inr m \<Rightarrow>
         (case decapsulate data of
            None \<Rightarrow> None
          | Some (Inl e) \<Rightarrow> Some (Inl e, c)
          | Some (Inr inner) \<Rightarrow>
             (case v6_decode A inner of
                Inl e \<Rightarrow> Some (Inl (Parse (''interface-id extract decode: '' @ e)),
                               c\<lparr>buffer := inner\<rparr>)
              | Inr m' \<Rightarrow>
                  Some (Inr True,
                    c\<lparr>buffer := inner, metadata := reply_metadata A m', dst_addr := Some client\<rparr>))))"
  by (cases vss)
    (auto simp: relay_reply_v6_def build_reply_v6_def v6_parse_process_def v6_vss_extract_result
      relay_reply_process_def interface_id_extract_process_def v6_forward_process_def
      reply_metadata_def Let_def split: sum.splits option.splits)

text \<open>
  C17: a Relay-reply that holds a client message in one or more layers is forwarded as exactly the
  bytes of that message, to the address given as the client, whatever the VSS configuration; the
  outbound interface is recorded exactly if an option of the inner message is an Interface-ID
  with a valid UTF-8 name.
\<close>

theorem v6_reply_unwrapped:
  assumes "v6_decode A (wrap_all ls payload) = Inr m" "v6_decode A payload = Inr m'"
    and "layers_fit ls payload" "\<not> starts_reply payload" "ls \<noteq> []"
  shows "\<exists>c'. relay_reply_v6 A client vss (wrap_all ls payload) src iface = Some (Inr True, c') \<and>
    buffer c' = payload \<and> dst_addr c' = Some client \<and>
    metadata c' ''outbound_interface'' = first_interface (v6_opts A m')"
  using assms decapsulate_wrap_all [OF assms(3-5)]
  by (simp add: relay_reply_v6_run reply_metadata_def Let_def split: option.splits)

theorem v6_reply_unwrapped_witness:
  "\<exists>c'. relay_reply_v6 sample_v6 (SocketAddrV6 IPV6_UNSPECIFIED 546 0 0) None
      (wrap_all [plain_layer 0 IPV6_UNSPECIFIED IPV6_UNSPECIFIED] [2])
      (SocketAddrV6 IPV6_UNSPECIFIED 547 0 0) ''eth0'' = Some (Inr True, c') \<and> buffer c' = [2]"
proof -
  have "\<exists>m. v6_decode sample_v6 (wrap_all [plain_layer 0 IPV6_UNSPECIFIED IPV6_UNSPECIFIED] [2]) =
      Inr m"
    by (simp add: wrap_def relay_header_def)
  then obtain m where "v6_decode sample_v6
      (wrap_all [plain_layer 0 IPV6_UNSPECIFIED IPV6_UNSPECIFIED] [2]) = Inr m" ..
  from v6_reply_unwrapped [OF this, of "(2, [])" "SocketAddrV6 IPV6_UNSPECIFIED 546 0 0" None
      "SocketAddrV6 IPV6_UNSPECIFIED 547 0 0" "''eth0''"] show ?thesis
    by (auto simp: starts_reply_def idx_def RELAY_REPL_def)
qed

text \<open>
  C34: the reply path as one equation on every branch: an undecodable datagram and an undecodable
  inner message are \<open>Parse\<close> errors, an error of the unwrapping is passed on, and nothing panics;
  the VSS configuration has no influence on the result.
\<close>

theorem v6_reply_outcome:
  "\<exists>r c'. relay_reply_v6 A client vss data src iface = Some (r, c') \<and>
     r = (case v6_decode A data of
            Inl e \<Rightarrow> Inl (Parse (''failed to parse DHCPv6 message: '' @ e))
          | Inr m \<Rightarrow>
             (case decapsulate data of
                None \<Rightarrow> Inr False
              | Some (Inl e) \<Rightarrow> Inl e
              | Some (Inr inner) \<Rightarrow>
                 (case v6_decode A inner of
                    Inl e \<Rightarrow> Inl (Parse (''interface-id extract decode: '' @ e))
                  | Inr m' \<Rightarrow> Inr True)))"
  using decapsulate_total [of data]
  by (auto simp: relay_reply_v6_run Let_def split: sum.splits option.splits)

text \<open>
  The Interface-ID that the relay adds is found again: if a message has the relay's
  Interface-ID as its only option of that kind, the extraction reads back the interface name.
\<close>

lemma interface_id_recovered:
  assumes "rust_string name"
    and "filter (\<lambda>opt. case opt of InterfaceId d \<Rightarrow> True | _ \<Rightarrow> False) opts = [interface_id_encode name]"
  shows "first_interface opts = Some name"
  using assms(2)
proof (induction opts)
  case (Cons opt opts)
  then show ?case
    using interface_id.round_trip [OF assms(1)] by (cases opt) auto
qed simp

text \<open>
  The VSS option survives encoding and extraction: what \<open>encode\<close> writes for a valid
  configuration is what \<open>extract\<close> returns, in front of any other options; the encoder fails
  exactly when the configuration does not validate.
\<close>

lemma v6_vss_round_trip:
  assumes "dhcproto_v6_ok A"
  shows "case v6_vss_encode vss of
      Inl e \<Rightarrow> \<not> vss_ok vss \<and> validate_vss vss = Inl e
    | Inr opt \<Rightarrow> vss_ok vss \<and>
        v6_vss_extract A (opt # opts) = Some (Some (vss_type vss, vss_info vss))"
  using v6_vss_encode_Inl [of vss] v6_vss_encode_Inr [of vss] validate_vss_iff [of vss]
  by (auto simp: v6_vss_extract_first VSS_OPTION_CODE_def v6_codes [OF assms] split: sum.splits)

end
