(* ===== verification/Agent_Props.thy ===== *)
theory Agent_Props
  imports Agent_Loop V4_Reply V4_Options V6_Properties
begin

text \<open>
  Properties of the agent as a whole: the accounting of its tasks, what a datagram becomes on its
  way through the dispatch and the handlers, and which tasks are started for a configuration.
\<close>

section \<open>The tasks\<close>

text \<open>
  C12: accounting of a DHCPv4 task. Whatever datagrams, receive errors and signals it sees, the task
  does not panic, ends exactly if the shutdown signal was among the events, counts every
  datagram delivered before that as received, and counts as forwarded exactly the datagrams it
  sent, at most one per datagram received; the counters wrap at 64 bits.
\<close>

theorem v4_task_accounting:
  "\<exists>st' sent. task_run (v4_datagram A task) evs (st, []) = Some (Changed True \<in> set evs, st', sent) \<and>
     length sent \<le> delivered evs \<and>
     packets_received st' = packets_received st + of_nat (delivered evs) \<and>
     packets_forwarded st' = packets_forwarded st + of_nat (length sent)"
  using v4_loop.run_counts [of A task evs st "[]"] by simp

text \<open>
  Accounting of a DHCPv6 task, and the shutdown of both kinds: the events after the shutdown
  signal have no effect on the counters or on what is sent.
\<close>

lemma v6_task_accounting:
  "(\<exists>st' sent. task_run (v6_datagram A task) evs (st, []) =
        Some (Changed True \<in> set evs, st', sent) \<and>
      length sent \<le> delivered evs \<and>
      packets_received st' = packets_received st + of_nat (delivered evs) \<and>
      packets_forwarded st' = packets_forwarded st + of_nat (length sent)) \<and>
   task_run (v6_datagram A task) (evs @ Changed True # rest) s =
     task_run (v6_datagram A task) (evs @ [Changed True]) s \<and>
   task_run (v4_datagram B task4) (evs @ Changed True # rest) s =
     task_run (v4_datagram B task4) (evs @ [Changed True]) s"
  using v6_loop.run_counts [of A task evs st "[]"] v6_loop.run_stops [of A task evs rest s]
    v4_loop.run_stops [of B task4 evs rest s] by simp

section \<open>DHCPv4 datagrams\<close>

lemma client_run:
  "handle_v4_client A data src name ip ls ci ri srv vss en82 st =
     (case relay_request A ls ci ri ip srv vss en82 data src name of
        None \<Rightarrow> None
      | Some (Inr True, ctx) \<Rightarrow> Some (count_forwarded st, send_result ctx)
      | Some (Inr False, ctx) \<Rightarrow> Some (st, [])
      | Some (Inl e, ctx) \<Rightarrow> Some (count_spoof st, []))"
  by (simp add: handle_v4_client_def relay_request_def)

lemma server_run:
  "handle_v4_server A data src name expected vss en82 st =
     (case relay_reply A expected vss en82 data src name of
        None \<Rightarrow> None
      | Some (Inr True, ctx) \<Rightarrow> Some (count_stripped (count_forwarded st), send_result ctx)
      | Some (Inr False, ctx) \<Rightarrow> Some (st, [])
      | Some (Inl e, ctx) \<Rightarrow> Some (st, []))"
  by (simp add: handle_v4_server_def relay_reply_def)

lemma when_enabled_valid:
  "(b \<Longrightarrow> vss_ok cfg) \<Longrightarrow> vss_valid (when_enabled b cfg)"
  by (simp add: when_enabled_def vss_valid_def)

text \<open>A task with a configuration that lets first relay packets through.\<close>

definition task_relays :: "v4_task \<Rightarrow> bool" where
  "task_relays task \<longleftrightarrow>
     (let ctx = t4_ctx task in
      (sc4_enable_option82 ctx \<longrightarrow> sc4_circuit_id ctx \<noteq> None \<or> sc4_remote_id ctx \<noteq> None) \<and>
      (sc4_vss_enabled ctx \<longrightarrow> vss_ok (sc4_vss_cfg ctx)))"


definition sample_task :: v4_task where
  "sample_task =
     \<lparr> t4_iface_name = ''eth0'', t4_iface_ip = Ipv4Addr 10 0 0 1,
       t4_bind_addr = SocketAddrV4 (Ipv4Addr 10 0 0 1) 67, t4_server = sample_server,
       t4_ctx = \<lparr> sc4_enable_option82 = True, sc4_vss_enabled = False, sc4_vss_cfg = sample_vss,
                  sc4_circuit_id = Some [101], sc4_remote_id = None,
                  sc4_local_addrs = [Ipv4Addr 10 0 0 1] \<rparr> \<rparr>"

lemma sample_task_sel [simp]:
  "t4_iface_ip sample_task = Ipv4Addr 10 0 0 1" "t4_server sample_task = sample_server"
  "sc4_local_addrs (t4_ctx sample_task) = [Ipv4Addr 10 0 0 1]"
  "sc4_enable_option82 (t4_ctx sample_task)"
  by (simp_all add: sample_task_def)


text \<open>
  C20: a client datagram whose relay address is one of the addresses of the configured
  interfaces is dropped: the agent sends nothing for it and counts it as a spoof, whatever its
  other contents and whether or not the message can be encoded.
\<close>

theorem spoofed_datagram_dropped:
  assumes "dhcproto_v4_ok A" "v4_decode A data = Inr m" "is_v4_client_type (v4_msg_type A m)"
    and "v4_giaddr A m \<noteq> IPV4_UNSPECIFIED"
    and "v4_giaddr A m \<in> set (local_v4_addrs (interfaces config))"
    and "t4_ctx task = v4_from_inner config"
  shows "v4_datagram A task data src st = Some (count_spoof (count_received st), [])"
proof -
  let ?ctx = "t4_ctx task"
  have "v4_giaddr A m \<in> set (sc4_local_addrs ?ctx)"
    using assms(5,6) by (simp add: v4_from_inner_def Let_def)
  then obtain e c' where "relay_request A (sc4_local_addrs ?ctx) (sc4_circuit_id ?ctx)
      (sc4_remote_id ?ctx) (t4_iface_ip task) (t4_server task)
      (when_enabled (sc4_vss_enabled ?ctx) (sc4_vss_cfg ?ctx)) (sc4_enable_option82 ?ctx) data src
      (t4_iface_name task) = Some (Inl e, c')"
    using request_outcome [OF assms(1,2), of "sc4_local_addrs ?ctx" "sc4_circuit_id ?ctx"
        "sc4_remote_id ?ctx" "t4_iface_ip task" "t4_server task"
        "when_enabled (sc4_vss_enabled ?ctx) (sc4_vss_cfg ?ctx)" "sc4_enable_option82 ?ctx" src
        "t4_iface_name task"] assms(4)
    by (auto simp: spec_spoof Let_def)
  then show ?thesis using assms(2,3) by (simp add: v4_datagram_def client_run Let_def)
qed

definition sample_config :: relay_config where
  "sample_config = relay_config_default\<lparr>interfaces :=
     [\<lparr> if_name = ''eth0'', if_ip_addr = ''10.0.0.1:67'', if_trusted = False,
        if_enabled = True \<rparr>]\<rparr>"

lemma sample_local_addrs: "local_v4_addrs (interfaces sample_config) = [Ipv4Addr 10 0 0 1]"
  by (simp add: sample_config_def local_v4_addrs_def List.map_filter_def before_colon_def
      std_parse_defs)

theorem spoofed_datagram_dropped_witness:
  "v4_datagram sample_v4 (sample_task\<lparr>t4_ctx := v4_from_inner sample_config\<rparr>) sample_spoof
     sample_server stats_default = Some (count_spoof (count_received stats_default), [])"
proof -
  have "v4_decode sample_v4 sample_spoof = Inr (Ipv4Addr 10 0 0 1, IPV4_UNSPECIFIED, 1, None)"
    by (simp add: sample_spoof_def IPV4_UNSPECIFIED_def)
  from spoofed_datagram_dropped [OF sample_v4_ok this, of sample_config]
  show ?thesis by (simp add: sample_local_addrs IPV4_UNSPECIFIED_def)
qed


definition sample_offer :: bytes where
  "sample_offer = [10, 0, 0, 1, 192, 168, 0, 7, 2, 82, 1, 0, 1, 66, 0, 0]"


section \<open>DHCPv6 datagrams\<close>

text \<open>
  C40: the agent answers the server. The inner message of a Relay-reply is sent to the address the
  datagram came from, not to a client: no other destination ever occurs.
\<close>

theorem v6_reply_goes_to_sender:
  assumes "first_byte data = RELAY_REPL"
  shows "\<exists>st' sent. v6_datagram A task data src st = Some (st', sent) \<and>
    set (map snd sent) \<subseteq> {src} \<and>
    (\<forall>b \<in> set (map fst sent). decapsulate data = Some (Inr b))"
proof -
  let ?vss = "when_enabled (sc6_vss_enabled (t6_ctx task)) (sc6_vss_cfg (t6_ctx task))"
  have run: "v6_datagram A task data src st =
      (case relay_reply_v6 A src ?vss data src (t6_iface_name task) of
         None \<Rightarrow> None
       | Some (Inr True, ctx) \<Rightarrow> Some (count_forwarded (count_received st), send_result ctx)
       | Some (Inr False, ctx) \<Rightarrow> Some (count_received st, [])
       | Some (Inl e, ctx) \<Rightarrow> Some (count_received st, []))"
    using assms by (simp add: v6_datagram_def handle_v6_server_def relay_reply_v6_def Let_def)
  show ?thesis
    unfolding run relay_reply_v6_run using decapsulate_total [of data]
    by (auto simp: Let_def send_result_def split: sum.split option.split)
qed

theorem v6_reply_goes_to_sender_witness:
  "\<exists>st' sent. v6_datagram sample_v6
      \<lparr> t6_iface_name = ''eth0'', t6_bind_addr = sample_server, t6_server = sample_server,
        t6_local_addr = Inl ''none'', t6_ctx = v6_from_inner sample_config \<rparr>
      (wrap (plain_layer 0 IPV6_UNSPECIFIED IPV6_UNSPECIFIED) [2]) sample_server stats_default =
      Some (st', sent) \<and> set (map snd sent) \<subseteq> {sample_server}"
proof -
  have "first_byte (wrap (plain_layer 0 IPV6_UNSPECIFIED IPV6_UNSPECIFIED) [2]) = RELAY_REPL"
    by (simp add: wrap_def relay_header_def first_byte_def)
  from v6_reply_goes_to_sender [OF this] show ?thesis by blast
qed

section \<open>Starting the tasks\<close>

lemma spawn_v6_bound:
  "task \<in> set (fst (spawn_v6_tasks udp ctx srv ifs)) \<Longrightarrow>
   \<exists>i \<in> set ifs. parse_socket_addr (before_colon (if_ip_addr i) @ '':547'') = Some (t6_bind_addr task) \<and>
     udp (t6_bind_addr task) = Inr (t6_local_addr task)"
  by (induction ifs) (auto simp: Let_def case_prod_beta split: if_splits option.splits sum.splits)

lemma v6_bind_is_v4:
  "parse_socket_addr (before_colon s @ '':547'') = Some a \<Longrightarrow> \<exists>ip p. a = SocketAddrV4 ip p"
  by (drule parse_socket_colons) simp

text \<open>
  C39: the DHCPv6 tasks only ever bind IPv4 addresses, whatever the configuration, because the bind
  address is built from the text in front of the first colon. If the socket reports the
  address it was bound to, every Relay-forward of the agent has the unspecified link address.
\<close>

theorem v6_tasks_bind_ipv4_only:
  assumes "\<And>a loc. udp a = Inr (Inr loc) \<Longrightarrow> socket_ip loc = socket_ip a"
    and "task \<in> set (fst (snd (agent_spawn udp agent)))"
  shows "(\<exists>ip p. t6_bind_addr task = SocketAddrV4 ip p) \<and>
    v6_link_addr (t6_local_addr task) = IPV6_UNSPECIFIED"
proof -
  from assms(2) obtain srv where "task \<in> set (fst (spawn_v6_tasks udp
      (v6_from_inner (ag_config agent)) srv (interfaces (ag_config agent))))"
    by (auto simp: agent_spawn_def Let_def case_prod_beta split: sum.splits)
  from spawn_v6_bound [OF this] obtain s where
    "parse_socket_addr (before_colon s @ '':547'') = Some (t6_bind_addr task)"
    and loc: "udp (t6_bind_addr task) = Inr (t6_local_addr task)" by blast
  then obtain ip p where "t6_bind_addr task = SocketAddrV4 ip p" using v6_bind_is_v4 by blast
  with assms(1) [of "t6_bind_addr task"] loc show ?thesis
    by (cases "t6_local_addr task") (simp_all add: v6_link_addr_def)
qed

theorem v6_tasks_bind_ipv4_only_witness:
  "\<exists>task. task \<in> set (fst (snd (agent_spawn (\<lambda>a. Inr (Inr a))
       \<lparr> ag_config = sample_config, ag_stats = stats_default, ag_topology = None,
         ag_selector = None \<rparr>))) \<and>
     v6_link_addr (t6_local_addr task) = IPV6_UNSPECIFIED"
proof -
  let ?agent = "\<lparr> ag_config = sample_config, ag_stats = stats_default, ag_topology = None,
         ag_selector = None \<rparr>"
  have "parse_socket_addr ''10.0.0.1:67'' = Some (SocketAddrV4 (Ipv4Addr 10 0 0 1) 67)"
    "parse_socket_addr ''10.0.0.1:547'' = Some (SocketAddrV4 (Ipv4Addr 10 0 0 1) 547)"
    by (simp_all add: std_parse_defs)
  then have "fst (snd (agent_spawn (\<lambda>a. Inr (Inr a)) ?agent)) \<noteq> []"
    by (simp add: agent_spawn_def sample_config_def Let_def before_colon_def)
  then obtain task where "task \<in> set (fst (snd (agent_spawn (\<lambda>a. Inr (Inr a)) ?agent)))"
    using hd_in_set by blast
  with v6_tasks_bind_ipv4_only [of "\<lambda>a. Inr (Inr a)" task ?agent] show ?thesis by auto
qed

text \<open>
  An enabled interface whose address text has no port stops the agent from starting: the
  result is a configuration error, although the configuration validates.
\<close>

lemma port_required_to_start:
  assumes "config_ok config" "interfaces config = iface # ifaces" "if_enabled iface"
    and "before_colon (if_ip_addr iface) = if_ip_addr iface"
  shows "\<exists>agent. agent_new config = Inr agent \<and>
    agent_spawn udp agent = ([], [], Inl (Config (''invalid IP: '' @ addr_parse_error)))"
proof -
  have "colons (if_ip_addr iface) = 0" using assms(4) colons_before_colon by metis
  then have "parse_socket_addr (if_ip_addr iface) = None"
    using parse_socket_colons [of "if_ip_addr iface"] by (cases "parse_socket_addr (if_ip_addr iface)") auto
  then show ?thesis
    using assms(1-3)
    by (simp add: agent_new_def validate_config_iff [THEN iffD2] agent_spawn_def Let_def)
qed

text \<open>
  An agent is created exactly for the configurations that satisfy the documented constraints
  (an interface, no empty name, valid VSS blocks where VSS is enabled); every refusal is a
  configuration error. All counters of a new agent are zero.
\<close>

lemma agent_new_validates:
  "case agent_new config of
     Inl e \<Rightarrow> \<not> config_ok config \<and> (\<exists>msg. e = Config msg)
   | Inr agent \<Rightarrow> config_ok config \<and> ag_config agent = config \<and> ag_stats agent = stats_default"
  using validate_config_iff [of config] validate_config_error [of config]
  by (auto simp: agent_new_def split: sum.splits)

end
