(* ===== verification/Agent_System_Props.thy ===== *)
theory Agent_System_Props
  imports Agent_Ledger Agent_Props
begin

text \<open>
  Properties of the agent as a system: its runs refine the construction and the sequential runs of
  its tasks, and which calls of \<open>shutdown\<close> stop it.
\<close>

section \<open>A concrete agent\<close>

text \<open>One enabled interface, sockets that always bind, and the sample instances of the crates.\<close>

definition sample_agent :: relay_agent where
  "sample_agent = \<lparr> ag_config = sample_config, ag_stats = stats_default, ag_topology = None,
                    ag_selector = None \<rparr>"

definition sample_env :: "(sample_channel, nat) agent_env" where
  "sample_env = agent_env_of sample_watch sample_v4 sample_v6 (\<lambda>a. Inr (Inr a)) sample_agent"

definition sample_iface :: interface_config where
  "sample_iface = \<lparr> if_name = ''eth0'', if_ip_addr = ''10.0.0.1:67'', if_trusted = False, if_enabled = True \<rparr>"

lemma sample_env_sel [simp]:
  "en_watch sample_env = sample_watch" "en_ifaces sample_env = [sample_iface]"
  by (simp_all add: sample_env_def agent_env_of_def sample_agent_def sample_config_def sample_iface_def)

lemma sample_spawn:
  obtains t4 t6 where "en_spawn sample_env Dhcp4 sample_iface = Inr (Some (v4_datagram sample_v4 t4))"
    "t4_ctx t4 = v4_from_inner sample_config"
    "en_spawn sample_env Dhcp6 sample_iface = Inr (Some (v6_datagram sample_v6 t6))"
proof -
  note spawn = sample_env_def agent_env_of_def family_handlers_def sample_iface_def first_task_def
    first_server_def Let_def before_colon_def
  have "parse_socket_addr ''10.0.0.1:67'' \<noteq> None" "parse_socket_addr ''10.0.0.1:547'' \<noteq> None"
    by (simp_all add: std_parse_defs)
  then have "\<exists>t4. en_spawn sample_env Dhcp4 sample_iface = Inr (Some (v4_datagram sample_v4 t4)) \<and>
      t4_ctx t4 = v4_from_inner sample_config"
    "\<exists>t6. en_spawn sample_env Dhcp6 sample_iface = Inr (Some (v6_datagram sample_v6 t6))"
    by (auto simp: spawn sample_agent_def split: option.splits)
  then show thesis using that by blast
qed

lemma sample_init:
  "agent_init sample_watch sample_agent =
     \<lparr> as_chan = (False, []), as_phase = Pending Dhcp4, as_tasks = [], as_base = 0,
        as_stats = stats_default \<rparr>"
  by (simp add: agent_init_def sample_watch_def sample_agent_def)

abbreviation sample_state :: "sample_channel \<Rightarrow> nat phase \<Rightarrow> nat running list \<Rightarrow> (sample_channel, nat) agent_state" where
  "sample_state c ph ts \<equiv> \<lparr> as_chan = c, as_phase = ph, as_tasks = ts, as_base = 0, as_stats = stats_default \<rparr>"

lemma sample_steps:
  shows "agent_step sample_env (sample_state (v, rs) (Pending f) ts) Internal
      (sample_state (v, (Suc (sum_list (map fst rs)), False) # rs)
        (Spawning f (Suc (sum_list (map fst rs))) [sample_iface]) ts)"
    and "en_spawn sample_env f sample_iface = Inr (Some h) \<Longrightarrow>
      agent_step sample_env (sample_state (v, rs) (Spawning f r [sample_iface]) ts) Internal
        (sample_state (v, (Suc (sum_list (map fst rs)), map_of rs r = Some True) # rs)
          (Spawning f r []) (ts @ [running_new (Suc (sum_list (map fst rs))) h]))"
    and "agent_step sample_env (sample_state (v, rs) (Spawning f r []) ts) Internal
      (sample_state (v, filter (\<lambda>p. fst p \<noteq> r) rs) (after_family f) ts)"
    and "rs \<noteq> [] \<Longrightarrow>
      agent_step sample_env (sample_state (v, rs) ph ts) CallShutdown
        (sample_state (True, map (\<lambda>(r, u). (r, True)) rs) ph ts)"
  using agent_step.subscribe [of "sample_state (v, rs) (Pending f) ts" f sample_env]
    agent_step.spawn [of "sample_state (v, rs) (Spawning f r [sample_iface]) ts" f r sample_iface "[]" sample_env h]
    agent_step.spawned [of "sample_state (v, rs) (Spawning f r []) ts" f r sample_env]
    agent_step.call [of sample_env "sample_state (v, rs) ph ts"]
  by (auto simp: sample_watch_def Let_def call_shutdown_def)

lemma history_cons: "agent_step E s l s' \<Longrightarrow> agent_history E s' ls s'' \<Longrightarrow> agent_history E s (l # ls) s''"
  using history_append [of E s' ls s'' s "[l]"] agent_history.step [OF agent_history.start] by fastforce

text \<open>The run that starts both tasks, in parts: \<open>u\<close> says whether the first has a change to see.\<close>

lemma sample_start4:
  assumes "en_spawn sample_env Dhcp4 sample_iface = Inr (Some h)"
  shows "agent_history sample_env (agent_init sample_watch sample_agent) [Internal, Internal]
    (sample_state (False, [(2, False), (1, False)]) (Spawning Dhcp4 1 []) [running_new 2 h])"
proof -
  let ?s = "sample_state (False, [(1, False)]) (Spawning Dhcp4 1 [sample_iface]) []"
  have "agent_step sample_env (agent_init sample_watch sample_agent) Internal ?s"
    using sample_steps(1) [of False "[]" Dhcp4 "[]"] by (simp add: sample_init)
  moreover have "agent_step sample_env ?s Internal
      (sample_state (False, [(2, False), (1, False)]) (Spawning Dhcp4 1 []) [running_new 2 h])"
    using sample_steps(2) [OF assms, of False "[(1, False)]" 1 "[]"] by (simp add: eval_nat_numeral)
  ultimately show ?thesis by (blast intro: history_cons agent_history.start)
qed

lemma sample_done4:
  "agent_step sample_env (sample_state (v, [(2, u), (1, u)]) (Spawning Dhcp4 1 []) ts) Internal
     (sample_state (v, [(2, u)]) (Pending Dhcp6) ts)"
  using sample_steps(3) [of v "[(2, u), (1, u)]" Dhcp4 1 ts] by simp

lemma sample_start6:
  assumes "en_spawn sample_env Dhcp6 sample_iface = Inr (Some h)"
  shows "agent_history sample_env (sample_state (v, [(2, u)]) (Pending Dhcp6) ts) [Internal, Internal, Internal]
    (sample_state (v, [(6, False), (2, u)]) Waiting (ts @ [running_new 6 h]))"
proof -
  have "agent_step sample_env (sample_state (v, [(2, u)]) (Pending Dhcp6) ts) Internal
      (sample_state (v, [(3, False), (2, u)]) (Spawning Dhcp6 3 [sample_iface]) ts)"
    using sample_steps(1) [of v "[(2, u)]" Dhcp6 ts] by (simp add: eval_nat_numeral)
  moreover have "agent_step sample_env
      (sample_state (v, [(3, False), (2, u)]) (Spawning Dhcp6 3 [sample_iface]) ts) Internal
      (sample_state (v, [(6, False), (3, False), (2, u)]) (Spawning Dhcp6 3 []) (ts @ [running_new 6 h]))"
    using sample_steps(2) [OF assms, of v "[(3, False), (2, u)]" 3 ts] by (simp add: eval_nat_numeral)
  moreover have "agent_step sample_env
      (sample_state (v, [(6, False), (3, False), (2, u)]) (Spawning Dhcp6 3 []) (ts @ [running_new 6 h])) Internal
      (sample_state (v, [(6, False), (2, u)]) Waiting (ts @ [running_new 6 h]))"
    using sample_steps(3) [of v "[(6, False), (3, False), (2, u)]" Dhcp6 3] by simp
  ultimately show ?thesis by (blast intro: history_cons agent_history.start)
qed

lemma sample_waiting:
  assumes "en_spawn sample_env Dhcp4 sample_iface = Inr (Some h4)"
    and "en_spawn sample_env Dhcp6 sample_iface = Inr (Some h6)"
  shows "agent_history sample_env (agent_init sample_watch sample_agent)
    [Internal, Internal, Internal, Internal, Internal, Internal]
    (sample_state (False, [(6, False), (2, False)]) Waiting [running_new 2 h4, running_new 6 h6])"
  using history_append [OF sample_start6 [OF assms(2), of False False "[running_new 2 h4]"]
      agent_history.step [OF sample_start4 [OF assms(1)] sample_done4]] by simp

section \<open>The system and its parts\<close>

text \<open>
  C21: what a call of \<open>run\<close> spawns, be it the first or a later one. Whenever \<open>run\<close> waits for its
  tasks, they are exactly the tasks of the configuration, in the order of the interfaces and DHCPv4
  first; when \<open>run\<close> has returned, its result is that of the construction, and the tasks it leaves
  behind are those constructed before the error.
\<close>

theorem run_spawns_configured_tasks:
  assumes "run_called s0" "agent_history (agent_env_of W A B udp agent) s0 ls s"
    and "agent_spawn udp agent = (t4, t6, r)"
    and "as_phase s = Waiting \<and> res = Inr () \<or> as_phase s = Returned res"
  shows "r = res \<and> own_handles s = map (v4_datagram A) t4 @ map (v6_datagram B) t6"
  using spawned_ok_history [OF assms(2,1)] assms(3,4)
  by (auto simp: spawned_ok_def agent_handlers_spawn)

theorem run_spawns_configured_tasks_witness:
  "\<exists>t4 t6 ls s. agent_history sample_env (agent_init sample_watch sample_agent) ls s \<and>
     as_phase s = Waiting \<and> agent_spawn (\<lambda>a. Inr (Inr a)) sample_agent = (t4, t6, Inr ()) \<and>
     own_handles s = map (v4_datagram sample_v4) t4 @ map (v6_datagram sample_v6) t6 \<and>
     length t4 + length t6 = 2"
proof -
  obtain h4 h6 where h: "en_spawn sample_env Dhcp4 sample_iface = Inr (Some h4)"
    "en_spawn sample_env Dhcp6 sample_iface = Inr (Some h6)" using sample_spawn by metis
  let ?s = "sample_state (False, [(6, False), (2, False)]) Waiting [running_new 2 h4, running_new 6 h6]"
  obtain t4 t6 r where sp: "agent_spawn (\<lambda>a. Inr (Inr a)) sample_agent = (t4, t6, r)" by (metis prod_cases3)
  note run = sample_waiting [OF h]
  from run_spawns_configured_tasks [OF run_called_simps(1) run [unfolded sample_env_def] sp, of "Inr ()"]
  have "r = Inr ()" and handles: "own_handles ?s = map (v4_datagram sample_v4) t4 @ map (v6_datagram sample_v6) t6"
    by simp_all
  moreover from arg_cong [OF handles, of length] have "length t4 + length t6 = 2"
    by (simp add: own_handles_def)
  ultimately show ?thesis
    using run sp by (intro exI [of _ t4] exI [of _ t6] exI [of _ "[Internal, Internal, Internal, Internal, Internal, Internal]"] exI [of _ ?s]) simp
qed

text \<open>
  C13: running the tasks together is running each of them alone. However the steps of the tasks,
  of \<open>run\<close> and of the callers of \<open>shutdown\<close> interleave, every task is where its own loop is after
  the events it has seen, it has sent what the loop sends, and the shared counters are the sum of
  what the loops count from zero.
\<close>

theorem concurrent_tasks_sequential:
  assumes "agent_history (agent_env_of W A B udp agent) (agent_init W agent) ls s"
  shows "\<exists>d. as_stats s = ag_stats agent + (\<Sum>i<length (as_tasks s). d i) \<and>
    (\<forall>i<length (as_tasks s).
       task_run (rn_handle (as_tasks s ! i)) (events_of i ls) (0, []) =
         Some (\<not> rn_alive (as_tasks s ! i), d i, rn_sent (as_tasks s ! i)))"
proof -
  have "as_tasks (agent_init W agent) = []" "as_stats (agent_init W agent) = ag_stats agent"
    by (simp_all add: agent_init_def Let_def split: prod.splits)
  moreover from this have "\<exists>d. ledger (as_stats (agent_init W agent)) ls s d"
    by (intro ledger_history [OF assms]) (simp, erule env_additive)
  ultimately show ?thesis by (auto simp: ledger_def)
qed

theorem concurrent_tasks_sequential_witness:
  "\<exists>ls s d. agent_history sample_env (agent_init sample_watch sample_agent)
       (ls @ [TaskEvent 0 (Received (Inr ([7], sample_server)))]) s \<and>
     as_stats s = stats_default + (\<Sum>i<(2::nat). d i) \<and> as_stats s = count_received stats_default \<and>
     d 1 = 0 \<and> task_run (rn_handle (as_tasks s ! 0)) [Received (Inr ([7], sample_server))] (0, []) =
       Some (False, d 0, [])"
proof -
  obtain t4 t6 where h: "en_spawn sample_env Dhcp4 sample_iface = Inr (Some (v4_datagram sample_v4 t4))"
    "en_spawn sample_env Dhcp6 sample_iface = Inr (Some (v6_datagram sample_v6 t6))" by (rule sample_spawn)
  let ?ts = "[running_new 2 (v4_datagram sample_v4 t4), running_new 6 (v6_datagram sample_v6 t6)]"
  let ?ls = "[Internal, Internal, Internal, Internal, Internal, Internal]"
  let ?s = "sample_state (False, [(6, False), (2, False)]) Waiting ?ts"
  let ?s' = "?s\<lparr>as_stats := count_received stats_default\<rparr>"
  have "v4_datagram sample_v4 t4 [7] sample_server stats_default = Some (count_received stats_default, [])"
    by (simp add: v4_datagram_def)
  then have "agent_step sample_env ?s (TaskEvent 0 (Received (Inr ([7], sample_server)))) ?s'"
    using agent_step.receive [of 0 ?s "running_new 2 (v4_datagram sample_v4 t4)" sample_env "[7]"
        sample_server "count_received stats_default" "[]"]
    by (simp add: sample_watch_def running_new_def)
  from agent_history.step [OF sample_waiting [OF h] this]
  have run: "agent_history sample_env (agent_init sample_watch sample_agent)
      (?ls @ [TaskEvent 0 (Received (Inr ([7], sample_server)))]) ?s'" .
  have len: "length (as_tasks ?s') = 2" by simp
  from concurrent_tasks_sequential [OF run [unfolded sample_env_def], unfolded len]
  obtain d where "as_stats ?s' = ag_stats sample_agent + (\<Sum>i<2. d i)"
    and d: "\<forall>i<2. task_run (rn_handle (as_tasks ?s' ! i))
        (events_of i (?ls @ [TaskEvent 0 (Received (Inr ([7], sample_server)))])) (0, []) =
      Some (\<not> rn_alive (as_tasks ?s' ! i), d i, rn_sent (as_tasks ?s' ! i))" by blast
  with run d [rule_format, of 0] d [rule_format, of 1] show ?thesis
    by (intro exI [of _ ?ls] exI [of _ ?s'] exI [of _ d]) (simp add: sample_agent_def)
qed

section \<open>Shutdown\<close>

lemma waiting_life:
  "agent_history sample_env (agent_init sample_watch sample_agent) ls s \<Longrightarrow>
   agent_life sample_watch sample_agent s"
  using life_history [of sample_env _ ls s sample_agent] agent_life.new by fastforce



text \<open>
  C30: a call of \<open>shutdown\<close> that finds no receiver is lost, not deferred: before \<open>run\<close>, between two
  calls of it, and between the two families when no DHCPv4 task is alive, it leaves the agent as
  it was.
\<close>

theorem early_shutdown_lost:
  assumes "watch_ok (en_watch E)" "agent_life (en_watch E) agent s"
    and "\<forall>f r ifaces. as_phase s \<noteq> Spawning f r ifaces" "list_all (\<lambda>t. \<not> rn_alive t) (as_tasks s)"
    and "agent_step E s CallShutdown s'"
  shows "s' = s"
proof -
  have "s' = call_shutdown (en_watch E) s" using assms(5) by (cases rule: agent_step.cases) auto
  moreover have "phase_rxs (as_phase s) = []" using assms(3) by (cases "as_phase s") auto
  ultimately show ?thesis
    using call_without_receivers [OF assms(1)] life_inv [OF assms(2,1)] assms(4) by (simp add: alive_none)
qed

theorem early_shutdown_lost_witness:
  "agent_step sample_env (agent_init sample_watch sample_agent) CallShutdown
     (agent_init sample_watch sample_agent)"
proof -
  let ?s = "agent_init (en_watch sample_env) sample_agent"
  have call: "agent_step sample_env ?s CallShutdown (call_shutdown (en_watch sample_env) ?s)"
    by (rule agent_step.call)
  have "call_shutdown (en_watch sample_env) ?s = ?s"
    using early_shutdown_lost [OF _ agent_life.new _ _ call]
    by (simp add: sample_watch_ok sample_init)
  with call show ?thesis by simp
qed

text \<open>
  C28: a call of \<open>shutdown\<close> made before a family subscribes does not reach its tasks. Unless it is
  called again, they stay alive whatever happens, and \<open>run\<close> never returns without an error when
  there is one of them: so a call during the start of the DHCPv4 tasks may end those and none
  of the DHCPv6 tasks, and a call that ended an earlier \<open>run\<close> does not end a later one.
\<close>

theorem shutdown_misses_later_tasks:
  assumes "watch_ok (en_watch E)" "agent_life (en_watch E) agent s1"
    and "as_phase s1 = Pending f" "agent_history E s1 ls2 s2" "CallShutdown \<notin> set ls2"
  shows "list_all rn_alive (drop (length (as_tasks s1)) (as_tasks s2)) \<and>
    (as_phase s2 = Returned (Inr ()) \<longrightarrow> length (as_tasks s2) = length (as_tasks s1))"
proof -
  from life_inv [OF assms(2,1)] have inv: "rx_inv (en_watch E) s1" "base_ok s1" by simp_all
  then have "unreached (en_watch E) (length (as_tasks s1)) s1"
    using assms(3) by (simp add: unreached_def base_ok_def)
  from unreached_history [OF assms(4,1) inv(1) this assms(5)] show ?thesis
    by (auto simp: unreached_def list_all_iff split: phase.splits)
qed

theorem shutdown_misses_later_tasks_witness:
  "\<exists>ls1 s1 ls2 s2. agent_history sample_env (agent_init sample_watch sample_agent) ls1 s1 \<and>
     CallShutdown \<in> set ls1 \<and> agent_history sample_env s1 ls2 s2 \<and> as_phase s2 = Waiting \<and>
     \<not> rn_alive (as_tasks s2 ! 0) \<and> list_all rn_alive (drop 1 (as_tasks s2)) \<and> length (as_tasks s2) = 2"
proof -
  obtain h4 h6 where h: "en_spawn sample_env Dhcp4 sample_iface = Inr (Some h4)"
    "en_spawn sample_env Dhcp6 sample_iface = Inr (Some h6)" using sample_spawn by metis
  let ?t4 = "running_new 2 h4" and ?t6 = "running_new 6 h6"
  let ?s1 = "sample_state (True, [(2, True)]) (Pending Dhcp6) [?t4]"
  let ?w = "sample_state (True, [(6, False), (2, True)]) Waiting [?t4, ?t6]"
  let ?s2 = "task_wake sample_watch 0 True ?w"
  have "agent_step sample_env (sample_state (False, [(2, False), (1, False)]) (Spawning Dhcp4 1 []) [?t4])
      CallShutdown (sample_state (True, [(2, True), (1, True)]) (Spawning Dhcp4 1 []) [?t4])"
    using sample_steps(4) [of "[(2, False), (1, False)]"] by simp
  from agent_history.step [OF agent_history.step [OF sample_start4 [OF h(1)] this] sample_done4]
  have run1: "agent_history sample_env (agent_init (en_watch sample_env) sample_agent)
      [Internal, Internal, CallShutdown, Internal] ?s1" by simp
  have "agent_step sample_env ?w (TaskEvent 0 (Changed True)) ?s2"
    using agent_step.wake [of 0 ?w sample_env True] by (simp add: sample_watch_def)
  from agent_history.step [OF sample_start6 [OF h(2), of True True "[?t4]"], simplified, OF this]
  have run2: "agent_history sample_env ?s1 [Internal, Internal, Internal, TaskEvent 0 (Changed True)] ?s2" .
  have "as_phase ?s2 = Waiting" "\<not> rn_alive (as_tasks ?s2 ! 0)" "length (as_tasks ?s2) = 2"
    by (simp_all add: task_wake_def Let_def)
  with shutdown_misses_later_tasks [of sample_env sample_agent ?s1, OF _ _ _ run2] run1 run2
    waiting_life [of _ ?s1] show ?thesis
    by (intro exI [of _ "[Internal, Internal, CallShutdown, Internal]"] exI [of _ ?s1]
        exI [of _ "[Internal, Internal, Internal, TaskEvent 0 (Changed True)]"] exI [of _ ?s2])
      (simp add: sample_watch_ok)
qed

section \<open>Calling run again\<close>



end
