(* ===== verification/Agent_Snapshot.thy ===== *)
theory Agent_Snapshot
  imports Agent_System_Props
begin

text \<open>
  \<open>RelayAgent::stats\<close> of \<open>lib.rs\<close> on a running agent. The macro that defines the counters expands
  \<open>snapshot\<close> to one atomic load per counter, in the order of the fields; between two loads the
  tasks go on. A snapshot is taken by a reader whose loads interleave with the steps of the agent.
\<close>

section \<open>The reader\<close>

text \<open>The load of the \<open>k\<close>-th counter into the snapshot.\<close>

definition counter_loads :: "(relay_stats \<Rightarrow> relay_stats \<Rightarrow> relay_stats) list" where
  "counter_loads =
     [\<lambda>st snap. snap\<lparr>packets_received := packets_received st\<rparr>,
      \<lambda>st snap. snap\<lparr>packets_forwarded := packets_forwarded st\<rparr>,
      \<lambda>st snap. snap\<lparr>packets_dropped_parse_error := packets_dropped_parse_error st\<rparr>,
      \<lambda>st snap. snap\<lparr>packets_dropped_spoof := packets_dropped_spoof st\<rparr>,
      \<lambda>st snap. snap\<lparr>option82_inserted := option82_inserted st\<rparr>,
      \<lambda>st snap. snap\<lparr>option82_stripped := option82_stripped st\<rparr>,
      \<lambda>st snap. snap\<lparr>vss_not_supported := vss_not_supported st\<rparr>,
      \<lambda>st snap. snap\<lparr>smf_duplicates_detected := smf_duplicates_detected st\<rparr>,
      \<lambda>st snap. snap\<lparr>smf_forwarded := smf_forwarded st\<rparr>]"

text \<open>
  \<open>reading E s0 ls s k snap\<close>: a reader that began in state \<open>s0\<close> has done \<open>k\<close> loads, with the result
  \<open>snap\<close>, while the agent has gone from \<open>s0\<close> to \<open>s\<close> by the steps \<open>ls\<close>.
\<close>

inductive reading ::
    "('c, 'r) agent_env \<Rightarrow> ('c, 'r) agent_state \<Rightarrow> agent_label list \<Rightarrow> ('c, 'r) agent_state \<Rightarrow>
     nat \<Rightarrow> relay_stats \<Rightarrow> bool"
  for E :: "('c, 'r) agent_env" and s0 :: "('c, 'r) agent_state" where
  begin_read: "reading E s0 [] s0 0 stats_default"
| agent_moves: "reading E s0 ls s k snap \<Longrightarrow> agent_step E s l s' \<Longrightarrow> reading E s0 (ls @ [l]) s' k snap"
| load: "reading E s0 ls s k snap \<Longrightarrow> k < length counter_loads \<Longrightarrow>
    reading E s0 ls s (Suc k) ((counter_loads ! k) (as_stats s) snap)"

text \<open>The reader has returned: all counters are loaded.\<close>

definition snapshot_taken ::
    "('c, 'r) agent_env \<Rightarrow> ('c, 'r) agent_state \<Rightarrow> agent_label list \<Rightarrow> ('c, 'r) agent_state \<Rightarrow>
     relay_stats \<Rightarrow> bool" where
  "snapshot_taken E s0 ls s snap \<longleftrightarrow> reading E s0 ls s (length counter_loads) snap"

lemma length_loads [simp]: "length counter_loads = 9"
  by (simp add: counter_loads_def)

lemma loads_received [simp]:
  "k < 9 \<Longrightarrow> packets_received ((counter_loads ! k) st snap) =
     (if k = 0 then packets_received st else packets_received snap)"
  "k < 9 \<Longrightarrow> packets_forwarded ((counter_loads ! k) st snap) =
     (if k = 1 then packets_forwarded st else packets_forwarded snap)"
  by (auto simp: counter_loads_def nth_Cons split: nat.splits)

text \<open>With nothing going on meanwhile the loads give the counters as they are.\<close>

lemma all_loads: "fold (\<lambda>k snap. (counter_loads ! k) st snap) [0..<9] stats_default = stats_snapshot st"
  by (simp add: upt_conv_Cons counter_loads_def stats_default_def)

section \<open>The agent meanwhile\<close>

fun datagrams :: "agent_label list \<Rightarrow> nat" where
  "datagrams [] = 0"
| "datagrams (TaskEvent i (Received (Inr p)) # ls) = Suc (datagrams ls)"
| "datagrams (_ # ls) = datagrams ls"

lemma datagrams_snoc: "datagrams (ls @ [l]) = datagrams ls + datagrams [l]"
  by (induction ls rule: datagrams.induct) simp_all

text \<open>Every task of the agent has a handler that fulfils the contract of the loop.\<close>

definition tasks_account :: "('c, 'r) agent_state \<Rightarrow> bool" where
  "tasks_account s \<longleftrightarrow> (\<forall>t \<in> set (as_tasks s). datagram_handler (rn_handle t))"

lemma step_counts:
  assumes "agent_step (agent_env_of W A B udp agent) s l s'" "tasks_account s"
  shows "tasks_account s' \<and> (datagrams [l] = 0 \<longrightarrow> as_stats s' = as_stats s) \<and>
    packets_received (as_stats s') = packets_received (as_stats s) + of_nat (datagrams [l]) \<and>
    (\<exists>b \<le> datagrams [l]. packets_forwarded (as_stats s') = packets_forwarded (as_stats s) + of_nat b)"
  using assms(1)
proof cases
  case (spawn f r iface ifaces h c q)
  from env_additive [OF spawn(4)] have "datagram_handler h" by (simp add: additive_handler_def)
  with spawn assms(2) show ?thesis by (simp add: tasks_account_def running_new_def)
next
  case (wake i stop)
  with assms(2) show ?thesis
    by (auto simp: tasks_account_def task_wake_def Let_def dest!: set_update_subset_insert [THEN subsetD])
next
  case (receive i t data src st out)
  then have h: "datagram_handler (rn_handle t)" using assms(2) by (auto simp: tasks_account_def)
  obtain st' sent where "rn_handle t data src (as_stats s) = Some (st', sent)" "length sent \<le> 1"
    "packets_received st' = packets_received (as_stats s) + 1"
    "packets_forwarded st' = packets_forwarded (as_stats s) + of_nat (length sent)"
    by (rule datagram_handler.handle_cases [OF h])
  with receive h assms(2) show ?thesis
    by (auto simp: tasks_account_def dest!: set_update_subset_insert [THEN subsetD])
qed (use assms(2) in \<open>auto simp: tasks_account_def call_shutdown_def\<close>)

lemma history_account:
  "agent_history (agent_env_of W A B udp agent) s0 ls s \<Longrightarrow> tasks_account s0 \<Longrightarrow> tasks_account s"
  by (induction rule: agent_history.induct) (simp_all add: step_counts)

section \<open>What a snapshot shows\<close>

definition so_far :: "('c, 'r) agent_state \<Rightarrow> nat \<Rightarrow> relay_stats \<Rightarrow> nat \<Rightarrow> bool" where
  "so_far s0 n st b \<longleftrightarrow>
     packets_received st = packets_received (as_stats s0) + of_nat n \<and> b \<le> n \<and>
     packets_forwarded st = packets_forwarded (as_stats s0) + of_nat b"

lemma reading_invariant:
  assumes "reading (agent_env_of W A B udp agent) s0 ls s k snap" "tasks_account s0"
  shows "tasks_account s \<and> (\<exists>b. so_far s0 (datagrams ls) (as_stats s) b) \<and>
    (datagrams ls = 0 \<longrightarrow> as_stats s = as_stats s0 \<and>
       snap = fold (\<lambda>k snap. (counter_loads ! k) (as_stats s0) snap) [0..<k] stats_default) \<and>
    (0 < k \<longrightarrow> (\<exists>a \<le> datagrams ls.
       packets_received snap = packets_received (as_stats s0) + of_nat a)) \<and>
    (1 < k \<longrightarrow> (\<exists>b \<le> datagrams ls.
       packets_forwarded snap = packets_forwarded (as_stats s0) + of_nat b))"
  using assms
proof induction
  case begin_read
  then show ?case by (simp add: so_far_def)
next
  case (agent_moves ls s k snap l s')
  note step = step_counts [OF agent_moves.hyps(2)]
  from agent_moves obtain b c where b: "so_far s0 (datagrams ls) (as_stats s) b"
    and c: "c \<le> datagrams [l]" "packets_forwarded (as_stats s') = packets_forwarded (as_stats s) + of_nat c"
    using step by blast
  have "so_far s0 (datagrams (ls @ [l])) (as_stats s') (b + c)"
    using b c step agent_moves by (simp add: so_far_def datagrams_snoc ac_simps)
  with agent_moves step show ?case
    by (auto simp: datagrams_snoc [of ls l] intro: trans_le_add1)
next
  case (load ls s k snap)
  then show ?case by (auto simp: so_far_def)
qed

text \<open>
  A snapshot can be torn: when a task handles a datagram after the load of the first counter, the
  snapshot has the old count of received packets with the new values of all other counters.
\<close>

lemma reading_loads:
  "reading E s0 ls s k snap \<Longrightarrow> k + n \<le> 9 \<Longrightarrow>
   reading E s0 ls s (k + n) (fold (\<lambda>k snap. (counter_loads ! k) (as_stats s) snap) [k..<k + n] snap)"
  by (induction n) (auto dest: reading.load)

lemma snapshot_torn:
  assumes "agent_step E s (TaskEvent i (Received (Inr p))) s'"
  shows "snapshot_taken E s [TaskEvent i (Received (Inr p))] s'
    ((stats_snapshot (as_stats s'))\<lparr>packets_received := packets_received (as_stats s)\<rparr>)"
proof -
  let ?snap = "(counter_loads ! 0) (as_stats s) stats_default"
  have "reading E s [] s (Suc 0) ?snap" by (rule reading.load) (simp_all add: reading.begin_read)
  from reading.agent_moves [OF this assms]
  have "reading E s [TaskEvent i (Received (Inr p))] s' 1 ?snap" by simp
  note rest = reading_loads [OF this, of 8]
  have "fold (\<lambda>k snap. (counter_loads ! k) (as_stats s') snap) [1..<1 + 8] ?snap =
      (as_stats s')\<lparr>packets_received := packets_received (as_stats s)\<rparr>"
    by (cases "as_stats s'") (simp add: upt_conv_Cons counter_loads_def stats_default_def)
  with rest show ?thesis by (simp add: snapshot_taken_def)
qed

text \<open>
  C26: what \<open>stats\<close> returns on a running agent. From the start of the agent on, a snapshot is
  exact when no datagram was handled while it was taken. Otherwise each of its two packet counts
  lies between the value at its begin and the value with all datagrams handled meanwhile, of which
  none is lost from the counters themselves.
\<close>

theorem snapshot_between:
  assumes "agent_history (agent_env_of W A B udp agent) (agent_init W agent) ls0 s0"
    and "snapshot_taken (agent_env_of W A B udp agent) s0 ls s snap"
  shows "(datagrams ls = 0 \<longrightarrow> snap = stats_snapshot (as_stats s)) \<and>
    packets_received (as_stats s) = packets_received (as_stats s0) + of_nat (datagrams ls) \<and>
    (\<exists>a \<le> datagrams ls. packets_received snap = packets_received (as_stats s0) + of_nat a) \<and>
    (\<exists>b \<le> datagrams ls. packets_forwarded snap = packets_forwarded (as_stats s0) + of_nat b)"
proof -
  have "tasks_account (agent_init W agent)"
    by (simp add: tasks_account_def agent_init_def Let_def split: prod.splits)
  from reading_invariant [OF assms(2) [unfolded snapshot_taken_def] history_account [OF assms(1) this]]
  show ?thesis by (auto simp: so_far_def all_loads [unfolded stats_snapshot_id])
qed

text \<open>The witness is a torn snapshot that shows more packets forwarded than received.\<close>

lemma sample_offer_relayed:
  assumes "sc4_enable_option82 (t4_ctx task)"
  shows "\<exists>b. v4_datagram sample_v4 task sample_offer src st =
    Some (count_stripped (count_forwarded (count_received st)), [b])"
proof -
  let ?m = "(Ipv4Addr 10 0 0 1, Ipv4Addr 192 168 0 7, 2 :: byte, Some [(0 :: byte, [66 :: byte])])"
  let ?ctx = "t4_ctx task"
  let ?vss = "when_enabled (sc4_vss_enabled ?ctx) (sc4_vss_cfg ?ctx)"
  have dec: "v4_decode sample_v4 sample_offer = Inr ?m"
    by (simp add: sample_offer_def get_subs.simps raw_info_def)
  have ord: "ordered_iteration sample_v4"
    unfolding ordered_iteration_def using sample_iter_ordered by simp
  have "expected_sub_opts sample_v4 ?m = Some (sub_opts_of sample_v4 [(0, [66])])"
    by (simp add: expected_sub_opts_def sample_get_def)
  moreover have "v4_get sample_v4 ?m RelayAgentInformationCode = Some (RelayAgentInformation [(0, [66])])"
    by (simp add: sample_get_def)
  ultimately have "\<exists>i. v4_get sample_v4 ?m RelayAgentInformationCode = Some (RelayAgentInformation i) \<and>
      expected_sub_opts sample_v4 ?m = Some (sub_opts_of sample_v4 i)" by blast
  from own_echo_run [OF sample_v4_ok sample_v4_total ord dec disjI2 [OF this], of ?vss True src "t4_iface_name task"]
  obtain c' dst where "relay_reply sample_v4 (expected_sub_opts sample_v4 ?m) ?vss True sample_offer src
      (t4_iface_name task) = Some (Inr True, c')" "dst_addr c' = Some dst" by auto
  then show ?thesis
    using dec assms by (simp add: v4_datagram_def server_run send_result_def Let_def)
qed

theorem snapshot_between_witness:
  "\<exists>ls0 s0 ls s snap. agent_history sample_env (agent_init sample_watch sample_agent) ls0 s0 \<and>
     snapshot_taken sample_env s0 ls s snap \<and> datagrams ls = 1 \<and>
     packets_received snap = 0 \<and> packets_forwarded snap = 1 \<and> packets_received (as_stats s) = 1"
proof -
  obtain t4 t6 where h: "en_spawn sample_env Dhcp4 sample_iface = Inr (Some (v4_datagram sample_v4 t4))"
    "en_spawn sample_env Dhcp6 sample_iface = Inr (Some (v6_datagram sample_v6 t6))"
    and ctx: "t4_ctx t4 = v4_from_inner sample_config" by (rule sample_spawn)
  have "sc4_enable_option82 (t4_ctx t4)"
    by (simp add: ctx v4_from_inner_def sample_config_def relay_config_default_def
        dhcpv4_config_default_def Let_def)
  from sample_offer_relayed [OF this, of sample_server stats_default] obtain b where
    b: "v4_datagram sample_v4 t4 sample_offer sample_server stats_default =
      Some (count_stripped (count_forwarded (count_received stats_default)), [b])" by blast
  let ?t = "running_new 2 (v4_datagram sample_v4 t4)"
  let ?s0 = "sample_state (False, [(6, False), (2, False)]) Waiting
    [?t, running_new 6 (v6_datagram sample_v6 t6)]"
  let ?l = "TaskEvent 0 (Received (Inr (sample_offer, sample_server)))"
  have "\<not> w_unseen sample_watch (as_chan ?s0) (rn_rx ?t)"
    by (simp add: sample_watch_def running_new_def)
  with agent_step.receive [of 0 ?s0 ?t sample_env sample_offer sample_server _ "[b]"] b obtain s where
    step: "agent_step sample_env ?s0 ?l s"
    and st: "as_stats s = count_stripped (count_forwarded (count_received stats_default))"
    by (auto simp: running_new_def)
  note hist = sample_waiting [OF h(1,2)] and snap = snapshot_torn [OF step]
  from snapshot_between [OF hist [unfolded sample_env_def] snap [unfolded sample_env_def]]
  have "packets_received (as_stats s) = 1" by (simp add: stats_default_def)
  moreover have "packets_received (as_stats ?s0) = 0" "packets_forwarded (as_stats s) = 1" "datagrams [?l] = 1"
    by (simp_all add: st stats_default_def)
  ultimately show ?thesis
    using hist snap
    by (intro exI [of _ "[Internal, Internal, Internal, Internal, Internal, Internal]"] exI [of _ ?s0]
        exI [of _ "[?l]"] exI [of _ s]
        exI [of _ "(stats_snapshot (as_stats s))\<lparr>packets_received := packets_received (as_stats ?s0)\<rparr>"])
      simp
qed

end
