(* ===== verification/Udp_Transport.thy ===== *)
theory Udp_Transport
  imports Net_Addr
begin

text \<open>
  \<open>transport/mod.rs\<close> and \<open>transport/udp.rs\<close>: the transport of a task, a socket with a buffer that
  every receive reuses. The sockets of \<open>tokio\<close> are not part of the repository: their state \<open>'s\<close> and
  their operations are parameters, with errors given by their rendering.

  \<open>udp_ok\<close> states what the documentation of \<open>recv_from\<close> says: a successful receive takes the
  datagram that arrives, writes it to the front of the buffer and returns its length and origin;
  what does not fit is discarded. \<open>udp_incoming\<close> is the datagram that arrives next, which only
  this law mentions.
\<close>

record 's udp_api =
  udp_bind :: "socket_addr \<Rightarrow> string + 's"
  udp_recv :: "'s \<Rightarrow> bytes \<Rightarrow> (string + nat \<times> socket_addr) \<times> bytes \<times> 's"
  udp_send :: "'s \<Rightarrow> bytes \<Rightarrow> socket_addr \<Rightarrow> (string + nat) \<times> 's"
  udp_local :: "'s \<Rightarrow> string + socket_addr"
  udp_incoming :: "'s \<Rightarrow> bytes \<times> socket_addr"

definition udp_ok :: "'s udp_api \<Rightarrow> bool" where
  "udp_ok U \<longleftrightarrow>
     (\<forall>s buf r buf' s'. udp_recv U s buf = (r, buf', s') \<longrightarrow>
        length buf' = length buf \<and>
        (\<forall>n src. r = Inr (n, src) \<longrightarrow>
           (\<exists>d. udp_incoming U s = (d, src) \<and> n = min (length d) (length buf) \<and>
              take n buf' = take n d)))"

section \<open>The transport\<close>

record 's udp_transport =
  tr_socket :: 's
  tr_buf :: bytes

definition transport_bind :: "'s udp_api \<Rightarrow> socket_addr \<Rightarrow> string + 's udp_transport" where
  "transport_bind U addr =
     (case udp_bind U addr of
        Inl e \<Rightarrow> Inl e
      | Inr s \<Rightarrow> Inr \<lparr> tr_socket = s, tr_buf = replicate 65535 0 \<rparr>)"

text \<open>The outer option is the panic of a slice out of bounds.\<close>

definition transport_recv ::
    "'s udp_api \<Rightarrow> 's udp_transport \<Rightarrow> ((string + bytes \<times> socket_addr) \<times> 's udp_transport) option" where
  "transport_recv U t =
     (let (r, buf, s) = udp_recv U (tr_socket t) (tr_buf t); t' = t\<lparr>tr_socket := s, tr_buf := buf\<rparr> in
      case r of
        Inl e \<Rightarrow> Some (Inl e, t')
      | Inr (len, src) \<Rightarrow>
         (case slice_of buf 0 len of
            None \<Rightarrow> None
          | Some data \<Rightarrow> Some (Inr (data, src), t')))"

definition transport_send ::
    "'s udp_api \<Rightarrow> 's udp_transport \<Rightarrow> bytes \<Rightarrow> socket_addr \<Rightarrow> (string + nat) \<times> 's udp_transport" where
  "transport_send U t buf dst =
     (let (r, s) = udp_send U (tr_socket t) buf dst in (r, t\<lparr>tr_socket := s\<rparr>))"

definition transport_local_addr :: "'s udp_api \<Rightarrow> 's udp_transport \<Rightarrow> string + socket_addr" where
  "transport_local_addr U t = udp_local U (tr_socket t)"

text \<open>What the construction of a task sees of a bind: its error, or the local address.\<close>

definition transport_bound :: "'s udp_api \<Rightarrow> socket_addr \<Rightarrow> string + (string + socket_addr)" where
  "transport_bound U addr = map_sum id (transport_local_addr U) (transport_bind U addr)"

section \<open>The buffer\<close>

text \<open>
  One receive from a transport with a buffer of full size: it does not panic, keeps the size, and
  what it returns does not depend on what the buffer held before.
\<close>

text \<open>What a receive may return for a datagram: an error, or the datagram up to the buffer size.\<close>

definition recv_exact :: "(bytes \<times> socket_addr) \<times> (string + bytes \<times> socket_addr) \<Rightarrow> bool" where
  "recv_exact p \<longleftrightarrow>
     (case p of ((d, from), r) \<Rightarrow> (case r of Inl e \<Rightarrow> True | Inr q \<Rightarrow> q = (take 65535 d, from)))"

lemma recv_full:
  assumes "udp_ok U" "length (tr_buf t) = 65535"
  shows "\<exists>r t'. transport_recv U t = Some (r, t') \<and> length (tr_buf t') = 65535 \<and>
    recv_exact (udp_incoming U (tr_socket t), r)"
proof -
  obtain r buf s where recv: "udp_recv U (tr_socket t) (tr_buf t) = (r, buf, s)" by (metis prod_cases3)
  with assms have len: "length buf = 65535" unfolding udp_ok_def by metis
  show ?thesis
  proof (cases r)
    case (Inl e)
    with recv len show ?thesis by (simp add: transport_recv_def recv_exact_def split: prod.splits)
  next
    case (Inr p)
    obtain n src where r: "r = Inr (n, src)" using Inr by (cases p) auto
    with assms recv obtain d where d: "udp_incoming U (tr_socket t) = (d, src)"
      "n = min (length d) 65535" "take n buf = take n d"
      unfolding udp_ok_def by metis
    then have "slice_of buf 0 n = Some (take 65535 d)" using len by (simp add: slice_of_def min_def)
    with recv r len d(1) show ?thesis by (simp add: transport_recv_def recv_exact_def)
  qed
qed

section \<open>Runs of a transport\<close>

text \<open>
  The receives and sends of a task in order. The log has for every receive the datagram that
  arrived and the result of the receive.
\<close>

datatype transport_op = RecvOp | SendOp bytes socket_addr

type_synonym recv_log = "((bytes \<times> socket_addr) \<times> (string + bytes \<times> socket_addr)) list"

fun transport_run ::
    "'s udp_api \<Rightarrow> 's udp_transport \<Rightarrow> transport_op list \<Rightarrow> (recv_log \<times> 's udp_transport) option" where
  "transport_run U t [] = Some ([], t)"
| "transport_run U t (RecvOp # ops) =
     (case transport_recv U t of
        None \<Rightarrow> None
      | Some (r, t') \<Rightarrow>
         map_option (apfst (Cons (udp_incoming U (tr_socket t), r))) (transport_run U t' ops))"
| "transport_run U t (SendOp buf dst # ops) =
     transport_run U (snd (transport_send U t buf dst)) ops"

lemma run_full:
  assumes "udp_ok U" "length (tr_buf t) = 65535"
  shows "\<exists>log t'. transport_run U t ops = Some (log, t') \<and> length (tr_buf t') = 65535 \<and>
    list_all recv_exact log"
  using assms(2)
proof (induction ops arbitrary: t)
  case (Cons op ops)
  show ?case
  proof (cases op)
    case RecvOp
    from recv_full [OF assms(1) Cons.prems] obtain r t1 where r: "transport_recv U t = Some (r, t1)"
      "length (tr_buf t1) = 65535" "recv_exact (udp_incoming U (tr_socket t), r)" by blast
    from Cons.IH [OF r(2)] r RecvOp show ?thesis by auto
  next
    case (SendOp buf dst)
    have "length (tr_buf (snd (transport_send U t buf dst))) = 65535"
      using Cons.prems by (simp add: transport_send_def split_def Let_def)
    from Cons.IH [OF this] SendOp show ?thesis by simp
  qed
qed simp

text \<open>
  The transport of a task receives datagrams exactly. From \<open>bind\<close> on and whatever is received
  and sent, the buffer keeps its 65535 bytes, no receive panics, and every successful receive
  returns the origin and the first 65535 bytes of the datagram that arrived: nothing of an earlier
  datagram that the buffer still holds.
\<close>

lemma transport_receives_exactly:
  assumes "udp_ok U" "transport_bind U addr = Inr t"
  shows "\<exists>log t'. transport_run U t ops = Some (log, t') \<and> length (tr_buf t') = 65535 \<and>
    list_all recv_exact log"
  using assms(2) by (intro run_full [OF assms(1)]) (auto simp: transport_bind_def split: sum.splits)

text \<open>An instance: a socket is the queue of the datagrams that are still to arrive.\<close>

definition sample_udp :: "(bytes \<times> socket_addr) list \<Rightarrow> (bytes \<times> socket_addr) list udp_api" where
  "sample_udp arriving =
     \<lparr> udp_bind = (\<lambda>addr. Inr arriving),
       udp_recv = (\<lambda>q buf. case q of
          [] \<Rightarrow> (Inl ''no datagram'', buf, [])
        | (d, src) # q' \<Rightarrow>
            (let n = min (length d) (length buf) in (Inr (n, src), take n d @ drop n buf, q'))),
       udp_send = (\<lambda>q buf dst. (Inr (length buf), q)),
       udp_local = (\<lambda>q. Inr (SocketAddrV4 IPV4_UNSPECIFIED 67)),
       udp_incoming = (\<lambda>q. case q of [] \<Rightarrow> ([], SocketAddrV4 IPV4_UNSPECIFIED 67) | p # q' \<Rightarrow> p) \<rparr>"

lemma sample_udp_ok: "udp_ok (sample_udp arriving)"
  by (auto simp: udp_ok_def sample_udp_def Let_def split: list.splits)

end
