(* ===== verification/Agent_Socket.thy ===== *)
theory Agent_Socket
  imports Agent_Props Udp_Transport
begin

text \<open>
  A task of \<open>lib.rs\<close> with its socket: the loop receives with \<open>recv_from\<close> of its transport and the
  handlers send with \<open>send_to\<close>. \<open>select!\<close> is given by what becomes ready, the shutdown channel or
  the socket. The loop over a socket refines the loop over events.
\<close>

section \<open>The loop over a socket\<close>

datatype ready = ShutdownChanged bool | SocketReady

text \<open>The results of \<open>send_to\<close> are ignored.\<close>

definition send_all :: "'s udp_api \<Rightarrow> sends \<Rightarrow> 's udp_transport \<Rightarrow> 's udp_transport" where
  "send_all U out t = fold (\<lambda>(buf, dst) t. snd (transport_send U t buf dst)) out t"

text \<open>
  The trace holds what the loop has seen: values of the channel, and for every receive the
  datagram that arrived with the result of the receive.
\<close>

datatype seen_event = SawChange bool | SawReceive "bytes \<times> socket_addr" "string + bytes \<times> socket_addr"

record 's socket_loop =
  sl_transport :: "'s udp_transport"
  sl_stats :: relay_stats
  sl_sent :: sends
  sl_seen :: "seen_event list"

definition loop_received ::
    "'s udp_api \<Rightarrow> (bytes \<Rightarrow> socket_addr \<Rightarrow> relay_stats \<Rightarrow> handled) \<Rightarrow> 's socket_loop \<Rightarrow>
     's socket_loop option" where
  "loop_received U handle l =
     (case transport_recv U (sl_transport l) of
        None \<Rightarrow> None
      | Some (r, t) \<Rightarrow>
         (let l1 = l\<lparr>sl_transport := t,
                sl_seen := sl_seen l @ [SawReceive (udp_incoming U (tr_socket (sl_transport l))) r]\<rparr> in
          case r of
            Inl e \<Rightarrow> Some l1
          | Inr (data, src) \<Rightarrow>
             (case handle data src (sl_stats l) of
                None \<Rightarrow> None
              | Some (st, out) \<Rightarrow>
                  Some (l1\<lparr>sl_transport := send_all U out t, sl_stats := st,
                           sl_sent := sl_sent l @ out\<rparr>))))"

fun socket_run ::
    "'s udp_api \<Rightarrow> (bytes \<Rightarrow> socket_addr \<Rightarrow> relay_stats \<Rightarrow> handled) \<Rightarrow> ready list \<Rightarrow> 's socket_loop \<Rightarrow>
     (bool \<times> 's socket_loop) option" where
  "socket_run U handle [] l = Some (False, l)"
| "socket_run U handle (ShutdownChanged stop # rs) l =
     (let l1 = l\<lparr>sl_seen := sl_seen l @ [SawChange stop]\<rparr> in
      if stop then Some (True, l1) else socket_run U handle rs l1)"
| "socket_run U handle (SocketReady # rs) l =
     (case loop_received U handle l of None \<Rightarrow> None | Some l' \<Rightarrow> socket_run U handle rs l')"

section \<open>Refinement\<close>

text \<open>The event of the loop over events, and that a receive returned what had arrived.\<close>

fun event_of :: "seen_event \<Rightarrow> task_event" where
  "event_of (SawChange stop) = Changed stop"
| "event_of (SawReceive d r) = Received r"

fun seen_exact :: "seen_event \<Rightarrow> bool" where
  "seen_exact (SawChange stop) = True"
| "seen_exact (SawReceive d r) = recv_exact (d, r)"

lemma send_all_buf [simp]: "length (tr_buf (send_all U out t)) = length (tr_buf t)"
proof -
  have "tr_buf (fold (\<lambda>(buf, dst) t. snd (transport_send U t buf dst)) out t) = tr_buf t"
    by (induction out arbitrary: t) (auto simp: transport_send_def Let_def split_def)
  then show ?thesis by (simp add: send_all_def)
qed

text \<open>What the loop over the socket has done corresponds to a run of the loop over the events.\<close>

definition loop_ok ::
    "(bytes \<Rightarrow> socket_addr \<Rightarrow> relay_stats \<Rightarrow> handled) \<Rightarrow> relay_stats \<Rightarrow> bool \<Rightarrow> 's socket_loop \<Rightarrow> bool" where
  "loop_ok handle st0 stop l \<longleftrightarrow>
     length (tr_buf (sl_transport l)) = 65535 \<and> list_all seen_exact (sl_seen l) \<and>
     task_run handle (map event_of (sl_seen l)) (st0, []) = Some (stop, sl_stats l, sl_sent l)"

context datagram_handler
begin

lemma received_ok:
  assumes "udp_ok U" "loop_ok handle st0 False l"
  shows "\<exists>l'. loop_received U handle l = Some l' \<and> loop_ok handle st0 False l' \<and>
    length (sl_seen l') = Suc (length (sl_seen l))"
proof -
  from assms have len: "length (tr_buf (sl_transport l)) = 65535" by (simp add: loop_ok_def)
  from recv_full [OF assms(1) this] obtain r t where recv: "transport_recv U (sl_transport l) = Some (r, t)"
    "length (tr_buf t) = 65535" "recv_exact (udp_incoming U (tr_socket (sl_transport l)), r)" by blast
  let ?seen = "sl_seen l @ [SawReceive (udp_incoming U (tr_socket (sl_transport l))) r]"
  from assms(2) have run: "task_run handle (map event_of ?seen) (st0, []) =
      task_run handle [Received r] (sl_stats l, sl_sent l)"
    by (simp add: loop_ok_def task_run_snoc)
  show ?thesis
  proof (cases r)
    case (Inl e)
    with assms(2) recv run show ?thesis by (simp add: loop_received_def loop_ok_def)
  next
    case (Inr p)
    obtain data src where p: "p = (data, src)" by fastforce
    obtain st' sent where "handle data src (sl_stats l) = Some (st', sent)" by (rule handle_cases)
    with assms(2) recv run Inr p show ?thesis by (simp add: loop_received_def loop_ok_def)
  qed
qed

lemma socket_refines:
  assumes "udp_ok U" "loop_ok handle st0 False l"
  shows "\<exists>l'. socket_run U handle rs l = Some (ShutdownChanged True \<in> set rs, l') \<and>
    loop_ok handle st0 (ShutdownChanged True \<in> set rs) l' \<and>
    length (sl_seen l') \<le> length (sl_seen l) + length rs"
  using assms(2)
proof (induction rs arbitrary: l)
  case Nil
  then show ?case by auto
next
  case (Cons r rs)
  show ?case
  proof (cases r)
    case (ShutdownChanged stop)
    let ?l = "l\<lparr>sl_seen := sl_seen l @ [SawChange stop]\<rparr>"
    from Cons.prems have "loop_ok handle st0 stop ?l"
      by (simp add: loop_ok_def task_run_snoc)
    with Cons.IH [of ?l] ShutdownChanged show ?thesis by (cases stop) auto
  next
    case SocketReady
    from received_ok [OF assms(1) Cons.prems] obtain l' where
      "loop_received U handle l = Some l'" "loop_ok handle st0 False l'"
      "length (sl_seen l') = Suc (length (sl_seen l))" by blast
    with Cons.IH [of l'] SocketReady show ?thesis by simp
  qed
qed

end

text \<open>A task at its start: the transport just bound, nothing seen and nothing sent.\<close>

definition socket_start :: "'s udp_transport \<Rightarrow> relay_stats \<Rightarrow> 's socket_loop" where
  "socket_start t st = \<lparr> sl_transport = t, sl_stats = st, sl_sent = [], sl_seen = [] \<rparr>"

lemma bound_ok: "transport_bind U addr = Inr t \<Longrightarrow> loop_ok handle st False (socket_start t st)"
  by (auto simp: transport_bind_def socket_start_def loop_ok_def split: sum.splits)

text \<open>
  C14: a task with its socket refines the task over events. From the binding on and whatever
  becomes ready, the DHCPv4 and the DHCPv6 task never panic, neither in the handlers nor in the
  slices of the transport; each receive hands over the first 65535 bytes of the datagram that
  arrived, or an error; and what the task counts and sends is what the loop over events makes of
  exactly these results.
\<close>

theorem socket_tasks_refine:
  assumes "udp_ok U" "transport_bind U addr = Inr t"
    and "handle = v4_datagram A task4 \<or> handle = v6_datagram B task6"
  shows "\<exists>l. socket_run U handle rs (socket_start t st) = Some (ShutdownChanged True \<in> set rs, l) \<and>
    list_all seen_exact (sl_seen l) \<and> length (sl_seen l) \<le> length rs \<and>
    task_run handle (map event_of (sl_seen l)) (st, []) =
      Some (ShutdownChanged True \<in> set rs, sl_stats l, sl_sent l)"
proof -
  note start = assms(1) bound_ok [OF assms(2), where st = st]
  have "sl_seen (socket_start t st) = []" by (simp add: socket_start_def)
  with assms(3) v4_loop.socket_refines [OF start, of A task4 rs] v6_loop.socket_refines [OF start, of B task6 rs]
  show ?thesis by (fastforce simp: loop_ok_def)
qed

theorem socket_tasks_refine_witness:
  "\<exists>t l. (let a = SocketAddrV4 (Ipv4Addr 10 0 0 1) 67; U = sample_udp [([7], a), ([8], a)] in
     transport_bind U a = Inr t \<and>
     socket_run U (v4_datagram sample_v4 sample_task) [SocketReady, ShutdownChanged True, SocketReady]
       (socket_start t stats_default) = Some (True, l) \<and>
     sl_seen l = [SawReceive ([7], a) (Inr ([7], a)), SawChange True] \<and>
     sl_stats l = count_received stats_default \<and> sl_sent l = [])"
proof -
  let ?a = "SocketAddrV4 (Ipv4Addr 10 0 0 1) 67"
  let ?U = "sample_udp [([7], ?a), ([8], ?a)]"
  let ?h = "v4_datagram sample_v4 sample_task"
  let ?rs = "[SocketReady, ShutdownChanged True, SocketReady]"
  obtain t where t: "transport_bind ?U ?a = Inr t"
    by (simp add: transport_bind_def sample_udp_def)
  from socket_tasks_refine [OF sample_udp_ok t, of ?h sample_v4 sample_task undefined undefined ?rs stats_default]
  obtain l where run: "socket_run ?U ?h ?rs (socket_start t stats_default) = Some (True, l)"
    "list_all seen_exact (sl_seen l)"
    "task_run ?h (map event_of (sl_seen l)) (stats_default, []) = Some (True, sl_stats l, sl_sent l)" by auto
  have drop: "?h [7] ?a st = Some (count_received st, [])" for st by (simp add: v4_datagram_def)
  obtain r where seen: "sl_seen l = [SawReceive ([7], ?a) (Inr r), SawChange True]"
    using t run(1)
    by (auto simp: transport_bind_def sample_udp_def transport_recv_def loop_received_def
        socket_start_def slice_of_def drop Let_def split: option.splits)
  with run(2) have "r = ([7], ?a)" by (simp add: recv_exact_def)
  with seen t run drop show ?thesis by (intro exI [of _ t] exI [of _ l]) (simp add: Let_def)
qed

end
