(* ===== verification/Agent_Calls.thy ===== *)
theory Agent_Calls
  imports Agent_System_Props
begin

text \<open>
  Calls of \<open>run\<close> that overlap. \<open>RelayAgent::run\<close> takes \<open>&self\<close> and the agent is shared, so \<open>run\<close> can
  be called while another call is still spawning or waiting, and its future can be dropped before
  it has returned (cancellation). The calls share the channel, the
  counters and the addresses of the interfaces; each has its own phase and its own tasks. A task
  holds its socket until it ends, and a socket that is held is not given out again.
\<close>

section \<open>States\<close>

text \<open>
  The calls by their phases, in the order they were made, \<open>None\<close> for one whose future was dropped;
  the tasks of all calls, and for each of them the call that spawned it and the address its socket
  is bound to.
\<close>

record ('c, 'r) calls_state =
  cs_chan :: 'c
  cs_calls :: "'r phase option list"
  cs_tasks :: "'r running list"
  cs_socks :: "(nat \<times> socket_addr) list"
  cs_stats :: relay_stats

definition calls_init :: "('c, 'r) watch_api \<Rightarrow> relay_agent \<Rightarrow> ('c, 'r) calls_state" where
  "calls_init W agent =
     (let (c, r) = w_channel W False in
      \<lparr> cs_chan = w_drop W c r, cs_calls = [], cs_tasks = [], cs_socks = [], cs_stats = ag_stats agent \<rparr>)"

text \<open>The address that the body of each spawning loop binds.\<close>

fun bind_address :: "family \<Rightarrow> interface_config \<Rightarrow> socket_addr option" where
  "bind_address Dhcp4 iface = parse_socket_addr (if_ip_addr iface)"
| "bind_address Dhcp6 iface = parse_socket_addr (before_colon (if_ip_addr iface) @ '':547'')"

fun socket_port :: "socket_addr \<Rightarrow> u16" where
  "socket_port (SocketAddrV4 ip p) = p"
| "socket_port (SocketAddrV6 ip p flow scope) = p"

text \<open>
  The addresses in use: a task that ends drops its transport. \<open>binds used udp\<close> are the behaviours
  \<open>udp\<close> of \<open>UdpSocket::bind\<close> that are possible while these addresses are in use. The sockets set no
  option for reuse, so an address is refused while it is in use; port 0 asks for any free port.
\<close>

definition held :: "('c, 'r) calls_state \<Rightarrow> socket_addr list" where
  "held s = map (snd \<circ> fst) (filter (rn_alive \<circ> snd) (zip (cs_socks s) (cs_tasks s)))"

type_synonym bind_behaviour = "socket_addr list \<Rightarrow> bind_result \<Rightarrow> bool"

definition exclusive :: "bind_behaviour \<Rightarrow> bool" where
  "exclusive binds \<longleftrightarrow>
     (\<forall>used udp a. binds used udp \<longrightarrow> a \<in> set used \<longrightarrow> socket_port a \<noteq> 0 \<longrightarrow> (\<exists>e. udp a = Inl e))"

section \<open>Steps\<close>

text \<open>The agent as a call in phase \<open>ph\<close> sees it, with the tasks from \<open>base\<close> on as its own.\<close>

definition call_view :: "'r phase \<Rightarrow> nat \<Rightarrow> ('c, 'r) calls_state \<Rightarrow> ('c, 'r) agent_state" where
  "call_view ph base s =
     \<lparr> as_chan = cs_chan s, as_phase = ph, as_tasks = cs_tasks s, as_base = base, as_stats = cs_stats s \<rparr>"

text \<open>The socket that call \<open>j\<close> has bound when it has spawned a task for its next interface.\<close>

definition new_sock :: "nat \<Rightarrow> 'r phase \<Rightarrow> (nat \<times> socket_addr) list" where
  "new_sock j ph =
     (case ph of
        Spawning f r (iface # _) \<Rightarrow>
          (case bind_address f iface of Some a \<Rightarrow> [(j, a)] | None \<Rightarrow> [])
      | _ \<Rightarrow> [])"

definition call_moved :: "nat \<Rightarrow> 'r phase \<Rightarrow> ('c, 'r) agent_state \<Rightarrow> ('c, 'r) calls_state \<Rightarrow> ('c, 'r) calls_state" where
  "call_moved j ph v s =
     s\<lparr>cs_chan := as_chan v, cs_calls := (cs_calls s)[j := Some (as_phase v)], cs_tasks := as_tasks v,
       cs_socks := cs_socks s @
         (if length (as_tasks v) = length (cs_tasks s) then [] else new_sock j ph)\<rparr>"

definition task_moved :: "('c, 'r) agent_state \<Rightarrow> ('c, 'r) calls_state \<Rightarrow> ('c, 'r) calls_state" where
  "task_moved v s = s\<lparr>cs_chan := as_chan v, cs_tasks := as_tasks v, cs_stats := as_stats v\<rparr>"

definition own_ended :: "nat \<Rightarrow> ('c, 'r) calls_state \<Rightarrow> bool" where
  "own_ended j s \<longleftrightarrow> list_all (\<lambda>(p, t). fst p = j \<longrightarrow> \<not> rn_alive t) (zip (cs_socks s) (cs_tasks s))"

text \<open>
  What goes with the future of \<open>run\<close>: the receiver of the spawning loop. The handles it holds do not
  stop their tasks when they are dropped.
\<close>

definition drop_future :: "('c, 'r) watch_api \<Rightarrow> 'r phase \<Rightarrow> 'c \<Rightarrow> 'c" where
  "drop_future W ph c = (case ph of Spawning f r ifaces \<Rightarrow> w_drop W c r | _ \<Rightarrow> c)"

datatype calls_label = RunCalled | ShutdownCalled | RunStep nat | RunDropped nat | TaskStep nat task_event

inductive calls_step ::
    "('c, 'r) watch_api \<Rightarrow> ('m, 'i, 'f) v4_api \<Rightarrow> 'n v6_api \<Rightarrow> relay_agent \<Rightarrow> bind_behaviour \<Rightarrow>
     ('c, 'r) calls_state \<Rightarrow> calls_label \<Rightarrow> ('c, 'r) calls_state \<Rightarrow> bool"
  for W A B agent binds where
  run_called: "calls_step W A B agent binds s RunCalled
    (s\<lparr>cs_calls := cs_calls s @ [Some (Pending Dhcp4)]\<rparr>)"
| shutdown_called: "calls_step W A B agent binds s ShutdownCalled
    (s\<lparr>cs_chan := snd (w_send W (cs_chan s) True)\<rparr>)"
| run_moves: "j < length (cs_calls s) \<Longrightarrow> cs_calls s ! j = Some ph \<Longrightarrow> ph \<noteq> Waiting \<Longrightarrow> binds (held s) udp \<Longrightarrow>
    agent_step (agent_env_of W A B udp agent) (call_view ph 0 s) Internal v \<Longrightarrow>
    calls_step W A B agent binds s (RunStep j) (call_moved j ph v s)"
| run_returns: "j < length (cs_calls s) \<Longrightarrow> cs_calls s ! j = Some Waiting \<Longrightarrow> own_ended j s \<Longrightarrow>
    calls_step W A B agent binds s (RunStep j) (s\<lparr>cs_calls := (cs_calls s)[j := Some (Returned (Inr ()))]\<rparr>)"
| run_dropped: "j < length (cs_calls s) \<Longrightarrow> cs_calls s ! j = Some ph \<Longrightarrow>
    calls_step W A B agent binds s (RunDropped j)
      (s\<lparr>cs_chan := drop_future W ph (cs_chan s), cs_calls := (cs_calls s)[j := None]\<rparr>)"
| task_moves: "agent_step (agent_env_of W A B udp agent) (call_view Waiting 0 s) (TaskEvent i ev) v \<Longrightarrow>
    calls_step W A B agent binds s (TaskStep i ev) (task_moved v s)"

text \<open>The histories from \<open>s0\<close> on in which a label is only taken where \<open>allowed\<close> permits it.\<close>

inductive calls_history ::
    "('c, 'r) watch_api \<Rightarrow> ('m, 'i, 'f) v4_api \<Rightarrow> 'n v6_api \<Rightarrow> relay_agent \<Rightarrow> bind_behaviour \<Rightarrow>
     (('c, 'r) calls_state \<Rightarrow> calls_label \<Rightarrow> bool) \<Rightarrow>
     ('c, 'r) calls_state \<Rightarrow> calls_label list \<Rightarrow> ('c, 'r) calls_state \<Rightarrow> bool"
  for W A B agent binds allowed s0 where
  start: "calls_history W A B agent binds allowed s0 [] s0"
| step: "calls_history W A B agent binds allowed s0 ls s \<Longrightarrow> allowed s l \<Longrightarrow>
    calls_step W A B agent binds s l s' \<Longrightarrow> calls_history W A B agent binds allowed s0 (ls @ [l]) s'"

inductive_cases internal_cases: "agent_step E s Internal s'"
inductive_cases task_cases: "agent_step E s (TaskEvent i ev) s'"

lemma call_view_simps [simp]:
  "as_chan (call_view ph b s) = cs_chan s" "as_phase (call_view ph b s) = ph"
  "as_tasks (call_view ph b s) = cs_tasks s" "as_base (call_view ph b s) = b"
  "as_stats (call_view ph b s) = cs_stats s"
  by (simp_all add: call_view_def)

lemma calls_init_simps [simp]:
  "cs_calls (calls_init W agent) = []" "cs_tasks (calls_init W agent) = []"
  "cs_socks (calls_init W agent) = []" "cs_stats (calls_init W agent) = ag_stats agent"
  by (simp_all add: calls_init_def Let_def split: prod.splits)

lemma moved_simps [simp]:
  "cs_chan (call_moved j ph v s) = as_chan v" "cs_tasks (call_moved j ph v s) = as_tasks v"
  "cs_calls (call_moved j ph v s) = (cs_calls s)[j := Some (as_phase v)]"
  "cs_stats (call_moved j ph v s) = cs_stats s"
  "cs_chan (task_moved v s) = as_chan v" "cs_tasks (task_moved v s) = as_tasks v"
  "cs_calls (task_moved v s) = cs_calls s" "cs_socks (task_moved v s) = cs_socks s"
  "cs_stats (task_moved v s) = as_stats v"
  by (simp_all add: call_moved_def task_moved_def)

section \<open>What a step of one call does\<close>

lemma env_of_sel [simp]:
  "en_watch (agent_env_of W A B udp agent) = W"
  "en_ifaces (agent_env_of W A B udp agent) = interfaces (ag_config agent)"
  by (simp_all add: agent_env_of_def)

text \<open>The body of the loops: when it gives a task, nothing, or an error.\<close>

lemma env_spawn_simps:
  "en_spawn (agent_env_of W A B udp agent) f iface = Inr None \<longleftrightarrow> \<not> if_enabled iface"
  "en_spawn (agent_env_of W A B udp agent) f iface = Inr (Some h) \<Longrightarrow>
     if_enabled iface \<and> (\<exists>a loc. bind_address f iface = Some a \<and> udp a = Inr loc)"
  "en_spawn (agent_env_of W A B udp agent) f iface = Inl e \<Longrightarrow> bind_address f iface = Some a \<Longrightarrow>
     \<exists>m. e = Transport m"
  by (cases f; auto simp: agent_env_of_def family_handlers_def first_task_def first_server_def Let_def
      split: if_splits option.splits sum.splits)+

text \<open>A step of a call in phase \<open>ph\<close>: either it starts one task on a socket it binds, or none.\<close>

lemma call_step_sock:
  assumes "agent_step (agent_env_of W A B udp agent) (call_view ph 0 s) Internal v"
  obtains "as_tasks v = cs_tasks s" "cs_socks (call_moved j ph v s) = cs_socks s"
  | f r iface rest a loc q h where "ph = Spawning f r (iface # rest)" "if_enabled iface"
      "bind_address f iface = Some a" "udp a = Inr loc" "as_tasks v = cs_tasks s @ [running_new q h]"
      "cs_socks (call_moved j ph v s) = cs_socks s @ [(j, a)]"
  using assms
proof cases
  case (spawn f r iface ifaces h c q)
  then have en: "en_spawn (agent_env_of W A B udp agent) f iface = Inr (Some h)" by simp
  from env_spawn_simps(2) [OF this] obtain a loc where
    "if_enabled iface" "bind_address f iface = Some a" "udp a = Inr loc" by blast
  with spawn show thesis
    by (intro that(2) [of f r iface ifaces a loc q h]) (auto simp: call_moved_def new_sock_def)
qed (auto intro!: that(1) simp: call_moved_def)

text \<open>With exclusive sockets the address was free.\<close>

lemma call_step_tasks:
  assumes "agent_step (agent_env_of W A B udp agent) (call_view ph 0 s) Internal v"
    and "exclusive binds" "binds (held s) udp"
  obtains "as_tasks v = cs_tasks s" "cs_socks (call_moved j ph v s) = cs_socks s"
  | f r iface rest a q h where "ph = Spawning f r (iface # rest)" "if_enabled iface"
      "bind_address f iface = Some a" "a \<in> set (held s) \<Longrightarrow> socket_port a = 0"
      "as_tasks v = cs_tasks s @ [running_new q h]" "cs_socks (call_moved j ph v s) = cs_socks s @ [(j, a)]"
proof (rule call_step_sock [OF assms(1), of j])
  fix f r iface rest a loc q h
  assume *: "ph = Spawning f r (iface # rest)" "if_enabled iface"
    "bind_address f iface = Some a" "udp a = Inr loc" "as_tasks v = cs_tasks s @ [running_new q h]"
    "cs_socks (call_moved j ph v s) = cs_socks s @ [(j, a)]"
  have "a \<in> set (held s) \<Longrightarrow> socket_port a = 0"
    using assms(2,3) *(4) unfolding exclusive_def by (metis sum.distinct(1))
  with * show thesis by (intro that(2))
qed (rule that(1))

lemma task_step_phase: "agent_step E s (TaskEvent i ev) s' \<Longrightarrow> as_phase s' = as_phase s"
  by (erule task_cases) (auto simp: task_wake_def Let_def)

text \<open>No step of a task brings a task to life, or changes what there is of tasks.\<close>

lemma task_step_tasks:
  assumes "agent_step E s (TaskEvent i ev) s'"
  shows "length (as_tasks s') = length (as_tasks s) \<and>
    (\<forall>k. rn_alive (as_tasks s' ! k) \<longrightarrow> rn_alive (as_tasks s ! k)) \<and>
    map rn_rx (as_tasks s') = map rn_rx (as_tasks s)"
  using assms
proof cases
  case (wake stop)
  then show ?thesis
    by (cases "as_tasks s ! i") (auto simp: task_wake_def Let_def map_update nth_list_update list_update_same_conv)
next
  case (receive t data src st out)
  then show ?thesis
    by (cases t) (auto simp: map_update nth_list_update list_update_same_conv)
qed simp

section \<open>The receivers in use by all calls\<close>

definition call_rxs :: "'r phase option list \<Rightarrow> 'r list" where
  "call_rxs cs = concat (map (case_option [] phase_rxs) cs)"

lemma call_rxs_simps [simp]:
  "call_rxs [] = []" "call_rxs (c # cs) = case_option [] phase_rxs c @ call_rxs cs"
  "call_rxs (cs @ ds) = call_rxs cs @ call_rxs ds"
  by (simp_all add: call_rxs_def)

definition calls_rx :: "('c, 'r) watch_api \<Rightarrow> ('c, 'r) calls_state \<Rightarrow> bool" where
  "calls_rx W s \<longleftrightarrow>
     distinct (call_rxs (cs_calls s) @ alive_rxs (cs_tasks s)) \<and>
     w_live W (cs_chan s) = set (call_rxs (cs_calls s) @ alive_rxs (cs_tasks s))"

text \<open>Every call sees the receivers of the other calls as a frame, and so do the tasks.\<close>

lemma calls_rx_tasks: "calls_rx W s = rx_frame W (call_rxs (cs_calls s)) (call_view Waiting 0 s)"
  by (simp add: calls_rx_def rx_frame_def)

lemma calls_rx_frame:
  assumes "j < length (cs_calls s)" "cs_calls s ! j = Some ph"
  obtains R where "calls_rx W s \<longleftrightarrow> rx_frame W R (call_view ph b s)"
    "\<And>v. calls_rx W (call_moved j ph v s) \<longleftrightarrow> rx_frame W R v"
    "\<And>c s'. cs_calls s' = (cs_calls s)[j := c] \<Longrightarrow> case_option [] phase_rxs c = [] \<Longrightarrow>
       calls_rx W s' \<longleftrightarrow> rx_frame W R (call_view Waiting 0 s')"
proof -
  from split_at [OF assms(1)] obtain us vs where
    split: "cs_calls s = us @ cs_calls s ! j # vs" "\<And>y. (cs_calls s)[j := y] = us @ y # vs"
    by metis
  show thesis
  proof (rule that [of "call_rxs (us @ vs)"])
    show "calls_rx W s \<longleftrightarrow> rx_frame W (call_rxs (us @ vs)) (call_view ph b s)"
      unfolding calls_rx_def by (subst (1 2) split(1)) (auto simp: rx_frame_def assms(2))
  qed (auto simp: calls_rx_def rx_frame_def split(2))
qed

lemma calls_rx_init: "watch_ok W \<Longrightarrow> calls_rx W (calls_init W agent)"
  by (cases "w_channel W False") (auto simp: calls_rx_def calls_init_def drop_simps dest: channelD)

lemma calls_rx_step:
  assumes "watch_ok W" "calls_step W A B agent binds s l s'" "calls_rx W s"
  shows "calls_rx W s'"
  using assms(2)
proof cases
  case run_called
  with assms(3) show ?thesis by (simp add: calls_rx_def)
next
  case shutdown_called
  with assms show ?thesis by (simp add: calls_rx_def send_simps)
next
  case (run_moves j ph udp v)
  from calls_rx_frame [OF run_moves(3,4)] assms(1,3) rx_frame_step [OF _ run_moves(7)] run_moves(2)
  show ?thesis by (metis env_of_sel(1))
next
  case (run_returns j)
  show ?thesis
  proof (rule calls_rx_frame [OF run_returns(3,4), of W 0])
    fix R
    assume "calls_rx W s \<longleftrightarrow> rx_frame W R (call_view Waiting 0 s)"
      "\<And>c s'. cs_calls s' = (cs_calls s)[j := c] \<Longrightarrow> case_option [] phase_rxs c = [] \<Longrightarrow>
         calls_rx W s' \<longleftrightarrow> rx_frame W R (call_view Waiting 0 s')"
    from this(1) this(2) [of s' "Some (Returned (Inr ()))"] assms(3) run_returns(2)
    show ?thesis by (simp add: call_view_def)
  qed
next
  case (run_dropped j ph)
  show ?thesis
  proof (rule calls_rx_frame [OF run_dropped(3,4), of W 0])
    fix R
    assume R: "calls_rx W s \<longleftrightarrow> rx_frame W R (call_view ph 0 s)"
      "\<And>c s'. cs_calls s' = (cs_calls s)[j := c] \<Longrightarrow> case_option [] phase_rxs c = [] \<Longrightarrow>
         calls_rx W s' \<longleftrightarrow> rx_frame W R (call_view Waiting 0 s')"
    have "rx_frame W R (call_view Waiting 0 s')"
      using R(1) assms(1,3) run_dropped(2)
      by (cases ph) (auto simp: rx_frame_def drop_future_def drop_simps)
    then show ?thesis using R(2) [of s' None] run_dropped(2) by simp
  qed
next
  case (task_moves udp i ev v)
  note task_step_phase [OF task_moves(3)]
  moreover have "rx_frame W (call_rxs (cs_calls s)) v"
    using rx_frame_step [OF _ task_moves(3)] assms(1,3) by (simp add: calls_rx_tasks)
  ultimately show ?thesis using task_moves(2) by (simp add: calls_rx_def rx_frame_def)
qed

lemma call_rxs_in: "j < length cs \<Longrightarrow> cs ! j = Some ph \<Longrightarrow> set (phase_rxs ph) \<subseteq> set (call_rxs cs)"
  using nth_mem [of j cs] by (force simp: call_rxs_def)

lemma calls_rx_live:
  "calls_rx W s \<Longrightarrow> j < length (cs_calls s) \<Longrightarrow> cs_calls s ! j = Some ph \<Longrightarrow>
   set (phase_rxs ph) \<subseteq> w_live W (cs_chan s)"
  using call_rxs_in [of j "cs_calls s" ph] by (auto simp: calls_rx_def)

text \<open>The value of the channel is the same after a step other than \<open>shutdown\<close>.\<close>

lemma call_step_borrow:
  assumes "watch_ok (en_watch E)" "agent_step E s l s'" "l \<noteq> CallShutdown"
    and "set (phase_rxs (as_phase s)) \<subseteq> w_live (en_watch E) (as_chan s)"
  shows "w_borrow (en_watch E) (as_chan s') = w_borrow (en_watch E) (as_chan s)"
  using assms(2)
proof cases
  case (subscribe f c r)
  with subscribeD [OF assms(1) subscribe(4)] show ?thesis by (simp add: adds_receiver_def)
next
  case (spawn f r iface ifaces h c q)
  with assms(4) cloneD [OF assms(1) spawn(5)] show ?thesis by (simp add: adds_receiver_def)
qed (use assms in \<open>simp_all add: drop_simps changed_simps task_wake_def Let_def\<close>)

text \<open>What the other receivers see is the same after a step of a call.\<close>

lemma call_step_unseen:
  assumes "watch_ok (en_watch E)" "agent_step E s Internal s'"
    and "set (phase_rxs (as_phase s)) \<subseteq> w_live (en_watch E) (as_chan s)"
    and "q \<in> w_live (en_watch E) (as_chan s)" "q \<notin> set (phase_rxs (as_phase s))"
  shows "w_unseen (en_watch E) (as_chan s') q = w_unseen (en_watch E) (as_chan s) q"
  using assms(2)
proof cases
  case (subscribe f c r)
  with subscribeD [OF assms(1) subscribe(3)] assms(4) show ?thesis by (simp add: adds_receiver_def)
next
  case (spawn f r iface ifaces h c q)
  with assms(3,4) cloneD [OF assms(1) spawn(4)] show ?thesis by (simp add: adds_receiver_def)
qed (use assms in \<open>simp_all add: drop_simps\<close>)

end
