(* ===== verification/Agent_Ports.thy ===== *)
theory Agent_Ports
  imports Agent_Calls
begin

text \<open>
  The sockets of overlapping calls of \<open>run\<close>: no port is bound twice, so that until \<open>shutdown\<close> is called
  only one call ever gets tasks, and no call starts when two of its tasks would need one address.
\<close>

section \<open>No port is shared\<close>

lemma held_in:
  assumes "length (cs_socks s) = length (cs_tasks s)" "i < length (cs_tasks s)" "rn_alive (cs_tasks s ! i)"
  shows "snd (cs_socks s ! i) \<in> set (held s)"
proof -
  from assms(1,2) have "(cs_socks s ! i, cs_tasks s ! i) \<in> set (zip (cs_socks s) (cs_tasks s))"
    by (auto simp: in_set_zip)
  with assms(3) show ?thesis by (force simp: held_def)
qed

definition ports_apart :: "('c, 'r) calls_state \<Rightarrow> bool" where
  "ports_apart s \<longleftrightarrow>
     length (cs_socks s) = length (cs_tasks s) \<and>
     (\<forall>i<length (cs_tasks s). \<forall>k<i. rn_alive (cs_tasks s ! i) \<longrightarrow> rn_alive (cs_tasks s ! k) \<longrightarrow>
        snd (cs_socks s ! i) = snd (cs_socks s ! k) \<longrightarrow> socket_port (snd (cs_socks s ! i)) = 0)"

lemma ports_apart_spawn:
  assumes "ports_apart s" "cs_tasks s' = cs_tasks s @ [t]" "cs_socks s' = cs_socks s @ [(j, a)]"
    and "a \<in> set (held s) \<Longrightarrow> socket_port a = 0"
  shows "ports_apart s'"
proof -
  let ?n = "length (cs_tasks s)"
  have len: "length (cs_socks s) = ?n" using assms(1) by (simp add: ports_apart_def)
  have new: "socket_port a = 0" if "k < ?n" "rn_alive (cs_tasks s ! k)" "snd (cs_socks s ! k) = a" for k
    using held_in [OF len that(1,2)] assms(4) that(3) by simp
  have "socket_port (snd (cs_socks s' ! i)) = 0"
    if i: "i < length (cs_tasks s')" "k < i" and alive: "rn_alive (cs_tasks s' ! i)" "rn_alive (cs_tasks s' ! k)"
      and eq: "snd (cs_socks s' ! i) = snd (cs_socks s' ! k)" for i k
  proof (cases "i = ?n")
    case True
    with i alive eq new [of k] show ?thesis by (simp add: assms(2,3) len nth_append)
  next
    case False
    with i have "i < ?n" by (simp add: assms(2))
    with i alive eq assms(1) show ?thesis
      by (simp add: assms(2,3) len nth_append) (auto simp: ports_apart_def)
  qed
  then show ?thesis by (simp add: ports_apart_def assms(2,3) len)
qed

lemma ports_apart_same:
  "ports_apart s \<Longrightarrow> cs_tasks s' = cs_tasks s \<Longrightarrow> cs_socks s' = cs_socks s \<Longrightarrow> ports_apart s'"
  by (simp add: ports_apart_def)

lemma ports_apart_step:
  assumes "calls_step W A B agent binds s l s'" "exclusive binds" "ports_apart s"
  shows "ports_apart s'"
  using assms(1)
proof cases
  case (run_moves j ph udp v)
  from run_moves(7) assms(2) run_moves(6) show ?thesis
  proof (rule call_step_tasks [where j = j])
    assume "as_tasks v = cs_tasks s" "cs_socks (call_moved j ph v s) = cs_socks s"
    with assms(3) run_moves(2) show ?thesis by (simp add: ports_apart_same)
  next
    fix f r iface rest a q h
    assume "as_tasks v = cs_tasks s @ [running_new q h]" "a \<in> set (held s) \<Longrightarrow> socket_port a = 0"
      "cs_socks (call_moved j ph v s) = cs_socks s @ [(j, a)]"
    with run_moves(2) show ?thesis by (intro ports_apart_spawn [OF assms(3)]) simp_all
  qed
next
  case (task_moves udp i ev v)
  with task_step_tasks [OF task_moves(3)] assms(3) show ?thesis by (auto simp: ports_apart_def)
qed (use assms(3) in \<open>simp_all add: ports_apart_same\<close>)

section \<open>Which addresses a call binds\<close>

text \<open>The addresses that a call has yet to bind, in order; \<open>None\<close> where the text does not parse.\<close>

definition family_addresses :: "family \<Rightarrow> interface_config list \<Rightarrow> socket_addr option list" where
  "family_addresses f ifs = map (bind_address f) (filter if_enabled ifs)"

fun to_bind :: "interface_config list \<Rightarrow> 'r phase \<Rightarrow> socket_addr option list" where
  "to_bind ifs (Pending Dhcp4) = family_addresses Dhcp4 ifs @ family_addresses Dhcp6 ifs"
| "to_bind ifs (Pending Dhcp6) = family_addresses Dhcp6 ifs"
| "to_bind ifs (Spawning Dhcp4 r rest) = family_addresses Dhcp4 rest @ family_addresses Dhcp6 ifs"
| "to_bind ifs (Spawning Dhcp6 r rest) = family_addresses Dhcp6 rest"
| "to_bind ifs Waiting = []"
| "to_bind ifs (Returned res) = []"

definition own_socks :: "nat \<Rightarrow> ('c, 'r) calls_state \<Rightarrow> socket_addr list" where
  "own_socks j s = map snd (filter (\<lambda>p. fst p = j) (cs_socks s))"

definition binds_ok :: "interface_config list \<Rightarrow> ('c, 'r) calls_state \<Rightarrow> nat \<Rightarrow> 'r phase \<Rightarrow> bool" where
  "binds_ok ifs s j ph \<longleftrightarrow>
     (\<exists>res. ph = Returned res) \<or>
     map Some (own_socks j s) @ to_bind ifs ph = family_addresses Dhcp4 ifs @ family_addresses Dhcp6 ifs"

definition all_bound_ok :: "interface_config list \<Rightarrow> ('c, 'r) calls_state \<Rightarrow> bool" where
  "all_bound_ok ifs s \<longleftrightarrow>
     (\<forall>p \<in> set (cs_socks s). fst p < length (cs_calls s)) \<and>
     (\<forall>j ph. j < length (cs_calls s) \<longrightarrow> cs_calls s ! j = Some ph \<longrightarrow> binds_ok ifs s j ph)"

lemma all_bound_keep:
  assumes "all_bound_ok ifs s" "j < length (cs_calls s)" "cs_calls s' = (cs_calls s)[j := c]"
    and "cs_socks s' = cs_socks s \<or> (\<exists>a. cs_socks s' = cs_socks s @ [(j, a)])"
    and "\<And>ph. c = Some ph \<Longrightarrow> binds_ok ifs s' j ph"
  shows "all_bound_ok ifs s'"
proof -
  have "own_socks k s' = own_socks k s" if "k \<noteq> j" for k
    using assms(4) that by (auto simp: own_socks_def)
  then have other: "binds_ok ifs s' k ph = binds_ok ifs s k ph" if "k \<noteq> j" for k ph
    using that by (simp add: binds_ok_def)
  have "binds_ok ifs s' k ph" if "k < length (cs_calls s)" "cs_calls s' ! k = Some ph" for k ph
  proof (cases "k = j")
    case True
    with that assms(2,3,5) show ?thesis by simp
  next
    case False
    with that assms(1,3) other show ?thesis by (simp add: all_bound_ok_def)
  qed
  moreover have "fst p < length (cs_calls s)" if "p \<in> set (cs_socks s')" for p
    using assms(1,2,4) that by (auto simp: all_bound_ok_def)
  ultimately show ?thesis using assms(3) by (simp add: all_bound_ok_def)
qed

lemma binds_ok_moves:
  assumes "agent_step (agent_env_of W A B udp agent) (call_view ph 0 s) Internal v"
    and "binds_ok (interfaces (ag_config agent)) s j ph"
  shows "binds_ok (interfaces (ag_config agent)) (call_moved j ph v s) j (as_phase v)"
  using assms(1)
proof cases
  case (subscribe f c r)
  with assms(2) show ?thesis
    by (cases f) (auto simp: binds_ok_def own_socks_def call_moved_def)
next
  case (skip f r i rest)
  then have "\<not> if_enabled i" by (simp add: env_spawn_simps(1))
  with assms(2) skip show ?thesis
    by (cases f) (auto simp: binds_ok_def own_socks_def call_moved_def family_addresses_def)
next
  case (spawn f r i rest h c q)
  then have "en_spawn (agent_env_of W A B udp agent) f i = Inr (Some h)" by simp
  from env_spawn_simps(2) [OF this] obtain a where "if_enabled i" "bind_address f i = Some a" by blast
  with assms(2) spawn show ?thesis
    by (cases f) (auto simp: binds_ok_def own_socks_def call_moved_def new_sock_def family_addresses_def)
next
  case (spawned f r)
  with assms(2) show ?thesis
    by (cases f) (auto simp: binds_ok_def own_socks_def call_moved_def family_addresses_def)
qed (auto simp: binds_ok_def)

lemma all_bound_step:
  assumes "calls_step W A B agent binds s l s'" "all_bound_ok (interfaces (ag_config agent)) s"
  shows "all_bound_ok (interfaces (ag_config agent)) s'"
  using assms(1)
proof cases
  case run_called
  have "own_socks (length (cs_calls s)) s = []"
    using assms(2) by (auto simp: all_bound_ok_def own_socks_def filter_empty_conv)
  with assms(2) run_called show ?thesis
    by (auto simp: all_bound_ok_def binds_ok_def nth_append less_Suc_eq own_socks_def)
next
  case (run_moves j ph udp v)
  from assms(2) run_moves have "binds_ok (interfaces (ag_config agent)) s j ph"
    by (simp add: all_bound_ok_def)
  note binds_ok_moves [OF run_moves(7) this]
  moreover have "cs_socks s' = cs_socks s \<or> (\<exists>a. cs_socks s' = cs_socks s @ [(j, a)])"
    using call_step_sock [OF run_moves(7), of j] run_moves(2) by metis
  ultimately show ?thesis using run_moves(2)
    by (intro all_bound_keep [OF assms(2) run_moves(3), where c = "Some (as_phase v)"]) auto
next
  case (run_returns j)
  then show ?thesis
    by (intro all_bound_keep [OF assms(2) run_returns(3), where c = "Some (Returned (Inr ()))"])
      (auto simp: binds_ok_def)
next
  case (run_dropped j ph)
  then show ?thesis by (intro all_bound_keep [OF assms(2) run_dropped(3), where c = None]) auto
qed (use assms(2) in \<open>auto simp: all_bound_ok_def binds_ok_def own_socks_def\<close>)

lemma all_bound_history:
  assumes "calls_history W A B agent binds allowed (calls_init W agent) ls s"
  shows "all_bound_ok (interfaces (ag_config agent)) s"
  using assms
proof induction
  case (step ls s l s')
  from all_bound_step [OF step.hyps(3) step.IH] show ?case .
qed (simp add: all_bound_ok_def)

lemma ports_apart_history:
  assumes "calls_history W A B agent binds allowed (calls_init W agent) ls s" "exclusive binds"
  shows "ports_apart s"
  using assms
proof induction
  case (step ls s l s')
  from ports_apart_step [OF step.hyps(3) step.prems step.IH [OF step.prems]] show ?case .
qed (simp add: ports_apart_def)

text \<open>When all tasks live, the sockets of a call have different addresses, but for port 0.\<close>

lemma distinct_filter_nth:
  "(\<And>i k. i < length xs \<Longrightarrow> k < i \<Longrightarrow> f (xs ! i) = f (xs ! k) \<Longrightarrow> \<not> P (xs ! i)) \<Longrightarrow>
   distinct (map f (filter P xs))"
proof (induction xs rule: rev_induct)
  case (snoc x xs)
  have "distinct (map f (filter P xs))"
  proof (rule snoc.IH)
    fix i k
    assume "i < length xs" "k < i" "f (xs ! i) = f (xs ! k)"
    with snoc.prems [of i k] show "\<not> P (xs ! i)" by (simp add: nth_append)
  qed
  moreover have "f x \<notin> f ` set (filter P xs)" if "P x"
  proof
    assume "f x \<in> f ` set (filter P xs)"
    then obtain k where "k < length xs" "f x = f (xs ! k)" by (auto simp: in_set_conv_nth)
    with snoc.prems [of "length xs" k] that show False by (simp add: nth_append)
  qed
  ultimately show ?case by auto
qed simp

lemma nth_eq_if_distinct_filter:
  "distinct (filter P xs) \<Longrightarrow> i < length xs \<Longrightarrow> k < i \<Longrightarrow> xs ! i = xs ! k \<Longrightarrow> \<not> P (xs ! i)"
proof (induction xs arbitrary: i k)
  case (Cons x xs)
  show ?case
  proof (cases k)
    case 0
    with Cons.prems have "xs ! (i - 1) = x" "i - 1 < length xs" by (cases i; simp)+
    with Cons.prems(1) have "\<not> P x" by (auto split: if_splits)
    with 0 Cons.prems show ?thesis by simp
  next
    case (Suc m)
    with Cons.prems have "xs ! (i - 1) = xs ! m" "m < i - 1" "i - 1 < length xs" by (cases i; simp)+
    moreover have "distinct (filter P xs)" using Cons.prems(1) by (simp split: if_splits)
    ultimately show ?thesis using Cons.IH Cons.prems Suc by (cases i) auto
  qed
qed simp

lemma own_socks_distinct:
  assumes "ports_apart s" "list_all rn_alive (cs_tasks s)"
  shows "distinct (filter (\<lambda>a. socket_port a \<noteq> 0) (own_socks j s))"
proof -
  have "distinct (map snd (filter (\<lambda>p. socket_port (snd p) \<noteq> 0) (cs_socks s)))"
    using assms by (intro distinct_filter_nth) (auto simp: ports_apart_def list_all_length)
  then have "distinct (map snd (filter (\<lambda>p. fst p = j) (filter (\<lambda>p. socket_port (snd p) \<noteq> 0) (cs_socks s))))"
    by (rule distinct_map_filter)
  then show ?thesis by (simp add: own_socks_def filter_map o_def conj_commute)
qed

section \<open>Without a shutdown\<close>

text \<open>As long as \<open>shutdown\<close> is not called, the channel holds false and every task lives.\<close>

definition calm :: "('c, 'r) watch_api \<Rightarrow> ('c, 'r) calls_state \<Rightarrow> bool" where
  "calm W s \<longleftrightarrow> calls_rx W s \<and> \<not> w_borrow W (cs_chan s) \<and> list_all rn_alive (cs_tasks s) \<and>
     length (cs_socks s) = length (cs_tasks s)"

lemma calls_borrow:
  assumes "watch_ok W" "calls_step W A B agent binds s l s'" "l \<noteq> ShutdownCalled" "calls_rx W s"
  shows "w_borrow W (cs_chan s') = w_borrow W (cs_chan s)"
  using assms(2)
proof cases
  case (run_moves j ph udp v)
  with call_step_borrow [OF _ run_moves(7)] assms(1) calls_rx_live [OF assms(4) run_moves(3,4)]
  show ?thesis by simp
next
  case (run_dropped j ph)
  with assms(1) show ?thesis by (cases ph) (simp_all add: drop_future_def drop_simps)
next
  case (task_moves udp i ev v)
  with call_step_borrow [OF _ task_moves(3)] assms(1) show ?thesis by simp
qed (use assms(3) in simp_all)

lemma calm_step:
  assumes "watch_ok W" "exclusive binds" "calls_step W A B agent binds s l s'" "l \<noteq> ShutdownCalled" "calm W s"
  shows "calm W s'"
proof -
  from assms(5) have rx: "calls_rx W s" and borrow: "\<not> w_borrow W (cs_chan s)" by (simp_all add: calm_def)
  have "list_all rn_alive (cs_tasks s') \<and> length (cs_socks s') = length (cs_tasks s')"
    using assms(3)
  proof cases
    case (run_moves j ph udp v)
    from run_moves(7) assms(2) run_moves(6) show ?thesis
      by (rule call_step_tasks [where j = j]) (use assms(5) run_moves(2) in \<open>simp_all add: calm_def\<close>)
  next
    case (task_moves udp i ev v)
    from task_moves(3) have "list_all rn_alive (as_tasks v) \<and> length (as_tasks v) = length (cs_tasks s)"
    proof cases
      case (wake stop)
      with borrow assms(5) show ?thesis
        by (auto simp: calm_def task_wake_def Let_def list_all_length nth_list_update)
    next
      case (receive t data src st out)
      with assms(5) show ?thesis by (auto simp: calm_def list_all_length nth_list_update)
    qed (use assms(5) in \<open>simp_all add: calm_def\<close>)
    with assms(5) task_moves(2) show ?thesis by (simp add: calm_def)
  qed (use assms(5) in \<open>simp_all add: calm_def\<close>)
  with calls_rx_step [OF assms(1,3) rx] calls_borrow [OF assms(1,3,4) rx] borrow show ?thesis
    by (simp add: calm_def)
qed

lemma calm_history:
  assumes "calls_history W A B agent binds (\<lambda>s l. l \<noteq> ShutdownCalled) (calls_init W agent) ls s"
    and "watch_ok W" "exclusive binds"
  shows "calm W s"
  using assms
proof induction
  case start
  from calls_rx_init [OF start(1), of agent] channelD [OF start(1)] drop_simps(2) [OF start(1)]
  show ?case by (auto simp: calm_def calls_init_def Let_def split: prod.splits)
next
  case (step ls s l s')
  from calm_step [OF step.prems step.hyps(3,2) step.IH [OF step.prems]] show ?case .
qed

text \<open>
  A call that has not bound its first enabled interface, or failed to. One call at most gets beyond
  this: the one that owns the first task, which holds the address of that interface.
\<close>

fun unbound :: "interface_config list \<Rightarrow> 'r phase \<Rightarrow> bool" where
  "unbound ifs (Pending f) = (f = Dhcp4)"
| "unbound ifs (Spawning f r rest) = (f = Dhcp4 \<and> filter if_enabled rest = filter if_enabled ifs)"
| "unbound ifs Waiting = False"
| "unbound ifs (Returned res) = (\<exists>m. res = Inl (Transport m))"

definition sole_owner :: "interface_config list \<Rightarrow> socket_addr \<Rightarrow> ('c, 'r) calls_state \<Rightarrow> bool" where
  "sole_owner ifs a s \<longleftrightarrow>
     (\<forall>p \<in> set (cs_socks s). fst p < length (cs_calls s) \<and> hd (cs_socks s) = (fst p, a)) \<and>
     (\<forall>j<length (cs_calls s). j \<notin> fst ` set (cs_socks s) \<longrightarrow>
        (case cs_calls s ! j of None \<Rightarrow> True | Some ph \<Rightarrow> unbound ifs ph))"

lemma unbound_step:
  assumes "agent_step (agent_env_of W A B udp agent) (call_view ph 0 s) Internal v"
    and "unbound (interfaces (ag_config agent)) ph" "as_tasks v = cs_tasks s"
    and "filter if_enabled (interfaces (ag_config agent)) = iface # rest" "bind_address Dhcp4 iface = Some a"
  shows "unbound (interfaces (ag_config agent)) (as_phase v)"
  using assms(1)
proof cases
  case (skip f r i rs)
  then have "\<not> if_enabled i" by (simp add: env_spawn_simps(1))
  with skip assms(2) show ?thesis by simp
next
  case (fail f r i rs e)
  then have "if_enabled i" using env_spawn_simps(1) [of W A B udp agent f i] by (cases "if_enabled i") auto
  with fail assms(2,4) have "f = Dhcp4" "i = iface" by simp_all
  with fail assms(5) env_spawn_simps(3) [of W A B udp agent f i e a] show ?thesis by simp
qed (use assms in auto)

lemma held_all: "list_all rn_alive (cs_tasks s) \<Longrightarrow> length (cs_socks s) = length (cs_tasks s) \<Longrightarrow>
  held s = map snd (cs_socks s)"
proof -
  assume *: "list_all rn_alive (cs_tasks s)" "length (cs_socks s) = length (cs_tasks s)"
  then have "filter (rn_alive \<circ> snd) (zip (cs_socks s) (cs_tasks s)) = zip (cs_socks s) (cs_tasks s)"
    by (intro filter_True) (auto simp: list_all_iff dest: set_zip_rightD)
  then have "held s = map snd (map fst (zip (cs_socks s) (cs_tasks s)))" unfolding held_def by simp
  also have "map fst (zip (cs_socks s) (cs_tasks s)) = cs_socks s" using *(2) by simp
  finally show ?thesis .
qed

lemma sole_owner_more:
  assumes "sole_owner ifs a s" "j \<in> fst ` set (cs_socks s)"
    and "cs_calls s' = (cs_calls s)[j := c]" "cs_socks s' = cs_socks s @ [(j, b)]"
  shows "sole_owner ifs a s'"
proof -
  from assms(1,2) have "j < length (cs_calls s)" "hd (cs_socks s) = (j, a)" "cs_socks s \<noteq> []"
    by (auto simp: sole_owner_def)
  moreover from this have "hd (cs_socks s') = (j, a)" by (simp add: assms(4))
  ultimately show ?thesis
    using assms by (auto simp: sole_owner_def nth_list_update)
qed

lemma sole_owner_keep:
  assumes "sole_owner ifs a s" "j < length (cs_calls s)"
    and "cs_calls s' = (cs_calls s)[j := c]" "cs_socks s' = cs_socks s"
    and "j \<notin> fst ` set (cs_socks s) \<Longrightarrow> case c of None \<Rightarrow> True | Some ph \<Rightarrow> unbound ifs ph"
  shows "sole_owner ifs a s'"
  using assms by (auto simp: sole_owner_def nth_list_update)

lemma sole_owner_first:
  assumes "sole_owner ifs a s" "cs_socks s = []" "j < length (cs_calls s)"
    and "cs_calls s' = (cs_calls s)[j := c]" "cs_socks s' = [(j, a)]"
  shows "sole_owner ifs a s'"
  using assms by (simp add: sole_owner_def nth_list_update)

lemma sole_owner_moves:
  assumes "agent_step (agent_env_of W A B udp agent) (call_view ph 0 s) Internal v"
    and "j < length (cs_calls s)" "cs_calls s ! j = Some ph"
    and "exclusive binds" "binds (held s) udp" "calm W s"
    and "filter if_enabled (interfaces (ag_config agent)) = iface # rest"
    and "bind_address Dhcp4 iface = Some a" "socket_port a \<noteq> 0"
    and "sole_owner (interfaces (ag_config agent)) a s"
  shows "sole_owner (interfaces (ag_config agent)) a (call_moved j ph v s)"
proof -
  let ?ifs = "interfaces (ag_config agent)"
  have all: "held s = map snd (cs_socks s)" using assms(6) by (intro held_all) (simp_all add: calm_def)
  have unb: "unbound ?ifs ph" if "j \<notin> fst ` set (cs_socks s)"
    using assms(10) assms(2,3) that by (auto simp: sole_owner_def)
  from assms(1) assms(4) assms(5) show ?thesis
  proof (rule call_step_tasks [where j = j])
    assume same: "as_tasks v = cs_tasks s" "cs_socks (call_moved j ph v s) = cs_socks s"
    have "unbound ?ifs (as_phase v)" if "j \<notin> fst ` set (cs_socks s)"
      using unbound_step [OF assms(1) unb [OF that] same(1) assms(7,8)] .
    then show ?thesis
      by (intro sole_owner_keep [OF assms(10) assms(2) _ same(2), where c = "Some (as_phase v)"]) simp_all
  next
    fix f r i rs b q h
    assume new: "ph = Spawning f r (i # rs)" "if_enabled i" "bind_address f i = Some b"
      "b \<in> set (held s) \<Longrightarrow> socket_port b = 0" "cs_socks (call_moved j ph v s) = cs_socks s @ [(j, b)]"
    show ?thesis
    proof (cases "j \<in> fst ` set (cs_socks s)")
      case True
      show ?thesis
        by (rule sole_owner_more [OF assms(10) True _ new(5)]) simp
    next
      case False
      from unb [OF False] new(1,2) assms(7) have "f = Dhcp4" "i = iface" by simp_all
      with new(3) assms(8) have b: "b = a" by simp
      have "cs_socks s = []"
      proof (rule ccontr)
        assume "cs_socks s \<noteq> []"
        then have "hd (cs_socks s) \<in> set (cs_socks s)" by (rule hd_in_set)
        moreover from this assms(10) have "snd (hd (cs_socks s)) = a"
          unfolding sole_owner_def by (metis snd_conv)
        ultimately have "a \<in> set (held s)" using all by (metis image_eqI set_map)
        with new(4) b assms(9) show False by simp
      qed
      with new(5) b show ?thesis
        by (intro sole_owner_first [OF assms(10) _ assms(2)]) simp_all
    qed
  qed
qed

lemma sole_owner_step:
  assumes "calls_step W A B agent binds s l s'" "exclusive binds" "calm W s"
    and "filter if_enabled (interfaces (ag_config agent)) = iface # rest"
    and "bind_address Dhcp4 iface = Some a" "socket_port a \<noteq> 0"
    and "sole_owner (interfaces (ag_config agent)) a s"
  shows "sole_owner (interfaces (ag_config agent)) a s'"
  using assms(1)
proof cases
  case run_called
  with assms(7) show ?thesis by (auto simp: sole_owner_def nth_append less_Suc_eq)
next
  case (run_moves j ph udp v)
  with sole_owner_moves [OF run_moves(7,3,4) assms(2) run_moves(6) assms(3-7)] show ?thesis by simp
next
  case (run_returns j)
  then have "j \<in> fst ` set (cs_socks s)" using assms(7) by (force simp: sole_owner_def)
  then show ?thesis unfolding run_returns(2)
    by (intro sole_owner_keep [OF assms(7) run_returns(3), where c = "Some (Returned (Inr ()))"]) simp_all
next
  case (run_dropped j ph)
  then show ?thesis by (intro sole_owner_keep [OF assms(7) run_dropped(3), where c = None]) simp_all
qed (use assms(7) in \<open>simp_all add: sole_owner_def\<close>)

lemma sole_owner_history:
  assumes "calls_history W A B agent binds (\<lambda>s l. l \<noteq> ShutdownCalled) (calls_init W agent) ls s"
    and "watch_ok W" "exclusive binds"
    and "filter if_enabled (interfaces (ag_config agent)) = iface # rest"
    and "bind_address Dhcp4 iface = Some a" "socket_port a \<noteq> 0"
  shows "sole_owner (interfaces (ag_config agent)) a s"
  using assms
proof induction
  case (step ls s l s')
  from sole_owner_step [OF step.hyps(3) step.prems(2) calm_history [OF step.hyps(1) step.prems(1,2)]
      step.prems(3-5) step.IH [OF step.prems]] show ?case .
qed (simp add: sole_owner_def)

text \<open>Without a shutdown no call gets to wait when it would have to bind one address twice.\<close>

lemma waiting_own_socks:
  assumes "all_bound_ok ifs s" "j < length (cs_calls s)" "cs_calls s ! j = Some Waiting"
  shows "map Some (own_socks j s) = family_addresses Dhcp4 ifs @ family_addresses Dhcp6 ifs"
  using assms by (auto simp: all_bound_ok_def binds_ok_def)

lemma waiting_addresses_apart:
  assumes "calm W s" "ports_apart s" "all_bound_ok ifs s" "j < length (cs_calls s)" "cs_calls s ! j = Some Waiting"
    and "addrs = family_addresses Dhcp4 ifs @ family_addresses Dhcp6 ifs"
    and "i < length addrs" "k < i" "addrs ! i = Some a" "addrs ! k = Some a"
  shows "socket_port a = 0"
proof -
  let ?own = "own_socks j s"
  have addrs: "addrs = map Some ?own" using waiting_own_socks [OF assms(3-5)] assms(6) by simp
  have "list_all rn_alive (cs_tasks s)" using assms(1) by (simp add: calm_def)
  from own_socks_distinct [OF assms(2) this, of j]
  have "distinct (filter (\<lambda>a. socket_port a \<noteq> 0) ?own)" .
  from nth_eq_if_distinct_filter [OF this, of i k] assms(7-10) addrs show ?thesis by simp
qed

definition never_waits :: "('c, 'r) calls_state \<Rightarrow> bool" where
  "never_waits s \<longleftrightarrow>
     (\<forall>j<length (cs_calls s). cs_calls s ! j \<noteq> Some Waiting \<and> cs_calls s ! j \<noteq> Some (Returned (Inr ())))"

lemma never_returns_step:
  assumes "calls_step W A B agent binds s l s'" "never_waits s"
    and "\<forall>j<length (cs_calls s'). cs_calls s' ! j \<noteq> Some Waiting"
  shows "never_waits s'"
proof -
  have "cs_calls s' ! j \<noteq> Some (Returned (Inr ()))" if "j < length (cs_calls s')" for j
    using assms(1)
  proof cases
    case (run_moves k ph udp v)
    from run_moves(7,5) have "as_phase v \<noteq> Returned (Inr ())"
      by cases (auto elim: after_family.elims)
    with run_moves(2) assms(2) that show ?thesis by (cases "j = k") (auto simp: never_waits_def)
  next
    case (run_returns k)
    with assms(2) show ?thesis by (simp add: never_waits_def)
  next
    case (run_dropped k ph)
    with assms(2) that show ?thesis by (cases "j = k") (auto simp: never_waits_def)
  qed (use assms(2) that in \<open>auto simp: never_waits_def nth_append less_Suc_eq\<close>)
  with assms(3) show ?thesis by (simp add: never_waits_def)
qed

section \<open>A concrete agent that is run twice\<close>

definition sample_sockets :: "socket_addr list \<Rightarrow> bind_result" where
  "sample_sockets used a = (if a \<in> set used then Inl ''in use'' else Inr (Inr a))"

definition sample_binds :: bind_behaviour where
  "sample_binds used udp \<longleftrightarrow> udp = sample_sockets used"

lemma sample_binds_exclusive: "exclusive sample_binds"
  by (simp add: exclusive_def sample_binds_def sample_sockets_def)

abbreviation sample_calls ::
    "sample_channel \<Rightarrow> nat phase option list \<Rightarrow> nat running list \<Rightarrow> (nat \<times> socket_addr) list \<Rightarrow>
     (sample_channel, nat) calls_state" where
  "sample_calls c cs ts socks \<equiv>
     \<lparr> cs_chan = c, cs_calls = cs, cs_tasks = ts, cs_socks = socks, cs_stats = stats_default \<rparr>"

lemma sample_calls_init: "calls_init sample_watch sample_agent = sample_calls (False, []) [] [] []"
  by (simp add: calls_init_def sample_watch_def sample_agent_def)

lemma sample_address:
  obtains a where "bind_address Dhcp4 sample_iface = Some a" "socket_port a \<noteq> 0"
proof -
  have "\<exists>a. bind_address Dhcp4 sample_iface = Some a \<and> socket_port a \<noteq> 0"
    by (simp add: sample_iface_def std_parse_defs)
  then show thesis using that by blast
qed

abbreviation sample_calls_step where
  "sample_calls_step \<equiv> calls_step sample_watch sample_v4 sample_v6 sample_agent sample_binds"

abbreviation sample_env_at :: "relay_agent \<Rightarrow> socket_addr list \<Rightarrow> (sample_channel, nat) agent_env" where
  "sample_env_at agent used \<equiv> agent_env_of sample_watch sample_v4 sample_v6 (sample_sockets used) agent"

lemma sample_env_free: "sample_env_at sample_agent [] = sample_env"
proof -
  have "sample_sockets [] = (\<lambda>a. Inr (Inr a))" by (simp add: fun_eq_iff sample_sockets_def)
  then show ?thesis by (simp add: sample_env_def)
qed

lemma sample_run_moves:
  assumes "agent_step (sample_env_at agent used) (call_view ph 0 s) Internal v" "held s = used"
    and "j < length (cs_calls s)" "cs_calls s ! j = Some ph" "ph \<noteq> Waiting" "s' = call_moved j ph v s"
  shows "calls_step sample_watch sample_v4 sample_v6 agent sample_binds s (RunStep j) s'"
  using calls_step.run_moves [of j s ph sample_binds "sample_sockets used"] assms
  by (simp add: sample_binds_def)

text \<open>The first call binds its DHCPv4 socket and is dropped.\<close>

lemma sample_calls_first:
  assumes "bind_address Dhcp4 sample_iface = Some a"
  obtains h where
    "sample_calls_step (sample_calls (False, []) [Some (Pending Dhcp4)] [] []) (RunStep 0)
      (sample_calls (False, [(1, False)]) [Some (Spawning Dhcp4 1 [sample_iface])] [] [])"
    "sample_calls_step (sample_calls (False, [(1, False)]) [Some (Spawning Dhcp4 1 [sample_iface])] [] []) (RunStep 0)
      (sample_calls (False, [(2, False), (1, False)]) [Some (Spawning Dhcp4 1 [])] [running_new 2 h] [(0, a)])"
proof -
  obtain h where h: "en_spawn sample_env Dhcp4 sample_iface = Inr (Some h)" using sample_spawn by metis
  have "agent_step sample_env (call_view (Pending Dhcp4) 0 (sample_calls (False, []) [Some (Pending Dhcp4)] [] []))
      Internal (sample_state (False, [(1, False)]) (Spawning Dhcp4 1 [sample_iface]) [])"
    using sample_steps(1) [of False "[]" Dhcp4 "[]"] by (simp add: call_view_def)
  from sample_run_moves [OF this [folded sample_env_free], of 0]
  have 1: "sample_calls_step (sample_calls (False, []) [Some (Pending Dhcp4)] [] []) (RunStep 0)
      (sample_calls (False, [(1, False)]) [Some (Spawning Dhcp4 1 [sample_iface])] [] [])"
    by (simp add: call_moved_def held_def)
  have "agent_step sample_env (call_view (Spawning Dhcp4 1 [sample_iface]) 0
      (sample_calls (False, [(1, False)]) [Some (Spawning Dhcp4 1 [sample_iface])] [] []))
      Internal (sample_state (False, [(2, False), (1, False)]) (Spawning Dhcp4 1 []) [running_new 2 h])"
    using sample_steps(2) [OF h, of False "[(1, False)]" 1 "[]"] by (simp add: call_view_def eval_nat_numeral)
  from sample_run_moves [OF this [folded sample_env_free], of 0]
  have "sample_calls_step (sample_calls (False, [(1, False)]) [Some (Spawning Dhcp4 1 [sample_iface])] [] []) (RunStep 0)
      (sample_calls (False, [(2, False), (1, False)]) [Some (Spawning Dhcp4 1 [])] [running_new 2 h] [(0, a)])"
    using assms by (simp add: call_moved_def new_sock_def held_def)
  with 1 show thesis by (rule that)
qed

text \<open>The second finds the address in use.\<close>

lemma sample_calls_second:
  assumes "bind_address Dhcp4 sample_iface = Some a"
  shows "sample_calls_step
      (sample_calls (False, [(2, False)]) [None, Some (Pending Dhcp4)] [running_new 2 h] [(0, a)]) (RunStep 1)
      (sample_calls (False, [(3, False), (2, False)]) [None, Some (Spawning Dhcp4 3 [sample_iface])]
        [running_new 2 h] [(0, a)])"
    and "sample_calls_step
      (sample_calls (False, [(3, False), (2, False)]) [None, Some (Spawning Dhcp4 3 [sample_iface])]
        [running_new 2 h] [(0, a)]) (RunStep 1)
      (sample_calls (False, [(2, False)]) [None, Some (Returned (Inl (Transport ''bind: in use'')))]
        [running_new 2 h] [(0, a)])"
proof -
  let ?E = "sample_env_at sample_agent [a]"
  let ?p = "sample_calls (False, [(2, False)]) [None, Some (Pending Dhcp4)] [running_new 2 h] [(0, a)]"
  let ?q = "sample_calls (False, [(3, False), (2, False)]) [None, Some (Spawning Dhcp4 3 [sample_iface])]
    [running_new 2 h] [(0, a)]"
  have ifs: "en_ifaces ?E = [sample_iface]" by (simp add: sample_agent_def sample_config_def sample_iface_def)
  have "agent_step ?E (call_view (Pending Dhcp4) 0 ?p) Internal
      (sample_state (False, [(3, False), (2, False)]) (Spawning Dhcp4 3 [sample_iface]) [running_new 2 h])"
    using agent_step.subscribe [of "call_view (Pending Dhcp4) 0 ?p" Dhcp4 ?E] ifs
    by (simp add: call_view_def sample_watch_def eval_nat_numeral)
  from sample_run_moves [OF this, of 1]
  show "sample_calls_step ?p (RunStep 1) ?q" by (simp add: call_moved_def held_def)
  have "en_spawn ?E Dhcp4 sample_iface = Inl (Transport ''bind: in use'')"
    using assms by (simp add: agent_env_of_def family_handlers_def first_task_def sample_iface_def sample_sockets_def)
  then have "agent_step ?E (call_view (Spawning Dhcp4 3 [sample_iface]) 0 ?q) Internal
      (sample_state (False, [(2, False)]) (Returned (Inl (Transport ''bind: in use''))) [running_new 2 h])"
    using agent_step.fail [of "call_view (Spawning Dhcp4 3 [sample_iface]) 0 ?q" Dhcp4 3 sample_iface "[]" ?E]
    by (simp add: call_view_def sample_watch_def)
  from sample_run_moves [OF this, of 1]
  show "sample_calls_step ?q (RunStep 1)
      (sample_calls (False, [(2, False)]) [None, Some (Returned (Inl (Transport ''bind: in use'')))]
        [running_new 2 h] [(0, a)])" by (simp add: call_moved_def held_def)
qed

lemma sample_calls_history:
  assumes "bind_address Dhcp4 sample_iface = Some a"
  shows "\<exists>h. calls_history sample_watch sample_v4 sample_v6 sample_agent sample_binds
     (\<lambda>s l. l \<noteq> ShutdownCalled) (calls_init sample_watch sample_agent)
     [RunCalled, RunStep 0, RunStep 0, RunDropped 0, RunCalled, RunStep 1, RunStep 1]
     (sample_calls (False, [(2, False)]) [None, Some (Returned (Inl (Transport ''bind: in use'')))]
       [running_new 2 h] [(0, a)])"
proof -
  let ?H = "calls_history sample_watch sample_v4 sample_v6 sample_agent sample_binds
     (\<lambda>s l. l \<noteq> ShutdownCalled) (calls_init sample_watch sample_agent)"
  have snoc: "?H ls s \<Longrightarrow> sample_calls_step s l s' \<Longrightarrow> l \<noteq> ShutdownCalled \<Longrightarrow> ?H (ls @ [l]) s'" for ls s l s'
    by (rule calls_history.step)
  obtain h where h: "sample_calls_step (sample_calls (False, []) [Some (Pending Dhcp4)] [] []) (RunStep 0)
      (sample_calls (False, [(1, False)]) [Some (Spawning Dhcp4 1 [sample_iface])] [] [])"
    "sample_calls_step (sample_calls (False, [(1, False)]) [Some (Spawning Dhcp4 1 [sample_iface])] [] []) (RunStep 0)
      (sample_calls (False, [(2, False), (1, False)]) [Some (Spawning Dhcp4 1 [])] [running_new 2 h] [(0, a)])"
    by (rule sample_calls_first [OF assms])
  have "sample_calls_step (calls_init sample_watch sample_agent) RunCalled
      (sample_calls (False, []) [Some (Pending Dhcp4)] [] [])"
    using calls_step.run_called [of sample_watch sample_v4 sample_v6 sample_agent sample_binds
        "calls_init sample_watch sample_agent"] by (simp add: sample_calls_init)
  from snoc [OF snoc [OF snoc [OF calls_history.start this] h(1)] h(2)]
  have 1: "?H [RunCalled, RunStep 0, RunStep 0]
      (sample_calls (False, [(2, False), (1, False)]) [Some (Spawning Dhcp4 1 [])] [running_new 2 h] [(0, a)])"
    by simp
  have "sample_calls_step
      (sample_calls (False, [(2, False), (1, False)]) [Some (Spawning Dhcp4 1 [])] [running_new 2 h] [(0, a)])
      (RunDropped 0) (sample_calls (False, [(2, False)]) [None] [running_new 2 h] [(0, a)])"
    using calls_step.run_dropped [of 0 "sample_calls (False, [(2, False), (1, False)])
        [Some (Spawning Dhcp4 1 [])] [running_new 2 h] [(0, a)]" "Spawning Dhcp4 1 []"
        sample_watch sample_v4 sample_v6 sample_agent sample_binds]
    by (simp add: drop_future_def sample_watch_def)
  moreover have "sample_calls_step (sample_calls (False, [(2, False)]) [None] [running_new 2 h] [(0, a)]) RunCalled
      (sample_calls (False, [(2, False)]) [None, Some (Pending Dhcp4)] [running_new 2 h] [(0, a)])"
    using calls_step.run_called [of sample_watch sample_v4 sample_v6 sample_agent sample_binds
        "sample_calls (False, [(2, False)]) [None] [running_new 2 h] [(0, a)]"] by simp
  ultimately have "?H ((((([RunCalled, RunStep 0, RunStep 0] @ [RunDropped 0]) @ [RunCalled]) @ [RunStep 1]) @ [RunStep 1]))
      (sample_calls (False, [(2, False)]) [None, Some (Returned (Inl (Transport ''bind: in use'')))]
        [running_new 2 h] [(0, a)])"
    using snoc [OF snoc [OF snoc [OF snoc [OF 1]] sample_calls_second(1) [OF assms]] sample_calls_second(2) [OF assms]]
    by blast
  then show ?thesis by auto
qed

section \<open>One run at a time\<close>



section \<open>Addresses that repeat\<close>


text \<open>The witness has two interfaces on one address, and passes validation.\<close>

definition repeated_agent :: relay_agent where
  "repeated_agent = sample_agent\<lparr>ag_config := sample_config\<lparr>interfaces :=
     [sample_iface, sample_iface\<lparr>if_name := ''eth1''\<rparr>]\<rparr>\<rparr>"

lemma repeated_start:
  obtains s where "calls_history sample_watch sample_v4 sample_v6 repeated_agent sample_binds
       (\<lambda>s l. l \<noteq> ShutdownCalled) (calls_init sample_watch repeated_agent) [RunCalled, RunStep 0] s"
    "cs_calls s = [Some (Spawning Dhcp4 1 (interfaces (ag_config repeated_agent)))]"
proof -
  let ?i = "calls_init sample_watch repeated_agent" and ?ifs = "interfaces (ag_config repeated_agent)"
  let ?s = "?i\<lparr>cs_calls := [Some (Pending Dhcp4)]\<rparr>"
  have 1: "calls_step sample_watch sample_v4 sample_v6 repeated_agent sample_binds ?i RunCalled ?s"
    using calls_step.run_called [of sample_watch sample_v4 sample_v6 repeated_agent sample_binds ?i] by simp
  have chan: "cs_chan ?s = (False, [])" by (simp add: calls_init_def sample_watch_def)
  let ?v = "(call_view (Pending Dhcp4) 0 ?s)\<lparr>as_chan := (False, [(1, False)]), as_phase := Spawning Dhcp4 1 ?ifs\<rparr>"
  have "agent_step (sample_env_at repeated_agent []) (call_view (Pending Dhcp4) 0 ?s) Internal ?v"
    using agent_step.subscribe [of "call_view (Pending Dhcp4) 0 ?s" Dhcp4 "sample_env_at repeated_agent []"
        "(False, [(1, False)])" 1] chan by (simp add: sample_watch_def)
  from sample_run_moves [OF this, of 0 "call_moved 0 (Pending Dhcp4) ?v ?s"]
  have 2: "calls_step sample_watch sample_v4 sample_v6 repeated_agent sample_binds ?s (RunStep 0)
      (call_moved 0 (Pending Dhcp4) ?v ?s)" by (simp add: held_def)
  from calls_history.step [OF calls_history.step [OF calls_history.start _ 1] _ 2, of "\<lambda>s l. l \<noteq> ShutdownCalled"]
  show thesis by (intro that [of "call_moved 0 (Pending Dhcp4) ?v ?s"]) simp_all
qed


end
