(* ===== verification/Agent_Calls_Props.thy ===== *)
theory Agent_Calls_Props
  imports Agent_Ports
begin

text \<open>
  What a call of \<open>shutdown\<close> reaches when calls of \<open>run\<close> overlap, fail or are dropped, and that calls
  which do none of this live the life of \<open>Agent_System\<close>.
\<close>

section \<open>What a shutdown reaches\<close>

text \<open>The first \<open>n\<close> tasks have sent what \<open>out\<close> says, and those alive have the end to see next.\<close>

definition told_to_stop :: "('c, 'r) watch_api \<Rightarrow> nat \<Rightarrow> sends list \<Rightarrow> ('c, 'r) calls_state \<Rightarrow> bool" where
  "told_to_stop W n out s \<longleftrightarrow>
     n \<le> length (cs_tasks s) \<and> take n (map rn_sent (cs_tasks s)) = out \<and>
     (\<forall>i<n. rn_alive (cs_tasks s ! i) \<longrightarrow> w_unseen W (cs_chan s) (rn_rx (cs_tasks s ! i)) \<and> w_borrow W (cs_chan s))"

lemma told_same:
  assumes "told_to_stop W n out s" "take n (cs_tasks s') = take n (cs_tasks s)" "n \<le> length (cs_tasks s')"
    and "w_borrow W (cs_chan s') = w_borrow W (cs_chan s)"
    and "\<And>i. i < n \<Longrightarrow> rn_alive (cs_tasks s ! i) \<Longrightarrow>
      w_unseen W (cs_chan s') (rn_rx (cs_tasks s ! i)) = w_unseen W (cs_chan s) (rn_rx (cs_tasks s ! i))"
  shows "told_to_stop W n out s'"
proof -
  have "cs_tasks s' ! i = cs_tasks s ! i" if "i < n" for i using that assms(2) by (metis nth_take)
  moreover have "take n (map rn_sent (cs_tasks s')) = take n (map rn_sent (cs_tasks s))"
    using assms(2) by (simp add: take_map)
  ultimately show ?thesis using assms by (auto simp: told_to_stop_def)
qed

lemma alive_rx_inj:
  assumes "distinct (alive_rxs ts)" "i < length ts" "k < length ts" "i \<noteq> k" "rn_alive (ts ! i)" "rn_alive (ts ! k)"
  shows "rn_rx (ts ! i) \<noteq> rn_rx (ts ! k)"
  using assms
proof (induction ts arbitrary: i k)
  case (Cons t ts)
  have "rn_rx t \<noteq> rn_rx (ts ! m)" if "rn_alive t" "m < length ts" "rn_alive (ts ! m)" for m
    using Cons.prems(1) alive_rx_in [OF nth_mem [OF that(2)] that(3)] that(1) by auto
  moreover from Cons.prems(1) have "distinct (alive_rxs ts)" by (auto split: if_splits)
  ultimately show ?case using Cons.IH [of "i - 1" "k - 1"] Cons.prems
    by (cases i; cases k) (auto, metis+)
qed simp

text \<open>A living task has its receiver, which is not that of a call, and sees what \<open>shutdown\<close> sends.\<close>

lemma task_rx:
  assumes "calls_rx W s" "i < length (cs_tasks s)" "rn_alive (cs_tasks s ! i)"
  shows "rn_rx (cs_tasks s ! i) \<in> w_live W (cs_chan s)"
    and "j < length (cs_calls s) \<Longrightarrow> cs_calls s ! j = Some ph \<Longrightarrow> rn_rx (cs_tasks s ! i) \<notin> set (phase_rxs ph)"
  using assms(1) alive_rx_in [OF nth_mem [OF assms(2)] assms(3)] call_rxs_in [of j "cs_calls s" ph]
  by (auto simp: calls_rx_def)

lemma send_true_seen:
  assumes "watch_ok W" "calls_rx W s" "i < length (cs_tasks s)" "rn_alive (cs_tasks s ! i)"
    and "c = snd (w_send W (cs_chan s) True)"
  shows "w_unseen W c (rn_rx (cs_tasks s ! i)) \<and> w_borrow W c"
proof -
  note live = task_rx(1) [OF assms(2-4)]
  then have "w_live W (cs_chan s) \<noteq> {}" by blast
  with live send_simps(2,3) [OF assms(1)] show ?thesis by (simp add: assms(5))
qed

lemma told_length: "told_to_stop W n out s \<Longrightarrow> n \<le> length (cs_tasks s)"
  by (simp add: told_to_stop_def)

lemma told_moves:
  assumes "watch_ok W" "calls_rx W s" "told_to_stop W n out s" "j < length (cs_calls s)" "cs_calls s ! j = Some ph"
    and "agent_step (agent_env_of W A B udp agent) (call_view ph 0 s) Internal v"
  shows "told_to_stop W n out (call_moved j ph v s)"
proof -
  note n = told_length [OF assms(3)]
  note live = calls_rx_live [OF assms(2,4,5)]
  have "take n (as_tasks v) = take n (cs_tasks s) \<and> n \<le> length (as_tasks v)"
    using assms(6) by cases (simp_all add: n le_SucI)
  moreover have "w_borrow W (as_chan v) = w_borrow W (cs_chan s)"
    using call_step_borrow [OF _ assms(6)] assms(1) live by simp
  moreover have "w_unseen W (as_chan v) (rn_rx (cs_tasks s ! i)) = w_unseen W (cs_chan s) (rn_rx (cs_tasks s ! i))"
    if "i < n" "rn_alive (cs_tasks s ! i)" for i
    using call_step_unseen [OF _ assms(6)] assms(1) live task_rx [OF assms(2) _ that(2)] that(1) n assms(4,5) by simp
  ultimately show ?thesis by (intro told_same [OF assms(3)]) simp_all
qed

lemma told_task_moves:
  assumes "watch_ok W" "calls_rx W s" "told_to_stop W n out s"
    and "agent_step (agent_env_of W A B udp agent) (call_view Waiting 0 s) (TaskEvent i ev) v"
  shows "told_to_stop W n out (task_moved v s)"
proof -
  let ?ts = "cs_tasks s"
  note n = told_length [OF assms(3)]
  have told: "w_unseen W (cs_chan s) (rn_rx (?ts ! i)) \<and> w_borrow W (cs_chan s)"
    if "i < n" "rn_alive (?ts ! i)" using that assms(3) by (simp add: told_to_stop_def)
  from assms(4) show ?thesis
  proof cases
    case (wake stop)
    have other: "rn_rx (?ts ! k) \<noteq> rn_rx (?ts ! i)" if "k < n" "k \<noteq> i" "rn_alive (?ts ! k)" for k
      using alive_rx_inj [of ?ts k i] assms(2) n wake that by (simp add: calls_rx_def)
    have "stop" if "i < n" using told that wake by simp
    moreover have "map rn_sent (?ts[i := (?ts ! i)\<lparr>rn_alive := al\<rparr>]) = map rn_sent ?ts" for al
      using wake by (simp add: map_update list_update_same_conv)
    ultimately show ?thesis using assms(1,3) wake other
      by (auto simp: told_to_stop_def task_wake_def Let_def drop_simps changed_simps nth_list_update)
  next
    case (receive_error e)
    with assms(3) show ?thesis by (simp add: told_to_stop_def)
  next
    case (receive t data src st out')
    have "n \<le> i" using told receive by (cases "i < n") auto
    with receive n show ?thesis by (intro told_same [OF assms(3)]) simp_all
  qed
qed

lemma told_step:
  assumes "watch_ok W" "calls_rx W s" "told_to_stop W n out s" "calls_step W A B agent binds s l s'"
  shows "told_to_stop W n out s'"
proof -
  note n = told_length [OF assms(3)]
  from assms(4) show ?thesis
  proof cases
    case run_called
    then show ?thesis by (intro told_same [OF assms(3)]) (simp_all add: n)
  next
    case shutdown_called
    have "w_unseen W (cs_chan s') (rn_rx (cs_tasks s ! i)) \<and> w_borrow W (cs_chan s')"
      if "i < n" "rn_alive (cs_tasks s ! i)" for i
      using send_true_seen [OF assms(1,2) _ that(2) refl] that(1) n shutdown_called(2) by simp
    with assms(3) shutdown_called(2) show ?thesis by (simp add: told_to_stop_def)
  next
    case (run_moves j ph udp v)
    with told_moves [OF assms(1-3) run_moves(3,4,7)] show ?thesis by simp
  next
    case (run_returns j)
    then show ?thesis by (intro told_same [OF assms(3)]) (simp_all add: n)
  next
    case (run_dropped j ph)
    with task_rx(2) [OF assms(2) _ _ run_dropped(3,4)] assms(1) n show ?thesis
      by (intro told_same [OF assms(3)]; cases ph) (auto simp: drop_future_def drop_simps)
  next
    case (task_moves udp i ev v)
    with told_task_moves [OF assms(1-3) task_moves(3)] show ?thesis by simp
  qed
qed

section \<open>One call at a time\<close>

text \<open>Histories in which \<open>run\<close> is only called when all earlier calls have returned.\<close>

fun finished :: "'r phase option \<Rightarrow> bool" where
  "finished (Some (Returned res)) = True"
| "finished _ = False"

definition one_at_a_time :: "('c, 'r) calls_state \<Rightarrow> calls_label \<Rightarrow> bool" where
  "one_at_a_time s l \<longleftrightarrow> (l = RunCalled \<longrightarrow> list_all finished (cs_calls s)) \<and> (\<forall>j. l \<noteq> RunDropped j)"

text \<open>The last call, in the eyes of which the agent is one of \<open>agent_life\<close>.\<close>

definition last_call_life ::
    "('c, 'r) watch_api \<Rightarrow> relay_agent \<Rightarrow> 'r phase \<Rightarrow> nat \<Rightarrow> ('c, 'r) calls_state \<Rightarrow> bool" where
  "last_call_life W agent ph base s \<longleftrightarrow>
     (\<exists>cs. cs_calls s = cs @ [Some ph] \<and> list_all finished cs \<and>
       (\<forall>i<length (cs_tasks s). fst (cs_socks s ! i) \<le> length cs \<and>
          (base \<le> i \<longleftrightarrow> fst (cs_socks s ! i) = length cs))) \<and>
     length (cs_socks s) = length (cs_tasks s) \<and> base \<le> length (cs_tasks s) \<and>
     agent_life W agent (call_view ph base s)"

lemma call_step_view:
  assumes "agent_step E (call_view ph 0 s) Internal v" "ph \<noteq> Waiting"
  shows "agent_step E (call_view ph b s) Internal (call_view (as_phase v) b (call_moved j ph v s))"
  using assms(1)
proof cases
  case (subscribe f c r)
  with agent_step.subscribe [of "call_view ph b s" f E c r] show ?thesis by (simp add: call_view_def)
next
  case (skip f r iface rest)
  with agent_step.skip [of "call_view ph b s" f r iface rest E] show ?thesis by (simp add: call_view_def)
next
  case (spawn f r iface rest h c q)
  with agent_step.spawn [of "call_view ph b s" f r iface rest E h c q] show ?thesis by (simp add: call_view_def)
next
  case (fail f r iface rest e)
  with agent_step.fail [of "call_view ph b s" f r iface rest E e] show ?thesis by (simp add: call_view_def)
next
  case (spawned f r)
  with agent_step.spawned [of "call_view ph b s" f r E] show ?thesis by (simp add: call_view_def)
qed (use assms(2) in simp)

lemma task_step_view:
  assumes "agent_step E (call_view Waiting 0 s) (TaskEvent i ev) v"
  shows "agent_step E (call_view ph b s) (TaskEvent i ev) (call_view ph b (task_moved v s))"
  using assms
proof cases
  case (wake stop)
  with agent_step.wake [of i "call_view ph b s" E stop] show ?thesis
    by (simp add: call_view_def task_wake_def Let_def)
next
  case (receive_error e)
  with agent_step.receive_error [of i "call_view ph b s" E e] show ?thesis by (simp add: call_view_def)
next
  case (receive t data src st out)
  with agent_step.receive [of i "call_view ph b s" t E data src st out] show ?thesis
    by (simp add: call_view_def)
qed

lemma last_call_moves:
  assumes "last_call_life W agent ph b s" "agent_step (agent_env_of W A B udp agent) (call_view ph 0 s) Internal v"
    and "ph \<noteq> Waiting" "Suc j = length (cs_calls s)"
  shows "last_call_life W agent (as_phase v) b (call_moved j ph v s)"
proof -
  from assms(1) have "agent_life W agent (call_view ph b s)" by (simp add: last_call_life_def)
  from agent_life.lives [OF this _ call_step_view [OF assms(2,3), of b j]]
  have life: "agent_life W agent (call_view (as_phase v) b (call_moved j ph v s))" by simp
  from assms(1,4) obtain cs where cs: "cs_calls s = cs @ [Some ph]" "list_all finished cs" "j = length cs"
    by (auto simp: last_call_life_def)
  from assms(2) show ?thesis
  proof (rule call_step_sock [where j = j])
    assume "as_tasks v = cs_tasks s" "cs_socks (call_moved j ph v s) = cs_socks s"
    with assms(1) life cs show ?thesis by (simp add: last_call_life_def)
  next
    fix q h a
    assume "as_tasks v = cs_tasks s @ [running_new q h]" "cs_socks (call_moved j ph v s) = cs_socks s @ [(j, a)]"
    with assms(1) life cs show ?thesis
      by (auto simp: last_call_life_def nth_append less_Suc_eq)
  qed
qed

lemma last_call_at:
  assumes "last_call_life W agent ph b s" "j < length (cs_calls s)" "cs_calls s ! j = Some ph'"
  shows "Suc j = length (cs_calls s) \<and> ph' = ph \<or> (\<exists>res. ph' = Returned res)"
proof -
  from assms(1) obtain cs where cs: "cs_calls s = cs @ [Some ph]" "list_all finished cs"
    by (auto simp: last_call_life_def)
  show ?thesis
  proof (cases "j = length cs")
    case True
    with cs assms(3) show ?thesis by simp
  next
    case False
    with cs assms(2,3) have "j < length cs" "cs ! j = Some ph'" by (auto simp: nth_append)
    with cs(2) have "finished (Some ph')" unfolding list_all_length by metis
    then show ?thesis by (cases ph') simp_all
  qed
qed

lemma last_call_returns:
  assumes "last_call_life W agent Waiting b s" "own_ended j s" "Suc j = length (cs_calls s)"
  shows "last_call_life W agent (Returned (Inr ())) b (s\<lparr>cs_calls := (cs_calls s)[j := Some (Returned (Inr ()))]\<rparr>)"
proof -
  from assms(1,3) obtain cs where cs: "cs_calls s = cs @ [Some Waiting]" "list_all finished cs" "j = length cs"
    and len: "length (cs_socks s) = length (cs_tasks s)"
    and own: "\<And>i. i < length (cs_tasks s) \<Longrightarrow> b \<le> i \<longleftrightarrow> fst (cs_socks s ! i) = j"
    and life: "agent_life W agent (call_view Waiting b s)"
    by (auto simp: last_call_life_def)
  have "list_all (\<lambda>t. \<not> rn_alive t) (drop b (cs_tasks s))"
  proof (clarsimp simp: list_all_length)
    fix n
    assume "n < length (cs_tasks s) - b" "rn_alive (cs_tasks s ! (b + n))"
    moreover from this own [of "b + n"] have "fst (cs_socks s ! (b + n)) = j" by simp
    ultimately show False using assms(2) len by (simp add: own_ended_def list_all_length)
  qed
  then have "agent_step \<lparr> en_watch = W, en_ifaces = [], en_spawn = \<lambda>f i. Inr None \<rparr> (call_view Waiting b s) Internal
      (call_view Waiting b s\<lparr>as_phase := Returned (Inr ())\<rparr>)"
    by (intro agent_step.return) simp_all
  from agent_life.lives [OF life _ this] assms(1) cs show ?thesis
    by (simp add: last_call_life_def call_view_def)
qed

lemma last_call_again:
  assumes "last_call_life W agent ph b s" "list_all finished (cs_calls s)"
  shows "last_call_life W agent (Pending Dhcp4) (length (cs_tasks s))
    (s\<lparr>cs_calls := cs_calls s @ [Some (Pending Dhcp4)]\<rparr>)"
proof -
  from assms obtain res where ph: "ph = Returned res" by (cases ph) (auto simp: last_call_life_def)
  from assms(1) have "agent_life W agent (call_view ph b s)" by (simp add: last_call_life_def)
  from agent_life.again [OF this] ph
  have "agent_life W agent (call_run (call_view ph b s))" by simp
  with assms show ?thesis
    by (fastforce simp: last_call_life_def call_run_def call_view_def)
qed

lemma calls_start_life:
  "last_call_life W agent (Pending Dhcp4) 0 ((calls_init W agent)\<lparr>cs_calls := [Some (Pending Dhcp4)]\<rparr>)"
proof -
  have "call_view (Pending Dhcp4) 0 (calls_init W agent) = agent_init W agent"
    by (simp add: call_view_def calls_init_def agent_init_def split: prod.splits)
  with agent_life.new [of W agent] show ?thesis by (simp add: last_call_life_def call_view_def)
qed

text \<open>The state between two calls, and within one.\<close>

definition seq_ok :: "('c, 'r) watch_api \<Rightarrow> relay_agent \<Rightarrow> ('c, 'r) calls_state \<Rightarrow> bool" where
  "seq_ok W agent s \<longleftrightarrow> s = calls_init W agent \<or> (\<exists>ph b. last_call_life W agent ph b s)"

lemma seq_step_init:
  assumes "watch_ok W" "calls_step W A B agent binds (calls_init W agent) l s'"
  shows "seq_ok W agent s'"
  using assms(2)
proof cases
  case run_called
  with calls_start_life [of W agent] show ?thesis by (auto simp: seq_ok_def)
next
  case shutdown_called
  from calls_rx_init [OF assms(1), of agent] have "w_live W (cs_chan (calls_init W agent)) = {}"
    by (simp add: calls_rx_def)
  with send_closed [OF assms(1)] shutdown_called show ?thesis by (simp add: seq_ok_def)
next
  case (task_moves udp i ev v)
  from task_moves(3) have False by cases simp_all
  then show ?thesis ..
qed simp_all

lemma seq_step_call:
  assumes "calls_step W A B agent binds s l s'" "one_at_a_time s l" "last_call_life W agent ph b s"
  shows "\<exists>ph b. last_call_life W agent ph b s'"
  using assms(1)
proof cases
  case run_called
  with assms(2) last_call_again [OF assms(3)] show ?thesis by (auto simp: one_at_a_time_def)
next
  case shutdown_called
  have "agent_step (agent_env_of W A B (\<lambda>a. Inl []) agent) (call_view ph b s) CallShutdown (call_view ph b s')"
    using agent_step.call [of "agent_env_of W A B (\<lambda>a. Inl []) agent" "call_view ph b s"] shutdown_called(2)
    by (simp add: call_shutdown_def call_view_def)
  from agent_life.lives [OF _ _ this] assms(3) shutdown_called(2) show ?thesis
    by (intro exI [of _ ph] exI [of _ b]) (simp add: last_call_life_def)
next
  case (run_moves j ph' udp v)
  from run_moves(7) have "\<nexists>res. ph' = Returned res" by cases auto
  with last_call_at [OF assms(3) run_moves(3,4)] have "Suc j = length (cs_calls s)" "ph' = ph" by auto
  with last_call_moves [OF assms(3)] run_moves show ?thesis by blast
next
  case (run_returns j)
  with last_call_at [OF assms(3) run_returns(3,4)] have "Suc j = length (cs_calls s)" "ph = Waiting" by auto
  with last_call_returns [of W agent b s j] assms(3) run_returns show ?thesis by blast
next
  case (run_dropped j ph')
  with assms(2) show ?thesis by (simp add: one_at_a_time_def)
next
  case (task_moves udp i ev v)
  from assms(3) have "agent_life W agent (call_view ph b s)" by (simp add: last_call_life_def)
  from agent_life.lives [OF this _ task_step_view [OF task_moves(3)]]
  have "agent_life W agent (call_view ph b s')" using task_moves(2) by simp
  with assms(3) task_moves(2) task_step_tasks [OF task_moves(3)] show ?thesis
    by (intro exI [of _ ph] exI [of _ b]) (simp add: last_call_life_def)
qed

lemma seq_history:
  assumes "calls_history W A B agent binds one_at_a_time (calls_init W agent) ls s" "watch_ok W"
  shows "seq_ok W agent s"
  using assms
proof induction
  case (step ls s l s')
  then show ?case
    using seq_step_init [of W A B agent binds l s'] seq_step_call [of W A B agent binds s l s']
    by (auto simp: seq_ok_def)
qed (simp add: seq_ok_def)

section \<open>Properties\<close>

lemma calls_rx_history:
  assumes "calls_history W A B agent binds allowed s0 ls s" "watch_ok W" "calls_rx W s0"
  shows "calls_rx W s"
  using assms
proof induction
  case (step ls s l s')
  from calls_rx_step [OF step.prems(1) step.hyps(3) step.IH [OF step.prems]] show ?case .
qed

lemma told_history:
  assumes "calls_history W A B agent binds allowed s1 ls s2" "watch_ok W" "calls_rx W s1" "told_to_stop W n out s1"
  shows "told_to_stop W n out s2"
  using assms
proof induction
  case (step ls s l s')
  from told_step [OF step.prems(1) calls_rx_history [OF step.hyps(1) step.prems(1,2)] step.IH [OF step.prems] step.hyps(3)]
  show ?case .
qed

text \<open>A task that has been told to stop can do so at once.\<close>

lemma told_stops:
  assumes "told_to_stop W n out s" "i < n" "rn_alive (cs_tasks s ! i)"
  shows "\<exists>s'. calls_step W A B agent binds s (TaskStep i (Changed True)) s' \<and> \<not> rn_alive (cs_tasks s' ! i)"
proof -
  let ?E = "agent_env_of W A B (\<lambda>a. Inl []) agent"
  from assms have i: "i < length (cs_tasks s)" "w_unseen W (cs_chan s) (rn_rx (cs_tasks s ! i))" "w_borrow W (cs_chan s)"
    by (auto simp: told_to_stop_def)
  with assms(3) have "agent_step ?E (call_view Waiting 0 s) (TaskEvent i (Changed True))
      (task_wake W i True (call_view Waiting 0 s))"
    using agent_step.wake [of i "call_view Waiting 0 s" ?E True] by simp
  note calls_step.task_moves [OF this, of binds]
  moreover have "\<not> rn_alive (cs_tasks (task_moved (task_wake W i True (call_view Waiting 0 s)) s) ! i)"
    using i(1) by (simp add: task_wake_def Let_def)
  ultimately show ?thesis by blast
qed





end
