(* ===== verification/Smf_Dpd_Props.thy ===== *)
theory Smf_Dpd_Props
  imports Smf_Dpd
begin

text \<open>
  Properties of duplicate packet detection: what the cache answers after any sequence of
  arrivals, within the window and after eviction; concurrent arrivals; packet identifiers.
\<close>

section \<open>Sequences of arrivals\<close>

lemma check_result:
  "fst (check_and_insert now c k t) =
     (case seen_ttl c k of
        None \<Rightarrow> Inr True
      | Some t' \<Rightarrow> if t' < t then Inr True else if t' = t then Inr False else Inl DpdStalePacket)"
  by (auto simp: check_and_insert_def seen_ttl_def Let_def split: option.splits)

text \<open>
  C7: the answer of the cache after any sequence of arrivals, without eviction, by the TTLs seen
  for the same source, destination and packet identifier: a packet is new exactly if its TTL is
  larger than that of every earlier one, a duplicate if it equals the largest, and stale if an
  earlier one was larger.
\<close>

theorem dpd_answers_by_record:
  "fst (check_and_insert now (dpd_run (dpd_cache_new w) as) key ttl) =
     (let ttls = arr_ttl ` {a \<in> set as. arr_key a = key} in
      if \<forall>t \<in> ttls. t < ttl then Inr True
      else if \<forall>t \<in> ttls. t \<le> ttl then Inr False
      else Inl DpdStalePacket)"
proof -
  let ?T = "arr_ttl ` {a \<in> set as. arr_key a = key}"
  have "seen_ttl (dpd_cache_new w) key = None"
    by (simp add: seen_ttl_def dpd_cache_new_def)
  then have b: "dpd.bounds (seen_ttl (dpd_run (dpd_cache_new w) as) key) ?T"
    unfolding dpd_run_run by (rule dpd.seen_after)
  show ?thesis
  proof (cases "seen_ttl (dpd_run (dpd_cache_new w) as) key")
    case None
    with b have "?T = {}" by (simp add: dpd.bounds_def)
    with None show ?thesis by (simp only: check_result Let_def) simp
  next
    case (Some m)
    with b have m: "m \<in> ?T" "\<And>t. t \<in> ?T \<Longrightarrow> t \<le> m" by (auto simp: dpd.bounds_def)
    have "(\<forall>t \<in> ?T. t < ttl) \<longleftrightarrow> m < ttl" "(\<forall>t \<in> ?T. t \<le> ttl) \<longleftrightarrow> m \<le> ttl"
      using m by (meson le_less_trans, meson order_trans)
    with Some show ?thesis by (auto simp: check_result Let_def)
  qed
qed

lemma ball_arrivals:
  "(\<forall>t \<in> arr_ttl ` {a \<in> set as. arr_key a = key}. P t) \<longleftrightarrow>
     list_all (\<lambda>a. arr_key a = key \<longrightarrow> P (arr_ttl a)) as"
  by (auto simp: list_all_iff)

theorem dpd_answers_by_record_witness:
  "let k = dpd_key_new (V4 (Ipv4Addr 10 0 0 1)) (V4 (Ipv4Addr 239 1 1 1)) 7;
       other = dpd_key_new (V4 (Ipv4Addr 10 0 0 2)) (V4 (Ipv4Addr 239 1 1 1)) 7;
       c = dpd_run (dpd_cache_new 10)
             [\<lparr> at = 0, arr_key = k, arr_ttl = 5 \<rparr>, \<lparr> at = 1, arr_key = other, arr_ttl = 9 \<rparr>,
              \<lparr> at = 2, arr_key = k, arr_ttl = 6 \<rparr>] in
   fst (check_and_insert 3 c k 8) = Inr True \<and> fst (check_and_insert 3 c k 6) = Inr False \<and>
   fst (check_and_insert 3 c k 5) = Inl DpdStalePacket"
  unfolding Let_def dpd_answers_by_record ball_arrivals by (simp add: dpd_key_new_def)

section \<open>The window\<close>

text \<open>
  C4: within the window no packet is accepted twice. If an arrival was accepted at \<open>t0\<close>, the
  cache was not cleared since, all later operations up to the repetition, evictions included, happened
  before \<open>t0\<close> plus the window and not before \<open>t0\<close>, then the repetition with the same or a smaller TTL is not accepted,
  whatever arrived in between.
\<close>

theorem no_second_accept_in_window:
  assumes "dpd_step t_min c (t0, Arrive k ttl) (Some (Inr True)) c1"
    and "dpd_history t_min c1 h c2"
    and "\<forall>((now, x), r) \<in> set h. t0 \<le> now \<and> now < t0 + int (window c) \<and> x \<noteq> Clear"
    and "dpd_step t_min c2 (t1, Arrive k ttl') r c3" and "ttl' \<le> ttl"
  shows "r \<noteq> Some (Inr True)"
proof -
  have "entry_holds c1 k ttl t0" by (rule accepted_holds [OF assms(1)])
  moreover have "window c1 = window c" by (rule step_window [OF assms(1)])
  ultimately have "entry_holds c2 k ttl t0"
    using assms(3) by (intro holds_history [OF assms(2)]) simp_all
  with assms(4,5) show ?thesis by (intro holds_rejects)
qed

definition sample_key :: dpd_key where
  "sample_key = dpd_key_new (V4 (Ipv4Addr 10 0 0 1)) (V4 (Ipv4Addr 239 0 0 1)) 42"

theorem no_second_accept_in_window_witness:
  "\<exists>c1 c2. dpd_step 0 (dpd_cache_new 100) (500, Arrive sample_key 64) (Some (Inr True)) c1 \<and>
     dpd_history 0 c1 [((550, Evict), None)] c2 \<and>
     (\<forall>r c3. dpd_step 0 c2 (560, Arrive sample_key 64) r c3 \<longrightarrow> r \<noteq> Some (Inr True))"
proof -
  let ?c1 = "snd (check_and_insert 500 (dpd_cache_new 100) sample_key 64)"
  let ?c2 = "?c1\<lparr>dpd_map := retain_from 450 (dpd_map ?c1)\<rparr>"
  have step: "dpd_step 0 (dpd_cache_new 100) (500, Arrive sample_key 64) (Some (Inr True)) ?c1"
    by (simp add: dpd_step_simps check_and_insert_def dpd_cache_new_def)
  have "window ?c1 = 100" by (simp add: check_and_insert_def dpd_cache_new_def)
  then have "dpd_step 0 ?c1 (550, Evict) None ?c2"
    by (simp add: dpd_step_simps evict_expired_def)
  from dpd_history.step [OF dpd_history.start this]
  have hist: "dpd_history 0 ?c1 [((550, Evict), None)] ?c2" by simp
  have "\<forall>((now, x), r) \<in> set [((550, Evict), None :: bool relay_result option)].
      500 \<le> now \<and> now < 500 + int (window (dpd_cache_new 100)) \<and> x \<noteq> Clear"
    by (simp add: dpd_cache_new_def)
  from no_second_accept_in_window [OF step hist this] step hist show ?thesis by blast
qed

text \<open>
  Eviction forgets exactly the entries that are at least a window old, and panics exactly when
  the start of the window is not representable. Afterwards a packet that was accepted
  with the same TTL is accepted again exactly if it was forgotten.
\<close>

lemma eviction_forgets_expired:
  assumes "dpd_map c k = Some \<lparr> first_seen = f, entry_ttl = ttl \<rparr>"
  shows "case evict_expired t_min now c of
      None \<Rightarrow> now - int (window c) < t_min
    | Some c' \<Rightarrow> t_min \<le> now - int (window c) \<and>
        fst (check_and_insert now c' k ttl) = Inr (f + int (window c) \<le> now)"
  using assms
  by (auto simp: evict_expired_def retain_from_def check_and_insert_def Let_def)

section \<open>Concurrent arrivals\<close>

text \<open>
  The concurrent map locks an entry while it is read and updated, but the lookup that finds no
  entry and the insertion are two operations. Thread \<open>i\<close> handles the arrival \<open>job i\<close>.
\<close>

datatype dpd_pc = Before | Missed | Answered "bool relay_result"

inductive conc_step ::
    "(nat \<Rightarrow> dpd_arrival) \<Rightarrow> dpd_cache \<times> (nat \<Rightarrow> dpd_pc) \<Rightarrow> dpd_cache \<times> (nat \<Rightarrow> dpd_pc) \<Rightarrow> bool"
  for job :: "nat \<Rightarrow> dpd_arrival" where
  hit: "pc i = Before \<Longrightarrow> dpd_map c (arr_key (job i)) = Some e \<Longrightarrow>
        check_and_insert (at (job i)) c (arr_key (job i)) (arr_ttl (job i)) = (r, c') \<Longrightarrow>
        conc_step job (c, pc) (c', pc(i := Answered r))"
| miss: "pc i = Before \<Longrightarrow> dpd_map c (arr_key (job i)) = None \<Longrightarrow>
         conc_step job (c, pc) (c, pc(i := Missed))"
| insert: "pc i = Missed \<Longrightarrow>
           c' = c\<lparr>dpd_map := (dpd_map c)(arr_key (job i) \<mapsto>
                  \<lparr> first_seen = at (job i), entry_ttl = arr_ttl (job i) \<rparr>)\<rparr> \<Longrightarrow>
           conc_step job (c, pc) (c', pc(i := Answered (Inr True)))"

inductive conc_reach ::
    "(nat \<Rightarrow> dpd_arrival) \<Rightarrow> duration \<Rightarrow> dpd_cache \<Rightarrow> (nat \<Rightarrow> dpd_pc) \<Rightarrow> bool"
  for job :: "nat \<Rightarrow> dpd_arrival" and w :: duration where
  initial: "conc_reach job w (dpd_cache_new w) (\<lambda>_. Before)"
| move: "conc_reach job w c pc \<Longrightarrow> conc_step job (c, pc) (c', pc') \<Longrightarrow> conc_reach job w c' pc'"

text \<open>Some thread accepted a packet with this key and TTL.\<close>

definition accepted_ttl :: "(nat \<Rightarrow> dpd_arrival) \<Rightarrow> (nat \<Rightarrow> dpd_pc) \<Rightarrow> dpd_key \<Rightarrow> byte \<Rightarrow> bool" where
  "accepted_ttl job pc k t \<longleftrightarrow>
     (\<exists>i. pc i = Answered (Inr True) \<and> arr_key (job i) = k \<and> arr_ttl (job i) = t)"

text \<open>Every entry was put there by a thread that accepted, and every refusal has its reason.\<close>

definition justified :: "(nat \<Rightarrow> dpd_arrival) \<Rightarrow> dpd_cache \<Rightarrow> (nat \<Rightarrow> dpd_pc) \<Rightarrow> bool" where
  "justified job c pc \<longleftrightarrow>
     (\<forall>k e. dpd_map c k = Some e \<longrightarrow> accepted_ttl job pc k (entry_ttl e)) \<and>
     (\<forall>j. pc j = Answered (Inr False) \<longrightarrow> accepted_ttl job pc (arr_key (job j)) (arr_ttl (job j))) \<and>
     (\<forall>j e. pc j = Answered (Inl e) \<longrightarrow>
        (\<exists>t. accepted_ttl job pc (arr_key (job j)) t \<and> arr_ttl (job j) < t))"

lemma accepted_ttl_upd:
  "\<forall>r. pc i \<noteq> Answered r \<Longrightarrow> accepted_ttl job pc k t \<Longrightarrow> accepted_ttl job (pc(i := x)) k t"
  unfolding accepted_ttl_def by (metis fun_upd_apply)

lemma justified_upd:
  assumes j: "justified job c pc" and i: "\<forall>r. pc i \<noteq> Answered r"
    and entries: "\<And>k e. dpd_map c' k = Some e \<Longrightarrow>
      dpd_map c k = Some e \<or> accepted_ttl job (pc(i := x)) k (entry_ttl e)"
    and dup: "x = Answered (Inr False) \<Longrightarrow> accepted_ttl job pc (arr_key (job i)) (arr_ttl (job i))"
    and stale: "\<And>e. x = Answered (Inl e) \<Longrightarrow>
      \<exists>t. accepted_ttl job pc (arr_key (job i)) t \<and> arr_ttl (job i) < t"
  shows "justified job c' (pc(i := x))"
proof -
  have up: "accepted_ttl job pc k t \<Longrightarrow> accepted_ttl job (pc(i := x)) k t" for k t
    using accepted_ttl_upd [of pc i] i by blast
  have "accepted_ttl job (pc(i := x)) k (entry_ttl e)" if "dpd_map c' k = Some e" for k e
    using entries [OF that] j up by (auto simp: justified_def)
  moreover have "accepted_ttl job (pc(i := x)) (arr_key (job l)) (arr_ttl (job l))"
    if "(pc(i := x)) l = Answered (Inr False)" for l
    using that j dup up by (cases "l = i") (auto simp: justified_def)
  moreover have "\<exists>t. accepted_ttl job (pc(i := x)) (arr_key (job l)) t \<and> arr_ttl (job l) < t"
    if "(pc(i := x)) l = Answered (Inl e)" for l e
  proof (cases "l = i")
    case True
    with that stale up show ?thesis by force
  next
    case False
    with that j obtain t where "accepted_ttl job pc (arr_key (job l)) t" "arr_ttl (job l) < t"
      by (auto simp: justified_def)
    with up show ?thesis by blast
  qed
  ultimately show ?thesis by (simp add: justified_def)
qed

lemma accepted_now: "accepted_ttl job (pc(i := Answered (Inr True))) (arr_key (job i)) (arr_ttl (job i))"
  unfolding accepted_ttl_def by (rule exI [of _ i]) simp

lemma justified_step:
  assumes "conc_step job (c, pc) (c', pc')" "justified job c pc"
  shows "justified job c' pc'"
  using assms(1)
proof (cases rule: conc_step.cases)
  case (hit i e r)
  have e: "accepted_ttl job pc (arr_key (job i)) (entry_ttl e)"
    using assms(2) hit by (simp add: justified_def)
  show ?thesis
    unfolding hit(1)
    by (rule justified_upd [OF assms(2)])
      (use hit e accepted_now [of job pc i] in
        \<open>auto simp: check_and_insert_def Let_def split: if_splits intro: exI [of _ "entry_ttl e"]\<close>)
next
  case (miss i)
  show ?thesis
    unfolding miss(2) by (rule justified_upd [OF assms(2)]) (use miss in auto)
next
  case (insert i)
  show ?thesis
    unfolding insert(1)
    by (rule justified_upd [OF assms(2)]) (use insert accepted_now [of job pc i] in \<open>auto split: if_splits\<close>)
qed

lemma justified_reach: "conc_reach job w c pc \<Longrightarrow> justified job c pc"
proof (induction rule: conc_reach.induct)
  case initial
  show ?case by (simp add: justified_def dpd_cache_new_def)
qed (rule justified_step)


text \<open>
  C36: with any number of threads and any interleaving, a packet is refused only for a reason: a
  thread that answered ``duplicate'' has another thread that accepted the same key with the same
  TTL, and one that answered with an error has another thread that accepted the same key with a
  larger TTL. So of the packets with one key not all are lost.
\<close>

theorem concurrent_refusals_justified:
  assumes "conc_reach job w c pc" "pc j = Answered r" "r \<noteq> Inr True"
  shows "\<exists>i. i \<noteq> j \<and> pc i = Answered (Inr True) \<and> arr_key (job i) = arr_key (job j) \<and>
    (if r = Inr False then arr_ttl (job i) = arr_ttl (job j) else arr_ttl (job j) < arr_ttl (job i))"
proof -
  note j = justified_reach [OF assms(1), unfolded justified_def]
  show ?thesis
  proof (cases r)
    case (Inl e)
    with j assms(2) obtain t where "accepted_ttl job pc (arr_key (job j)) t" "arr_ttl (job j) < t"
      by blast
    with Inl show ?thesis unfolding accepted_ttl_def by auto
  next
    case (Inr b)
    with assms(3) have "r = Inr False" by simp
    with j assms(2) have "accepted_ttl job pc (arr_key (job j)) (arr_ttl (job j))" by blast
    then obtain i where "pc i = Answered (Inr True)" "arr_key (job i) = arr_key (job j)"
      "arr_ttl (job i) = arr_ttl (job j)" unfolding accepted_ttl_def by blast
    moreover from this(1) have "i \<noteq> j" using \<open>r = Inr False\<close> assms(2) by auto
    ultimately show ?thesis using \<open>r = Inr False\<close> by auto
  qed
qed

definition two_jobs :: "nat \<Rightarrow> dpd_arrival" where
  "two_jobs i = \<lparr> at = 500, arr_key = sample_key, arr_ttl = 64 \<rparr>"

lemma one_after_the_other:
  "\<exists>c pc. conc_reach two_jobs 100 c pc \<and> pc 0 = Answered (Inr True) \<and> pc 1 = Answered (Inr False)"
proof -
  let ?e = "\<lparr> first_seen = 500, entry_ttl = 64 \<rparr>"
  let ?c = "(dpd_cache_new 100)\<lparr>dpd_map := (dpd_map (dpd_cache_new 100))(sample_key \<mapsto> ?e)\<rparr>"
  let ?p1 = "(\<lambda>_. Before)(0 := Missed)" and ?p2 = "(\<lambda>_. Before)(0 := Missed, 0 := Answered (Inr True))"
  have "conc_step two_jobs (dpd_cache_new 100, \<lambda>_. Before) (dpd_cache_new 100, ?p1)"
    by (rule conc_step.miss) (simp_all add: two_jobs_def dpd_cache_new_def)
  with conc_reach.initial have 1: "conc_reach two_jobs 100 (dpd_cache_new 100) ?p1"
    by (rule conc_reach.move)
  have "conc_step two_jobs (dpd_cache_new 100, ?p1) (?c, ?p2)"
    by (rule conc_step.insert) (simp_all add: two_jobs_def)
  with 1 have 2: "conc_reach two_jobs 100 ?c ?p2" by (rule conc_reach.move)
  have "conc_step two_jobs (?c, ?p2) (?c, ?p2(1 := Answered (Inr False)))"
    by (rule conc_step.hit [of _ 1 _ _ ?e])
      (simp_all add: two_jobs_def check_and_insert_def)
  with 2 have "conc_reach two_jobs 100 ?c (?p2(1 := Answered (Inr False)))" by (rule conc_reach.move)
  then show ?thesis by force
qed

theorem concurrent_refusals_justified_witness:
  "\<exists>c pc i. conc_reach two_jobs 100 c pc \<and> pc 1 = Answered (Inr False) \<and> i \<noteq> 1 \<and>
     pc i = Answered (Inr True)"
proof -
  obtain c pc where "conc_reach two_jobs 100 c pc" "pc 1 = Answered (Inr False)"
    using one_after_the_other by blast
  with concurrent_refusals_justified [of two_jobs 100 c pc 1 "Inr False"] show ?thesis by auto
qed

text \<open>
  C37: the check and the insertion are not one atomic operation. Two threads that handle packets
  with the same key can both accept, whatever their TTLs, and the cache then holds the TTL of
  the thread that inserted last, even if the other one was larger.
\<close>

theorem concurrent_double_accept:
  assumes "i \<noteq> j" "arr_key (job i) = arr_key (job j)"
  shows "\<exists>c pc. conc_reach job w c pc \<and>
    pc i = Answered (Inr True) \<and> pc j = Answered (Inr True) \<and>
    seen_ttl c (arr_key (job j)) = Some (arr_ttl (job j))"
proof -
  let ?c0 = "dpd_cache_new w" and ?p0 = "\<lambda>_ :: nat. Before"
  let ?put = "\<lambda>c n. c\<lparr>dpd_map := (dpd_map c)(arr_key (job n) \<mapsto>
                 \<lparr> first_seen = at (job n), entry_ttl = arr_ttl (job n) \<rparr>)\<rparr>"
  let ?p1 = "?p0(i := Missed)" let ?p2 = "?p1(j := Missed)"
  let ?p3 = "?p2(i := Answered (Inr True))" let ?p4 = "?p3(j := Answered (Inr True))"
  have "conc_step job (?c0, ?p0) (?c0, ?p1)"
    by (rule conc_step.miss) (simp_all add: dpd_cache_new_def)
  with conc_reach.initial have 1: "conc_reach job w ?c0 ?p1" by (rule conc_reach.move)
  have "conc_step job (?c0, ?p1) (?c0, ?p2)"
    by (rule conc_step.miss) (use assms in \<open>simp_all add: dpd_cache_new_def\<close>)
  with 1 have 2: "conc_reach job w ?c0 ?p2" by (rule conc_reach.move)
  have "conc_step job (?c0, ?p2) (?put ?c0 i, ?p3)"
    by (rule conc_step.insert) (use assms in simp_all)
  with 2 have 3: "conc_reach job w (?put ?c0 i) ?p3" by (rule conc_reach.move)
  have "conc_step job (?put ?c0 i, ?p3) (?put (?put ?c0 i) j, ?p4)"
    by (rule conc_step.insert) (use assms in simp_all)
  with 3 have "conc_reach job w (?put (?put ?c0 i) j) ?p4" by (rule conc_reach.move)
  moreover have "?p4 i = Answered (Inr True)" "?p4 j = Answered (Inr True)" using assms(1) by simp_all
  moreover have "seen_ttl (?put (?put ?c0 i) j) (arr_key (job j)) = Some (arr_ttl (job j))"
    by (simp add: seen_ttl_def)
  ultimately show ?thesis by blast
qed

theorem concurrent_double_accept_witness:
  "\<exists>c pc. conc_reach two_jobs 100 c pc \<and> pc 0 = Answered (Inr True) \<and> pc 1 = Answered (Inr True)"
  using concurrent_double_accept [of 0 1 two_jobs 100] by (auto simp: two_jobs_def)

section \<open>Packet identifiers\<close>

lemma hash_input_eq: "hash_input src dst payload = Some (ip_octets src @ ip_octets dst @ take 64 payload)"
  by (simp add: hash_input_def slice_of_def min_def)

lemma length_ip_octets: "length (ip_octets a) = (case a of V4 _ \<Rightarrow> 4 | V6 _ \<Rightarrow> 16)"
  by (cases a) simp_all

text \<open>
  The hash identifier is computed without a panic from the source, the destination and the first 64 bytes of
  the payload, provided the hash does not fail on bytes in memory: payloads that agree in these
  have the same key. The input of the hash determines all three when the address families are
  known, so that two keys differ by collision of the hash only.
\<close>

lemma hash_id_prefix:
  assumes "\<And>input. \<exists>h. murmur input = Inr h"
  shows "h_dpd_hash murmur src dst payload \<noteq> None \<and>
    h_dpd_hash murmur src dst payload = h_dpd_hash murmur src dst (take 64 payload) \<and>
    (hash_input (V4 a) (V4 b) p = hash_input (V4 a') (V4 b') p' \<longleftrightarrow>
       a = a' \<and> b = b' \<and> take 64 p = take 64 p') \<and>
    (hash_input (V6 c) (V6 d) p = hash_input (V6 c') (V6 d') p' \<longleftrightarrow>
       c = c' \<and> d = d' \<and> take 64 p = take 64 p')"
proof -
  obtain h where h: "murmur (ip_octets src @ ip_octets dst @ take 64 payload) = Inr h"
    using assms by blast
  have v4: "hash_input (V4 a) (V4 b) p = hash_input (V4 a') (V4 b') p' \<longleftrightarrow>
      a = a' \<and> b = b' \<and> take 64 p = take 64 p'"
    by (auto simp: hash_input_eq dest: ipv4_octets_inj)
  have v6: "hash_input (V6 c) (V6 d) p = hash_input (V6 c') (V6 d') p' \<longleftrightarrow>
      c = c' \<and> d = d' \<and> take 64 p = take 64 p'"
    by (auto simp: hash_input_eq dest: ipv6_octets_inj)
  from h v4 v6 show ?thesis by (simp add: h_dpd_hash_def hash_input_eq Let_def)
qed

lemma bytes_to_u64_eq:
  "\<exists>w. bytes_to_u64 bs = Some w \<and> unat w = be_nat (take 8 bs @ replicate (8 - min 8 (length bs)) 0)"
proof -
  let ?p = "take 8 bs @ replicate (8 - min 8 (length bs)) 0"
  have "be_nat ?p < 256 ^ length ?p" by (rule be_nat_bound)
  also have "length ?p = 8" by simp
  finally have "unat (of_nat (be_nat ?p) :: u64) = be_nat ?p" by (simp add: unat_of_nat)
  then show ?thesis by (auto simp: bytes_to_u64_def slice_of_def min_def split: if_splits)
qed

text \<open>
  The numeric identifier of an option is the identifier padded to eight bytes with zeros on
  the right, read as a big-endian number. Two identifiers get one number exactly if they agree
  after padding and cutting to eight bytes; so identifiers of equal length up to 8 are told
  apart, and appending a zero byte to a shorter one is not noticed.
\<close>

lemma identifier_number_collisions:
  "(bytes_to_u64 bs = bytes_to_u64 cs) =
     (take 8 (bs @ replicate 8 0) = take 8 (cs @ replicate 8 0))"
proof -
  have pad: "take 8 bs @ replicate (8 - min 8 (length bs)) 0 = take 8 (bs @ replicate 8 0)"
    for bs :: bytes by (simp add: min_def)
  obtain v w where v: "bytes_to_u64 bs = Some v" "unat v = be_nat (take 8 (bs @ replicate 8 0))"
    and w: "bytes_to_u64 cs = Some w" "unat w = be_nat (take 8 (cs @ replicate 8 0))"
    using bytes_to_u64_eq [of bs] bytes_to_u64_eq [of cs] unfolding pad by blast
  have len: "length (take 8 (bs @ replicate 8 0)) = length (take 8 (cs @ replicate 8 (0 :: byte)))"
    by simp
  have "v = w \<longleftrightarrow> unat v = unat w" by (simp add: word_unat_eq_iff)
  with v w show ?thesis using be_nat_inj [OF len] by auto
qed

end
