(* ===== verification/Smf_Eviction.thy ===== *)
theory Smf_Eviction
  imports Smf_Dpd_Props
begin

text \<open>
  The eviction task of \<open>smf/dpd.rs\<close> over time: \<open>tokio::time::interval\<close> ticks at once and then every
  quarter of the window, and every tick evicts. The scheduler may run a tick late, by at most
  \<open>lag\<close>. Between the evictions packets arrive in any number.
\<close>

text \<open>The instants of the first \<open>n\<close> ticks of the task spawned at \<open>start\<close>; none when it is disabled.\<close>

definition eviction_ticks :: "duration \<Rightarrow> instant \<Rightarrow> nat \<Rightarrow> instant list" where
  "eviction_ticks w start n =
     (case eviction_interval w of
        None \<Rightarrow> []
      | Some p \<Rightarrow> map (\<lambda>k. start + int (k * p)) [0..<n])"

type_synonym dpd_record = "((instant \<times> dpd_op) \<times> bool relay_result option) list"

text \<open>Every one of the ticks was run, at most \<open>lag\<close> late.\<close>

definition runs_ticks :: "nat \<Rightarrow> instant list \<Rightarrow> dpd_record \<Rightarrow> bool" where
  "runs_ticks lag ticks h \<longleftrightarrow>
     list_all (\<lambda>t. \<exists>now. ((now, Evict), None) \<in> set h \<and> t \<le> now \<and> now \<le> t + int lag) ticks"

definition in_order :: "dpd_record \<Rightarrow> bool" where
  "in_order h \<longleftrightarrow> sorted (map (\<lambda>x. fst (fst x)) h)"

text \<open>The arrivals after an instant.\<close>

definition arrivals_after :: "instant \<Rightarrow> dpd_record \<Rightarrow> dpd_record" where
  "arrivals_after t h =
     filter (\<lambda>((now, op), r). t < now \<and> (case op of Arrive k ttl \<Rightarrow> True | _ \<Rightarrow> False)) h"

text \<open>Every entry is younger than the evictions leave it, and comes from an arrival.\<close>

definition young :: "dpd_cache \<Rightarrow> dpd_record \<Rightarrow> bool" where
  "young c h \<longleftrightarrow>
     (\<forall>k e. dpd_map c k = Some e \<longrightarrow>
        (\<forall>now. ((now, Evict), None) \<in> set h \<longrightarrow> now - int (window c) < first_seen e) \<and>
        (\<exists>ttl r. ((first_seen e, Arrive k ttl), r) \<in> set h))"

lemma young_step:
  assumes "young c h" "dpd_step t_min c (t, op) r c'" "0 < window c"
    and "\<And>y. y \<in> set h \<Longrightarrow> fst (fst y) \<le> t"
  shows "young c' (h @ [((t, op), r)])"
  using assms(2)
proof cases
  case (arrive k ttl res)
  have now: "now - int (window c) < t" if "((now, Evict), None) \<in> set h" for now
    using assms(3) assms(4) [OF that] by simp
  have "c' = c \<or> dpd_map c' = (dpd_map c)(k \<mapsto> \<lparr> first_seen = t, entry_ttl = ttl \<rparr>) \<and> window c' = window c"
    using arrive by (auto simp: check_and_insert_def Let_def split: option.splits if_splits)
  then show ?thesis
  proof
    assume "c' = c"
    with assms(1) arrive show ?thesis by (auto simp: young_def) blast+
  next
    assume *: "dpd_map c' = (dpd_map c)(k \<mapsto> \<lparr> first_seen = t, entry_ttl = ttl \<rparr>) \<and> window c' = window c"
    show ?thesis
      unfolding young_def
    proof (intro allI impI)
      fix k' e assume e: "dpd_map c' k' = Some e"
      show "(\<forall>now. ((now, Evict), None) \<in> set (h @ [((t, op), r)]) \<longrightarrow> now - int (window c') < first_seen e) \<and>
        (\<exists>ttl ra. ((first_seen e, Arrive k' ttl), ra) \<in> set (h @ [((t, op), r)]))"
      proof (cases "k' = k")
        case True
        with e * have "first_seen e = t" by auto
        with True * now arrive show ?thesis by auto
      next
        case False
        with e * have "dpd_map c k' = Some e" by simp
        with assms(1) * arrive show ?thesis by (auto simp: young_def) blast+
      qed
    qed
  qed
next
  case evict
  then have "dpd_map c' = retain_from (t - int (window c)) (dpd_map c)" "window c' = window c"
    by (auto simp: evict_expired_def Let_def split: if_splits)
  with assms(1) evict show ?thesis
    by (auto simp: young_def retain_from_def split: option.splits if_splits)
next
  case clear
  then show ?thesis by (simp add: young_def dpd_clear_def)
qed

lemma young_history:
  assumes "dpd_history t_min (dpd_cache_new w) h c" "in_order h" "0 < w"
  shows "young c h"
  using assms
proof (induction "dpd_cache_new w" h c rule: dpd_history.induct)
  case start
  then show ?case by (simp add: young_def dpd_cache_new_def)
next
  case (step h c x r c')
  obtain t op where x: "x = (t, op)" by (cases x)
  from step.prems have "in_order h" and "\<And>y. y \<in> set h \<Longrightarrow> fst (fst y) \<le> t"
    by (auto simp: in_order_def sorted_append x)
  moreover have "window c = w" using history_window [OF step.hyps(1)] by (simp add: dpd_cache_new_def)
  ultimately show ?case using step x by (intro young_step [of c h t_min t op r c', folded x]) auto
qed

section \<open>The size of the cache\<close>

lemma recent_bound:
  assumes "young c h" "\<And>k e. dpd_map c k = Some e \<Longrightarrow> t < first_seen e"
  shows "dpd_len c \<le> length (arrivals_after t h)"
proof -
  let ?key = "\<lambda>((now, op), r). case op of Arrive k ttl \<Rightarrow> k | _ \<Rightarrow> undefined"
  have "dom (dpd_map c) \<subseteq> ?key ` set (arrivals_after t h)"
  proof
    fix k assume "k \<in> dom (dpd_map c)"
    then obtain e where e: "dpd_map c k = Some e" by blast
    with assms(1) obtain ttl r where "((first_seen e, Arrive k ttl), r) \<in> set h"
      unfolding young_def by blast
    with assms(2) [OF e] have "((first_seen e, Arrive k ttl), r) \<in> set (arrivals_after t h)"
      by (simp add: arrivals_after_def)
    then show "k \<in> ?key ` set (arrivals_after t h)" by (intro image_eqI) auto
  qed
  then have "card (dom (dpd_map c)) \<le> card (?key ` set (arrivals_after t h))"
    by (intro card_mono) simp_all
  also have "\<dots> \<le> card (set (arrivals_after t h))" by (rule card_image_le) simp
  also have "\<dots> \<le> length (arrivals_after t h)" by (rule card_length)
  finally show ?thesis by (simp add: dpd_len_def)
qed

text \<open>No task runs for windows below four seconds.\<close>

lemma eviction_disabled_iff: "eviction_interval w = None \<longleftrightarrow> w < 4 * NANOS_PER_SEC"
  by (auto simp: eviction_interval_def Let_def div_less_iff_less_mult NANOS_PER_SEC_def)

lemma interval_bounds: "eviction_interval w = Some p \<Longrightarrow> 0 < w \<and> p = w div 4"
  by (auto simp: eviction_interval_def NANOS_PER_SEC_def Let_def split: if_splits)

text \<open>
  C27: the cache only remembers the recent past. If the eviction task was spawned at \<open>start\<close> and has
  run its ticks up to now, each at most \<open>lag\<close> late, then every entry was first seen less than five
  quarters of the window and the lag ago, and there are at most as many entries as packets have
  arrived in that time.
\<close>

theorem cache_remembers_recent:
  assumes "dpd_history t_min (dpd_cache_new w) h c" "in_order h" "eviction_interval w = Some p"
    and "runs_ticks lag (eviction_ticks w start (Suc n)) h"
    and "now \<le> start + int (Suc n * p) + int lag"
  shows "(\<forall>k e. dpd_map c k = Some e \<longrightarrow> now - int (w + w div 4 + lag) < first_seen e) \<and>
    dpd_len c \<le> length (arrivals_after (now - int (w + w div 4 + lag)) h)"
proof -
  from interval_bounds [OF assms(3)] have w: "0 < w" and p: "p = w div 4" by auto
  have young: "young c h" by (rule young_history [OF assms(1,2) w])
  have window: "window c = w" using history_window [OF assms(1)] by (simp add: dpd_cache_new_def)
  have "start + int (n * p) \<in> set (eviction_ticks w start (Suc n))"
    using assms(3) by (simp add: eviction_ticks_def)
  with assms(4) obtain at where tick: "((at, Evict), None) \<in> set h" "start + int (n * p) \<le> at"
    by (auto simp: runs_ticks_def list_all_iff)
  have seen: "now - int (w + w div 4 + lag) < first_seen e" if "dpd_map c k = Some e" for k e
  proof -
    from young that tick(1) have "at - int w < first_seen e" unfolding young_def window by blast
    with tick(2) assms(5) p show ?thesis by simp
  qed
  with recent_bound [OF young] show ?thesis by blast
qed

theorem cache_remembers_recent_witness:
  "\<exists>c. dpd_history (- 100000000000) (dpd_cache_new 8000000000)
       [((0, Evict), None), ((5, Arrive sample_key 64), Some (Inr True))] c \<and>
     dpd_len c \<le> 1"
proof -
  let ?c1 = "dpd_cache_new 8000000000"
  let ?c2 = "snd (check_and_insert 5 ?c1 sample_key 64)"
  let ?h = "[((0, Evict), None), ((5, Arrive sample_key 64), Some (Inr True))] :: dpd_record"
  have "dpd_step (- 100000000000) ?c1 (0, Evict) None ?c1"
    by (simp add: dpd_step_simps evict_expired_def dpd_cache_new_def retain_from_def)
  moreover have "dpd_step (- 100000000000) ?c1 (5, Arrive sample_key 64) (Some (Inr True)) ?c2"
    by (simp add: dpd_step_simps check_and_insert_def dpd_cache_new_def)
  ultimately have hist: "dpd_history (- 100000000000) ?c1 ?h ?c2"
    using dpd_history.step [OF dpd_history.step [OF dpd_history.start]] by fastforce
  have int: "eviction_interval 8000000000 = Some 2000000000"
    by (simp add: eviction_interval_def NANOS_PER_SEC_def)
  have "in_order ?h" "runs_ticks 10 (eviction_ticks 8000000000 0 (Suc 0)) ?h"
    by (simp_all add: in_order_def runs_ticks_def eviction_ticks_def int)
  from cache_remembers_recent [OF hist this(1) int this(2), of 100]
  have "dpd_len ?c2 \<le> length (arrivals_after (100 - int (8000000000 + 8000000000 div 4 + 10)) ?h)"
    by simp
  also have "\<dots> = 1" by (simp add: arrivals_after_def)
  finally show ?thesis using hist by blast
qed

end
