(* ===== verification/Smf_Node.thy ===== *)
theory Smf_Node
  imports Smf_Engine Smf_Eviction
begin

text \<open>
  A node that runs the engine of \<open>smf/engine.rs\<close> together with its eviction tasks: the engine and
  the tasks share the cache, packets are processed and the tasks tick in any order.

  \<open>start_eviction\<close> spawns a task each time it is called; a task whose interval is too short ends at
  once, and a task ends with a panic when the cutoff of an eviction is not representable.
\<close>

section \<open>Steps of a node\<close>

record smf_node =
  nd_engine :: smf_engine
  nd_evictors :: "bool list"
    \<comment> \<open>for every eviction task spawned whether it still runs\<close>

definition node_new :: "smf_engine \<Rightarrow> smf_node" where
  "node_new eng = \<lparr> nd_engine = eng, nd_evictors = [] \<rparr>"

record smf_packet =
  pk_bytes :: bytes
  pk_src :: ip_addr
  pk_dst :: ip_addr
  pk_ttl :: byte
  pk_ingress :: string
  pk_prev_hop :: ip_addr

definition engine_answer :: "smf_engine \<Rightarrow> smf_packet \<Rightarrow> bytes option relay_result" where
  "engine_answer eng p =
     process_packet eng (pk_bytes p) (pk_src p) (pk_dst p) (pk_ttl p) (pk_ingress p) (pk_prev_hop p)"

datatype node_label =
    Processed smf_packet "bytes option relay_result"
  | EvictionStarted
  | Ticked nat instant

definition node_start_eviction :: "smf_node \<Rightarrow> smf_node" where
  "node_start_eviction n =
     n\<lparr>nd_evictors := nd_evictors n @ [start_eviction (nd_engine n) \<noteq> None]\<rparr>"

definition node_tick :: "instant \<Rightarrow> nat \<Rightarrow> instant \<Rightarrow> smf_node \<Rightarrow> smf_node" where
  "node_tick t_min i now n =
     (case evict_expired t_min now (eng_cache (nd_engine n)) of
        None \<Rightarrow> n\<lparr>nd_evictors := (nd_evictors n)[i := False]\<rparr>
      | Some c \<Rightarrow> n\<lparr>nd_engine := (nd_engine n)\<lparr>eng_cache := c\<rparr>\<rparr>)"

inductive node_step :: "instant \<Rightarrow> smf_node \<Rightarrow> node_label \<Rightarrow> smf_node \<Rightarrow> bool" for t_min :: instant where
  process: "node_step t_min n (Processed p (engine_answer (nd_engine n) p)) n"
| start_evict: "node_step t_min n EvictionStarted (node_start_eviction n)"
| tick: "i < length (nd_evictors n) \<Longrightarrow> nd_evictors n ! i \<Longrightarrow>
    node_step t_min n (Ticked i now) (node_tick t_min i now n)"

inductive_cases process_stepE: "node_step t_min n (Processed p r) n'"

inductive node_history :: "instant \<Rightarrow> smf_node \<Rightarrow> node_label list \<Rightarrow> smf_node \<Rightarrow> bool"
  for t_min :: instant and n0 :: smf_node where
  start: "node_history t_min n0 [] n0"
| step: "node_history t_min n0 ls n \<Longrightarrow> node_step t_min n l n' \<Longrightarrow> node_history t_min n0 (ls @ [l]) n'"

section \<open>The cache of a node\<close>

lemma evict_empty: "dpd_map c = Map.empty \<Longrightarrow> evict_expired t_min now c \<in> {None, Some c}"
  by (cases c) (auto simp: evict_expired_def Let_def retain_from_def)

lemma tick_engine:
  "dpd_map (eng_cache (nd_engine n)) = Map.empty \<Longrightarrow> nd_engine (node_tick t_min i now n) = nd_engine n"
  using evict_empty [of "eng_cache (nd_engine n)" t_min now] by (auto simp: node_tick_def)

lemma node_step_engine:
  assumes "node_step t_min n l n'" "dpd_map (eng_cache (nd_engine n)) = Map.empty"
  shows "nd_engine n' = nd_engine n"
  using assms by cases (auto simp: node_start_eviction_def tick_engine)

lemma node_history_engine:
  assumes "node_history t_min n0 ls n" "dpd_map (eng_cache (nd_engine n0)) = Map.empty"
  shows "nd_engine n = nd_engine n0 \<and>
    (\<forall>p r. Processed p r \<in> set ls \<longrightarrow> r = engine_answer (nd_engine n0) p)"
  using assms
proof induction
  case (step ls n l n')
  then have same: "nd_engine n = nd_engine n0" by simp
  moreover have "r = engine_answer (nd_engine n0) p" if "l = Processed p r" for p r
    using step.hyps(2) same unfolding that by (auto elim: process_stepE)
  ultimately show ?case using step node_step_engine [OF step.hyps(2)] by auto
qed simp


definition sample_packet :: smf_packet where
  "sample_packet =
     \<lparr> pk_bytes = [0, 0, 0, 0, 0, 0, 0, 0, 64], pk_src = V4 (Ipv4Addr 10 0 0 2),
       pk_dst = V4 (Ipv4Addr 239 0 0 1), pk_ttl = 64, pk_ingress = ''eth0'',
       pk_prev_hop = V4 (Ipv4Addr 10 0 0 2) \<rparr>"


end
