(* ===== verification/Context_Types.thy ===== *)
theory Context_Types
  imports V4_Pipeline V6_Relay V6_Sample
begin

text \<open>
  The strings of a context are strings: \<open>interface\<close> and the keys and values of \<open>metadata\<close> have the
  type \<open>String\<close> in the code, so in the model, where a string is its bytes, every stage must keep
  them well-formed UTF-8. The interesting case is the name taken out of an Interface-ID option.
\<close>

definition ctx_typed :: "pipeline_ctx \<Rightarrow> bool" where
  "ctx_typed c \<longleftrightarrow>
     rust_string (interface c) \<and>
     (\<forall>k v. metadata c k = Some v \<longrightarrow> rust_string k \<and> rust_string v)"

lemma ctx_typed_upd [simp]:
  "ctx_typed (c\<lparr>buffer := b\<rparr>) = ctx_typed c" "ctx_typed (c\<lparr>dst_addr := a\<rparr>) = ctx_typed c"
  "ctx_typed (c\<lparr>is_reforwarded := r\<rparr>) = ctx_typed c"
  by (simp_all add: ctx_typed_def)

lemma ctx_typed_put:
  "ctx_typed c \<Longrightarrow> rust_string k \<Longrightarrow> rust_string v \<Longrightarrow> ctx_typed (c\<lparr>metadata := (metadata c)(k \<mapsto> v)\<rparr>)"
  by (simp add: ctx_typed_def)

lemma keys_typed [simp]:
  "rust_string ''option82_inserted''" "rust_string ''vss_inserted''" "rust_string ''outbound_interface''"
  "rust_string ''true''"
  by (simp_all add: rust_string_def as_bytes_def)

lemma first_interface_typed: "first_interface opts = Some name \<Longrightarrow> rust_string name"
  by (induction opts) (auto dest: interface_id.canonical split: option.splits)

lemma modify_then_typed:
  assumes "modify_then (modify_msg dec enc st f ctx) rest = Some (r, c)" "ctx_typed ctx"
    and "\<And>c. ctx_typed c \<Longrightarrow> ctx_typed (rest c)"
  shows "ctx_typed c"
proof (cases "modify_msg dec enc st f ctx")
  case (Pair u c')
  then have "ctx_typed c'" using assms(2) by (auto dest!: modify_msg_origin)
  with Pair assms show ?thesis by (cases u) auto
qed

locale typed_stage = sound_stage +
  assumes typed: "process ctx = Some (r, ctx') \<Longrightarrow> ctx_typed ctx \<Longrightarrow> ctx_typed ctx'"

locale typed_pipeline = sound_pipeline +
  assumes all_typed: "st \<in> set sts \<Longrightarrow> typed_stage (stage_process st)"
begin

lemma execute_typed:
  "set xs \<subseteq> set sts \<Longrightarrow> execute_stages xs ctx = Some (r, ctx') \<Longrightarrow> ctx_typed ctx \<Longrightarrow> ctx_typed ctx'"
proof (induction xs arbitrary: ctx)
  case (Cons st xs)
  then have "typed_stage (stage_process st)" by (simp add: all_typed)
  then have "ctx_typed c" if "stage_process st ctx = Some (u, c)" for u c
    using that Cons.prems(3) by (rule typed_stage.typed)
  with Cons show ?case by (auto split: option.splits sum.splits prod.splits bool.splits if_splits)
qed simp

lemma keeps_typed: "execute_stages sts ctx = Some (r, ctx') \<Longrightarrow> ctx_typed ctx \<Longrightarrow> ctx_typed ctx'"
  by (rule execute_typed [OF subset_refl])

end

section \<open>The stages\<close>

interpretation v4_parse_typed: typed_stage "v4_parse_process A" for A :: "('m, 'i, 'f) v4_api"
  by unfold_locales (auto simp: v4_parse_process_def modify_v4_def dest: modify_then_typed)

interpretation validate_typed: typed_stage "validate_process A ls" for A :: "('m, 'i, 'f) v4_api" and ls
  by unfold_locales (auto simp: validate_process_def split: sum.splits giaddr_decision.splits)

interpretation insert_typed: typed_stage "option82_insert_process A ci ri"
  for A :: "('m, 'i, 'f) v4_api" and ci ri
  by unfold_locales
    (auto simp: option82_insert_process_def modify_v4_def intro!: ctx_typed_put
      elim!: modify_then_typed split: if_splits)

interpretation strip_typed: typed_stage "option82_strip_process A expected"
  for A :: "('m, 'i, 'f) v4_api" and expected
  by unfold_locales (auto simp: option82_strip_process_def modify_v4_def dest: modify_then_typed)

interpretation giaddr_typed: typed_stage "giaddr_process A ip" for A :: "('m, 'i, 'f) v4_api" and ip
  by unfold_locales (auto simp: giaddr_process_def modify_v4_def dest: modify_then_typed split: if_splits)

interpretation v4_forward_typed: typed_stage "v4_forward_process dest" for dest
  by unfold_locales (auto simp: v4_forward_process_def)

interpretation reply_addr_typed: typed_stage "reply_addr_process A" for A :: "('m, 'i, 'f) v4_api"
  by unfold_locales (auto simp: reply_addr_process_def split: sum.splits)

interpretation v4_vss_insert_typed: typed_stage "vss_insert_process A cfg"
  for A :: "('m, 'i, 'f) v4_api" and cfg
  by unfold_locales
    (auto simp: vss_insert_process_def modify_v4_def intro!: ctx_typed_put
      elim!: modify_then_typed split: if_splits sum.splits prod.splits option.splits)

interpretation v4_vss_check_typed: typed_stage "vss_check_process A cfg"
  for A :: "('m, 'i, 'f) v4_api" and cfg
  by unfold_locales
    (auto simp: vss_check_process_def split: if_splits sum.splits option.splits v4_option.splits)

interpretation v6_parse_typed: typed_stage "v6_parse_process A" for A :: "'m v6_api"
  by unfold_locales (auto simp: v6_parse_process_def split: sum.splits)

interpretation interface_id_typed: typed_stage "interface_id_process A name" for A :: "'m v6_api" and name
  by unfold_locales (auto simp: interface_id_process_def modify_v6_def dest: modify_then_typed)

interpretation remote_id_typed: typed_stage "remote_id_process A d" for A :: "'m v6_api" and d
  by unfold_locales (auto simp: remote_id_process_def modify_v6_def dest: modify_then_typed)

interpretation v6_vss_insert_typed: typed_stage "v6_vss_insert_process A cfg" for A :: "'m v6_api" and cfg
  by unfold_locales
    (auto simp: v6_vss_insert_process_def modify_v6_def intro!: ctx_typed_put
      elim!: modify_then_typed split: if_splits sum.splits)

interpretation relay_fwd_typed: typed_stage "relay_fwd_process link peer" for link peer
  by unfold_locales (auto simp: relay_fwd_process_def)

interpretation relay_reply_typed: typed_stage relay_reply_process
  by unfold_locales (auto simp: relay_reply_process_def split: option.splits sum.splits)

interpretation extract_typed: typed_stage "interface_id_extract_process A" for A :: "'m v6_api"
  by unfold_locales
    (auto simp: interface_id_extract_process_def intro!: ctx_typed_put dest: first_interface_typed
      split: sum.splits option.splits)

interpretation v6_forward_typed: typed_stage "v6_forward_process dest" for dest
  by unfold_locales (auto simp: v6_forward_process_def)

interpretation v6_vss_extract_typed: typed_stage "v6_vss_extract_process A cfg" for A :: "'m v6_api" and cfg
  by unfold_locales (auto simp: v6_vss_extract_result split: sum.splits if_splits)

lemmas stages_typed =
  v4_parse_typed.typed_stage_axioms validate_typed.typed_stage_axioms insert_typed.typed_stage_axioms
  strip_typed.typed_stage_axioms giaddr_typed.typed_stage_axioms v4_forward_typed.typed_stage_axioms
  reply_addr_typed.typed_stage_axioms v4_vss_insert_typed.typed_stage_axioms
  v4_vss_check_typed.typed_stage_axioms v6_parse_typed.typed_stage_axioms
  interface_id_typed.typed_stage_axioms remote_id_typed.typed_stage_axioms
  v6_vss_insert_typed.typed_stage_axioms relay_fwd_typed.typed_stage_axioms
  relay_reply_typed.typed_stage_axioms extract_typed.typed_stage_axioms
  v6_forward_typed.typed_stage_axioms v6_vss_extract_typed.typed_stage_axioms

section \<open>The pipelines\<close>

interpretation v4_request_typed: typed_pipeline "stages (build_request_v4 A ls ci ri ip srv vss en82)"
  for A :: "('m, 'i, 'f) v4_api" and ls ci ri ip srv vss en82
  by (intro typed_pipeline.intro typed_pipeline_axioms.intro v4_request.sound_pipeline_axioms)
    (auto simp: build_request_v4_def stages_typed split: if_splits option.splits)

interpretation v4_reply_typed: typed_pipeline "stages (build_reply_v4 A expected vss en82)"
  for A :: "('m, 'i, 'f) v4_api" and expected vss en82
  by (intro typed_pipeline.intro typed_pipeline_axioms.intro v4_reply.sound_pipeline_axioms)
    (auto simp: build_reply_v4_def stages_typed split: if_splits option.splits)

interpretation v6_request_typed: typed_pipeline
  "stages (build_request_v6 B name rid link peer srv vss en_if en_rid)"
  for B :: "'n v6_api" and name rid link peer srv vss en_if en_rid
  by (intro typed_pipeline.intro typed_pipeline_axioms.intro v6_request.sound_pipeline_axioms)
    (auto simp: build_request_v6_def stages_typed split: if_splits option.splits)

interpretation v6_reply_typed: typed_pipeline "stages (build_reply_v6 B client vss)"
  for B :: "'n v6_api" and client vss
  by (intro typed_pipeline.intro typed_pipeline_axioms.intro v6_reply.sound_pipeline_axioms)
    (auto simp: build_reply_v6_def stages_typed split: option.splits)



end
