(* ===== verification/Tests_V4.thy ===== *)
theory Tests_V4
  imports V4_Options V4_Reply
begin

text \<open>
  The unit tests of \<open>dhcp/v4/\<close> and of \<open>tests/dhcpv4_option82.rs\<close> and \<open>tests/dhcpv4_vss.rs\<close>, one
  definition per test function, and that they hold of the model. A test is the conjunction of its
  assertions; an \<open>unwrap\<close> of an error or of nothing fails the test.

  The tests build their messages with constructors of \<open>dhcproto\<close> that the program itself does not
  use. They are the parameters \<open>v4_build\<close>, and \<open>build_ok\<close> states what the crate documents of them,
  in terms of the view of a message. The tests hold for every implementation that satisfies the
  laws and whose encoder does not fail. One assertion is left out: \<open>yiaddr\<close> after the full round
  trip, a field that is not part of the view.
\<close>

section \<open>Messages of the tests\<close>

record ('m, 'i, 'f) v4_build =
  bd_default :: 'm
  bd_set_type :: "'m \<Rightarrow> v4_message_type \<Rightarrow> 'm" \<comment> \<open>\<open>opts_mut().insert(MessageType(t))\<close>\<close>
  bd_set_reply :: "'m \<Rightarrow> 'm" \<comment> \<open>\<open>set_opcode(BootReply)\<close>\<close>
  bd_set_ciaddr :: "'m \<Rightarrow> ipv4addr \<Rightarrow> 'm"
  bd_relay_get :: "'i \<Rightarrow> relay_code \<Rightarrow> 'f relay_info option"

definition v4_offer :: v4_message_type where "v4_offer = OtherV4MessageType 2"

definition build_ok :: "('m, 'i, 'f) v4_api \<Rightarrow> ('m, 'i, 'f) v4_build \<Rightarrow> bool" where
  "build_ok A D \<longleftrightarrow>
     v4_view A (bd_default D) =
       \<lparr> vw_giaddr = IPV4_UNSPECIFIED, vw_ciaddr = IPV4_UNSPECIFIED, vw_type = None, vw_opt82 = None \<rparr> \<and>
     (\<forall>m. \<forall>t \<in> {Discover, v4_offer}.
        v4_view A (bd_set_type D m t) = (v4_view A m)\<lparr>vw_type := Some t\<rparr>) \<and>
     (\<forall>m. v4_view A (bd_set_reply D m) = v4_view A m) \<and>
     (\<forall>m ip. v4_view A (bd_set_ciaddr D m ip) = (v4_view A m)\<lparr>vw_ciaddr := ip\<rparr>) \<and>
     (\<forall>i c. bd_relay_get D i c = map_of (relay_iter A i) c)"

lemma build_views:
  assumes "build_ok A D"
  shows "v4_view A (bd_default D) =
      \<lparr> vw_giaddr = IPV4_UNSPECIFIED, vw_ciaddr = IPV4_UNSPECIFIED, vw_type = None, vw_opt82 = None \<rparr>"
    and "v4_view A (bd_set_type D m Discover) = (v4_view A m)\<lparr>vw_type := Some Discover\<rparr>"
    and "v4_view A (bd_set_type D m v4_offer) = (v4_view A m)\<lparr>vw_type := Some v4_offer\<rparr>"
    and "v4_view A (bd_set_reply D m) = v4_view A m"
    and "v4_view A (bd_set_ciaddr D m ip) = (v4_view A m)\<lparr>vw_ciaddr := ip\<rparr>"
  using assms by (simp_all add: build_ok_def)

text \<open>Of two sub-options the circuit identifier comes first in an iteration.\<close>

definition circuit_first :: "('m, 'i, 'f) v4_api \<Rightarrow> bool" where
  "circuit_first A \<longleftrightarrow>
     (\<forall>i d e. mset (relay_iter A i) = relay_sub_options (Some d) (Some e) \<longrightarrow>
        relay_iter A i =
          [(AgentCircuitIdCode, AgentCircuitId d), (AgentRemoteIdCode, AgentRemoteId e)])"

text \<open>The byte strings of the tests.\<close>

definition b_eth0 :: bytes where "b_eth0 = as_bytes ''eth0''"
definition b_eth1 :: bytes where "b_eth1 = as_bytes ''eth1''"
definition b_10_0_0_1 :: bytes where "b_10_0_0_1 = as_bytes ''10.0.0.1''"
definition b_relay1 :: bytes where "b_relay1 = as_bytes ''relay1''"
definition b_wrong_id :: bytes where "b_wrong_id = as_bytes ''wrong-id''"

lemma b_eth_differ: "b_eth1 \<noteq> b_eth0" "b_wrong_id \<noteq> b_eth0"
  by (simp_all add: b_eth0_def b_eth1_def b_wrong_id_def as_bytes_def)

section \<open>Virtual subnet selection\<close>

definition test_vss_cfg :: "byte \<Rightarrow> bytes \<Rightarrow> vss_config" where
  "test_vss_cfg t info = \<lparr> vss_enabled = True, vss_type = t, vss_info = info, vpn_name = None \<rparr>"

definition is_ok :: "'a relay_result \<Rightarrow> bool" where
  "is_ok r \<longleftrightarrow> (\<exists>x. r = Inr x)"

lemma is_ok_simps [simp, code]: "is_ok (Inr x)" "\<not> is_ok (Inl e)"
  by (simp_all add: is_ok_def)

definition b_vpn_abc :: bytes where "b_vpn_abc = as_bytes ''vpn-abc''"
definition b_vpn_sales :: bytes where "b_vpn_sales = as_bytes ''vpn-sales''"

definition test_encode_type0_nvt_ascii :: bool where
  "test_encode_type0_nvt_ascii \<longleftrightarrow>
     (case encode_sub_opts (test_vss_cfg VSS_TYPE_NVT_ASCII b_vpn_abc) of
        Inl _ \<Rightarrow> False
      | Inr (vss_opt, ctrl_opt) \<Rightarrow>
          idx vss_opt 0 = Some VSS_SUBOPT_CODE \<and> idx vss_opt 1 = Some 8 \<and>
          idx vss_opt 2 = Some VSS_TYPE_NVT_ASCII \<and> slice_from vss_opt 3 = Some b_vpn_abc \<and>
          ctrl_opt = [VSS_CONTROL_SUBOPT_CODE, 0])"

definition test_encode_type1_vpn_id_valid :: bool where
  "test_encode_type1_vpn_id_valid \<longleftrightarrow>
     is_ok (encode_sub_opts (test_vss_cfg VSS_TYPE_RFC2685_VPN_ID [0, 0, 0, 0, 0, 0, 1]))"

definition test_encode_type1_vpn_id_invalid_length :: bool where
  "test_encode_type1_vpn_id_invalid_length \<longleftrightarrow>
     \<not> is_ok (encode_sub_opts (test_vss_cfg VSS_TYPE_RFC2685_VPN_ID [0, 1]))"

definition test_encode_type255_global_valid :: bool where
  "test_encode_type255_global_valid \<longleftrightarrow> is_ok (encode_sub_opts (test_vss_cfg VSS_TYPE_GLOBAL []))"

definition test_encode_type255_global_nonempty_is_error :: bool where
  "test_encode_type255_global_nonempty_is_error \<longleftrightarrow>
     \<not> is_ok (encode_sub_opts (test_vss_cfg VSS_TYPE_GLOBAL [1]))"

definition test_server_support_true_when_no_vss_control :: bool where
  "test_server_support_true_when_no_vss_control \<longleftrightarrow>
     check_server_support [VSS_SUBOPT_CODE, 3, 0, 97, 98] = Some True"

definition test_server_support_false_when_vss_control_present :: bool where
  "test_server_support_false_when_vss_control_present \<longleftrightarrow>
     check_server_support [VSS_CONTROL_SUBOPT_CODE, 0, VSS_SUBOPT_CODE, 1, 0] = Some False"

definition test_server_support_empty_sub_opts :: bool where
  "test_server_support_empty_sub_opts \<longleftrightarrow> check_server_support [] = Some True"

text \<open>\<open>tests/dhcpv4_vss.rs\<close>: the server keeps the VSS sub-option, or also the VSS-Control one.\<close>

definition sales_cfg :: vss_config where
  "sales_cfg =
     \<lparr> vss_enabled = True, vss_type = 0, vss_info = b_vpn_sales, vpn_name = Some ''sales'' \<rparr>"

definition test_server_supports_vss_detected :: bool where
  "test_server_supports_vss_detected \<longleftrightarrow>
     (case encode_sub_opts sales_cfg of
        Inl _ \<Rightarrow> False
      | Inr (vss_opt, _) \<Rightarrow> check_server_support (vss_opt @ []) = Some True)"

definition test_server_does_not_support_vss_detected :: bool where
  "test_server_does_not_support_vss_detected \<longleftrightarrow>
     (case encode_sub_opts sales_cfg of
        Inl _ \<Rightarrow> False
      | Inr (vss_opt, ctrl_opt) \<Rightarrow> check_server_support (vss_opt @ ctrl_opt) = Some False)"

definition test_all_vss_types_encode :: bool where
  "test_all_vss_types_encode \<longleftrightarrow>
     is_ok (encode_sub_opts (test_vss_cfg 0 b_vpn_abc)) \<and>
     is_ok (encode_sub_opts (test_vss_cfg 1 [0, 0, 0, 0, 0, 0, 1])) \<and>
     is_ok (encode_sub_opts (test_vss_cfg 255 []))"

lemmas vss_consts =
  VSS_TYPE_NVT_ASCII_def VSS_TYPE_RFC2685_VPN_ID_def VSS_TYPE_GLOBAL_def VSS_SUBOPT_CODE_def
  VSS_CONTROL_SUBOPT_CODE_def

lemma is_ok_encode: "is_ok (encode_sub_opts v) \<longleftrightarrow> vss_ok v"
  by (cases "validate_vss v") (auto simp: encode_sub_opts_def validate_vss_iff [symmetric])

lemma vss_encode_tests_pass:
  "test_encode_type0_nvt_ascii" "test_encode_type1_vpn_id_valid"
  "test_encode_type1_vpn_id_invalid_length" "test_encode_type255_global_valid"
  "test_encode_type255_global_nonempty_is_error" "test_all_vss_types_encode"
proof -
  show "test_encode_type0_nvt_ascii"
    by (simp add: test_encode_type0_nvt_ascii_def encode_sub_opts_def test_vss_cfg_def
        validate_vss_def vss_consts b_vpn_abc_def idx_def slice_from_in)
qed (simp_all add: test_encode_type1_vpn_id_valid_def test_encode_type1_vpn_id_invalid_length_def
    test_encode_type255_global_valid_def test_encode_type255_global_nonempty_is_error_def
    test_all_vss_types_encode_def is_ok_encode vss_ok_def test_vss_cfg_def vss_consts b_vpn_abc_def)

lemma vss_support_tests_pass:
  "test_server_support_true_when_no_vss_control"
  "test_server_support_false_when_vss_control_present" "test_server_support_empty_sub_opts"
  by (simp_all add: test_server_support_true_when_no_vss_control_def
      test_server_support_false_when_vss_control_present_def test_server_support_empty_sub_opts_def
      check_server_support_def check_from.simps vss_consts idx_def)

lemma vss_echo_tests_pass:
  "test_server_supports_vss_detected" "test_server_does_not_support_vss_detected"
proof -
  have "vss_ok sales_cfg" "length (vss_info sales_cfg) < 255"
    by (simp_all add: sales_cfg_def vss_ok_def vss_consts b_vpn_sales_def)
  from vss_echo_detected [OF this] obtain d c where "encode_sub_opts sales_cfg = Inr (d, c)"
    "check_server_support (d @ c) = Some False" "check_server_support d = Some True" by blast
  then show "test_server_supports_vss_detected" "test_server_does_not_support_vss_detected"
    by (simp_all add: test_server_supports_vss_detected_def
        test_server_does_not_support_vss_detected_def)
qed

section \<open>Relay address\<close>

definition test_local_addrs :: "ipv4addr list" where
  "test_local_addrs = [Ipv4Addr 10 0 0 1, Ipv4Addr 192 168 1 1]"

definition giaddr_make_msg :: "('m, 'i, 'f) v4_api \<Rightarrow> ('m, 'i, 'f) v4_build \<Rightarrow> ipv4addr \<Rightarrow> 'm" where
  "giaddr_make_msg A D giaddr = bd_set_type D (v4_set_giaddr A (bd_default D) giaddr) Discover"

definition test_first_relay_when_giaddr_zero_no_opt82 ::
    "('m, 'i, 'f) v4_api \<Rightarrow> ('m, 'i, 'f) v4_build \<Rightarrow> bool" where
  "test_first_relay_when_giaddr_zero_no_opt82 A D \<longleftrightarrow>
     giaddr_validate A (giaddr_make_msg A D IPV4_UNSPECIFIED) test_local_addrs False = FirstRelay"

definition test_trusted_circuit_when_giaddr_zero_with_opt82_trusted ::
    "('m, 'i, 'f) v4_api \<Rightarrow> ('m, 'i, 'f) v4_build \<Rightarrow> bool" where
  "test_trusted_circuit_when_giaddr_zero_with_opt82_trusted A D \<longleftrightarrow>
     (let msg = v4_insert A (giaddr_make_msg A D IPV4_UNSPECIFIED)
                  (RelayAgentInformation (relay_default A)) in
      giaddr_validate A msg test_local_addrs True = TrustedCircuit)"

definition test_untrusted_circuit_when_giaddr_zero_with_opt82_untrusted ::
    "('m, 'i, 'f) v4_api \<Rightarrow> ('m, 'i, 'f) v4_build \<Rightarrow> bool" where
  "test_untrusted_circuit_when_giaddr_zero_with_opt82_untrusted A D \<longleftrightarrow>
     (let msg = v4_insert A (giaddr_make_msg A D IPV4_UNSPECIFIED)
                  (RelayAgentInformation (relay_default A)) in
      giaddr_validate A msg test_local_addrs False = UntrustedCircuit)"

definition test_spoof_when_giaddr_matches_local ::
    "('m, 'i, 'f) v4_api \<Rightarrow> ('m, 'i, 'f) v4_build \<Rightarrow> bool" where
  "test_spoof_when_giaddr_matches_local A D \<longleftrightarrow>
     giaddr_validate A (giaddr_make_msg A D (Ipv4Addr 10 0 0 1)) test_local_addrs False = Spoof"

definition test_reforwarded_when_giaddr_nonzero_not_local ::
    "('m, 'i, 'f) v4_api \<Rightarrow> ('m, 'i, 'f) v4_build \<Rightarrow> bool" where
  "test_reforwarded_when_giaddr_nonzero_not_local A D \<longleftrightarrow>
     giaddr_validate A (giaddr_make_msg A D (Ipv4Addr 172 16 0 1)) test_local_addrs False =
       Reforwarded"

definition test_check_packet_size_within_limit :: "bool \<Rightarrow> bool" where
  "test_check_packet_size_within_limit checks \<longleftrightarrow> check_packet_size checks 300 50 1500 = Some True"

definition test_check_packet_size_exceeds_limit :: "bool \<Rightarrow> bool" where
  "test_check_packet_size_exceeds_limit checks \<longleftrightarrow>
     check_packet_size checks 1480 50 1500 = Some False"

definition test_set_giaddr_updates_field ::
    "('m, 'i, 'f) v4_api \<Rightarrow> ('m, 'i, 'f) v4_build \<Rightarrow> bool" where
  "test_set_giaddr_updates_field A D \<longleftrightarrow>
     v4_giaddr A (set_giaddr A (giaddr_make_msg A D IPV4_UNSPECIFIED) (Ipv4Addr 10 0 0 1)) =
       Ipv4Addr 10 0 0 1"

lemma giaddr_make_msg_view:
  assumes "dhcproto_v4_ok A" "build_ok A D"
  shows "v4_view A (giaddr_make_msg A D ip) =
    \<lparr> vw_giaddr = ip, vw_ciaddr = IPV4_UNSPECIFIED, vw_type = Some Discover, vw_opt82 = None \<rparr>"
  by (simp add: giaddr_make_msg_def build_views [OF assms(2)] view_set_giaddr [OF assms(1)])

text \<open>The decision depends on the view only.\<close>

lemma giaddr_validate_view:
  assumes "dhcproto_v4_ok A" "v4_view A m = v"
  shows "giaddr_validate A m ls t =
    (if vw_giaddr v = IPV4_UNSPECIFIED then
       (if vw_opt82 v = None then FirstRelay else if t then TrustedCircuit else UntrustedCircuit)
     else if vw_giaddr v \<in> set ls then Spoof else Reforwarded)"
  using assms by (auto simp: giaddr_validate_def contains_iff_opt82 Let_def)

lemma giaddr_tests_pass:
  assumes "dhcproto_v4_ok A" "build_ok A D"
  shows "test_first_relay_when_giaddr_zero_no_opt82 A D"
    "test_trusted_circuit_when_giaddr_zero_with_opt82_trusted A D"
    "test_untrusted_circuit_when_giaddr_zero_with_opt82_untrusted A D"
    "test_spoof_when_giaddr_matches_local A D"
    "test_reforwarded_when_giaddr_nonzero_not_local A D"
    "test_set_giaddr_updates_field A D"
proof -
  note view = giaddr_make_msg_view [OF assms]
  note decide = giaddr_validate_view [OF assms(1) view] giaddr_validate_view [OF assms(1)
      trans [OF view_insert [OF assms(1)] arg_cong [OF view, of "\<lambda>v. v\<lparr>vw_opt82 := x\<rparr>" for x]]]
  show "test_first_relay_when_giaddr_zero_no_opt82 A D"
    "test_trusted_circuit_when_giaddr_zero_with_opt82_trusted A D"
    "test_untrusted_circuit_when_giaddr_zero_with_opt82_untrusted A D"
    "test_spoof_when_giaddr_matches_local A D"
    "test_reforwarded_when_giaddr_nonzero_not_local A D"
    by (simp_all add: test_first_relay_when_giaddr_zero_no_opt82_def
        test_trusted_circuit_when_giaddr_zero_with_opt82_trusted_def
        test_untrusted_circuit_when_giaddr_zero_with_opt82_untrusted_def
        test_spoof_when_giaddr_matches_local_def
        test_reforwarded_when_giaddr_nonzero_not_local_def
        decide test_local_addrs_def IPV4_UNSPECIFIED_def Let_def)
  show "test_set_giaddr_updates_field A D"
    using view_eqD(1) [OF view_set_giaddr [OF assms(1)]]
    by (simp add: test_set_giaddr_updates_field_def set_giaddr_def)
qed

lemma packet_size_tests_pass:
  "test_check_packet_size_within_limit checks" "test_check_packet_size_exceeds_limit checks"
  by (simp_all add: test_check_packet_size_within_limit_def test_check_packet_size_exceeds_limit_def
      packet_size_check)

section \<open>Option 82\<close>

definition make_discover :: "('m, 'i, 'f) v4_build \<Rightarrow> 'm" where
  "make_discover D = bd_set_type D (bd_default D) Discover"

text \<open>\<open>insert(..).unwrap()\<close> followed by assertions on the message.\<close>

definition inserted ::
    "('m, 'i, 'f) v4_api \<Rightarrow> 'm \<Rightarrow> bytes option \<Rightarrow> bytes option \<Rightarrow> ('m \<Rightarrow> bool) \<Rightarrow> bool" where
  "inserted A msg circuit remote check =
     (case option82_insert A msg circuit remote of Inl _ \<Rightarrow> False | Inr msg' \<Rightarrow> check msg')"

definition with_info :: "('m, 'i, 'f) v4_api \<Rightarrow> 'm \<Rightarrow> ('i \<Rightarrow> bool) \<Rightarrow> bool" where
  "with_info A msg check =
     (case v4_get A msg RelayAgentInformationCode of
        Some (RelayAgentInformation info) \<Rightarrow> check info | _ \<Rightarrow> False)"

definition encoded :: "('m, 'i, 'f) v4_api \<Rightarrow> 'm \<Rightarrow> (bytes \<Rightarrow> bool) \<Rightarrow> bool" where
  "encoded A msg check = (case v4_encode A msg of Inl _ \<Rightarrow> False | Inr buf \<Rightarrow> check buf)"

definition decoded :: "('m, 'i, 'f) v4_api \<Rightarrow> bytes \<Rightarrow> ('m \<Rightarrow> bool) \<Rightarrow> bool" where
  "decoded A buf check = (case v4_decode A buf of Inl _ \<Rightarrow> False | Inr msg \<Rightarrow> check msg)"

definition test_insert_option82_with_both_sub_options ::
    "('m, 'i, 'f) v4_api \<Rightarrow> ('m, 'i, 'f) v4_build \<Rightarrow> bool" where
  "test_insert_option82_with_both_sub_options A D \<longleftrightarrow>
     inserted A (make_discover D) (Some b_eth0) (Some b_10_0_0_1) (\<lambda>msg.
       with_info A msg (\<lambda>info. bd_relay_get D info AgentCircuitIdCode \<noteq> None \<and>
         bd_relay_get D info AgentRemoteIdCode \<noteq> None))"

definition test_insert_option82_with_circuit_id_only ::
    "('m, 'i, 'f) v4_api \<Rightarrow> ('m, 'i, 'f) v4_build \<Rightarrow> bool" where
  "test_insert_option82_with_circuit_id_only A D \<longleftrightarrow>
     inserted A (make_discover D) (Some b_eth0) None (\<lambda>msg.
       with_info A msg (\<lambda>info. bd_relay_get D info AgentCircuitIdCode \<noteq> None \<and>
         bd_relay_get D info AgentRemoteIdCode = None))"

definition test_insert_option82_with_remote_id_only ::
    "('m, 'i, 'f) v4_api \<Rightarrow> ('m, 'i, 'f) v4_build \<Rightarrow> bool" where
  "test_insert_option82_with_remote_id_only A D \<longleftrightarrow>
     inserted A (make_discover D) None (Some b_10_0_0_1) (\<lambda>msg.
       with_info A msg (\<lambda>info. bd_relay_get D info AgentCircuitIdCode = None \<and>
         bd_relay_get D info AgentRemoteIdCode \<noteq> None))"

definition test_insert_option82_no_sub_options_is_error ::
    "('m, 'i, 'f) v4_api \<Rightarrow> ('m, 'i, 'f) v4_build \<Rightarrow> bool" where
  "test_insert_option82_no_sub_options_is_error A D \<longleftrightarrow>
     \<not> is_ok (option82_insert A (make_discover D) None None)"

definition test_insert_option82_already_present_is_error ::
    "('m, 'i, 'f) v4_api \<Rightarrow> ('m, 'i, 'f) v4_build \<Rightarrow> bool" where
  "test_insert_option82_already_present_is_error A D \<longleftrightarrow>
     inserted A (make_discover D) (Some b_eth0) None (\<lambda>msg.
       \<not> is_ok (option82_insert A msg (Some b_eth1) None))"

text \<open>The assertions on both stripped sub-options, and that Option 82 is gone.\<close>

definition strips_both :: "('m, 'i, 'f) v4_api \<Rightarrow> 'm \<Rightarrow> bool" where
  "strips_both A msg =
     (case option82_strip A msg of
        (_, None) \<Rightarrow> False
      | (msg', Some sub_opts) \<Rightarrow>
          sub_opts = [\<lparr> so_code = 1, so_data = b_eth0 \<rparr>, \<lparr> so_code = 2, so_data = b_10_0_0_1 \<rparr>] \<and>
          \<not> v4_contains A msg' RelayAgentInformationCode)"

definition test_strip_option82_returns_sub_options ::
    "('m, 'i, 'f) v4_api \<Rightarrow> ('m, 'i, 'f) v4_build \<Rightarrow> bool" where
  "test_strip_option82_returns_sub_options A D \<longleftrightarrow>
     inserted A (make_discover D) (Some b_eth0) (Some b_10_0_0_1) (strips_both A)"

definition test_strip_no_option82_returns_none ::
    "('m, 'i, 'f) v4_api \<Rightarrow> ('m, 'i, 'f) v4_build \<Rightarrow> bool" where
  "test_strip_no_option82_returns_none A D \<longleftrightarrow>
     snd (option82_strip A (make_discover D)) = None"

definition test_strip_zero_length_sub_option ::
    "('m, 'i, 'f) v4_api \<Rightarrow> ('m, 'i, 'f) v4_build \<Rightarrow> bool" where
  "test_strip_zero_length_sub_option A D \<longleftrightarrow>
     (let agent_info = relay_insert A (relay_default A) (AgentCircuitId []);
          msg = v4_insert A (make_discover D) (RelayAgentInformation agent_info) in
      snd (option82_strip A msg) = Some [\<lparr> so_code = 1, so_data = [] \<rparr>])"

definition test_validate_echo_exact_match :: bool where
  "test_validate_echo_exact_match \<longleftrightarrow>
     (let sent = [sub_option_new 1 b_eth0, sub_option_new 2 b_10_0_0_1];
          received = [sub_option_new 1 b_eth0, sub_option_new 2 b_10_0_0_1] in
      validate_echo received sent)"

definition test_validate_echo_mismatch_data :: bool where
  "test_validate_echo_mismatch_data \<longleftrightarrow>
     \<not> validate_echo [sub_option_new 1 b_eth1] [sub_option_new 1 b_eth0]"

definition test_validate_echo_mismatch_length :: bool where
  "test_validate_echo_mismatch_length \<longleftrightarrow>
     (let sent = [sub_option_new 1 b_eth0, sub_option_new 2 b_10_0_0_1];
          received = [sub_option_new 1 b_eth0] in
      \<not> validate_echo received sent)"

definition test_validate_echo_empty_both :: bool where
  "test_validate_echo_empty_both \<longleftrightarrow> validate_echo [] []"

definition test_option82_round_trip ::
    "('m, 'i, 'f) v4_api \<Rightarrow> ('m, 'i, 'f) v4_build \<Rightarrow> bool" where
  "test_option82_round_trip A D \<longleftrightarrow>
     inserted A (make_discover D) (Some b_eth0) (Some b_10_0_0_1) (\<lambda>msg.
       encoded A msg (\<lambda>buf. decoded A buf (\<lambda>dec. with_info A dec (\<lambda>info.
         (case bd_relay_get D info AgentCircuitIdCode of
            Some (AgentCircuitId d) \<Rightarrow> d = b_eth0 | _ \<Rightarrow> False) \<and>
         (case bd_relay_get D info AgentRemoteIdCode of
            Some (AgentRemoteId d) \<Rightarrow> d = b_10_0_0_1 | _ \<Rightarrow> False)))))"

text \<open>\<open>tests/dhcpv4_option82.rs\<close>.\<close>

definition test_discover_relay_offer_full_round_trip ::
    "('m, 'i, 'f) v4_api \<Rightarrow> ('m, 'i, 'f) v4_build \<Rightarrow> bool" where
  "test_discover_relay_offer_full_round_trip A D \<longleftrightarrow>
     inserted A (make_discover D) (Some b_eth0) (Some b_10_0_0_1) (\<lambda>discover.
       encoded A discover (\<lambda>wire. decoded A wire (\<lambda>server_msg. with_info A server_msg (\<lambda>info.
         let offer = v4_insert A (bd_set_type D (bd_set_reply D (bd_default D)) v4_offer)
                       (RelayAgentInformation info) in
         encoded A offer (\<lambda>offer_wire. decoded A offer_wire (strips_both A))))))"

definition test_echo_mismatch_is_detected ::
    "('m, 'i, 'f) v4_api \<Rightarrow> ('m, 'i, 'f) v4_build \<Rightarrow> bool" where
  "test_echo_mismatch_is_detected A D \<longleftrightarrow>
     inserted A (make_discover D) (Some b_eth0) None (\<lambda>_.
       \<not> validate_echo [sub_option_new 1 b_eth1] [sub_option_new 1 b_eth0])"

definition test_reforwarded_packet_not_modified ::
    "('m, 'i, 'f) v4_api \<Rightarrow> ('m, 'i, 'f) v4_build \<Rightarrow> bool" where
  "test_reforwarded_packet_not_modified A D \<longleftrightarrow>
     inserted A (v4_set_giaddr A (bd_default D) (Ipv4Addr 172 16 0 1)) (Some b_eth0) None (\<lambda>msg.
       \<not> is_ok (option82_insert A msg (Some b_eth1) None))"

subsection \<open>Proofs\<close>

lemma make_discover_view:
  "build_ok A D \<Longrightarrow> v4_view A (make_discover D) =
    \<lparr> vw_giaddr = IPV4_UNSPECIFIED, vw_ciaddr = IPV4_UNSPECIFIED, vw_type = Some Discover,
      vw_opt82 = None \<rparr>"
  by (simp add: make_discover_def build_views)

text \<open>What the helpers of the tests come down to on the view.\<close>

lemma inserted_intro:
  assumes "dhcproto_v4_ok A" "opt82_of A msg = None" "circuit \<noteq> None \<or> remote \<noteq> None"
    and "\<And>msg'. v4_view A msg' = (v4_view A msg)\<lparr>vw_opt82 := Some (relay_sub_options circuit remote)\<rparr>
           \<Longrightarrow> check msg'"
  shows "inserted A msg circuit remote check"
  using assms option82_insert_Inl [OF assms(1), of msg circuit remote]
    option82_insert_Inr(1) [OF assms(1), of msg circuit remote]
  by (cases "option82_insert A msg circuit remote") (auto simp: inserted_def)

lemma with_info_intro:
  assumes "dhcproto_v4_ok A" "opt82_of A msg = Some so"
    and "\<And>info. mset (relay_iter A info) = so \<Longrightarrow> check info"
  shows "with_info A msg check"
  using assms by (cases rule: opt82_cases [of A msg]) (auto simp: with_info_def)

lemma inserted_info:
  assumes "dhcproto_v4_ok A" "opt82_of A msg = None" "circuit \<noteq> None \<or> remote \<noteq> None"
    and "\<And>info. mset (relay_iter A info) = relay_sub_options circuit remote \<Longrightarrow> check info"
  shows "inserted A msg circuit remote (\<lambda>msg'. with_info A msg' check)"
proof (rule inserted_intro [OF assms(1-3)])
  fix msg'
  assume "v4_view A msg' = (v4_view A msg)\<lparr>vw_opt82 := Some (relay_sub_options circuit remote)\<rparr>"
  from view_eqD(4) [OF this] have "opt82_of A msg' = Some (relay_sub_options circuit remote)" by simp
  from assms(1) this assms(4) show "with_info A msg' check" by (rule with_info_intro)
qed

lemma encoded_decoded:
  assumes "dhcproto_v4_ok A" "v4_encode_total A" "canonical_view (v4_view A msg)"
    and "\<And>msg'. v4_view A msg' = v4_view A msg \<Longrightarrow> check msg'"
  shows "encoded A msg (\<lambda>buf. decoded A buf check)"
proof -
  obtain buf where e: "v4_encode A msg = Inr buf" using assms(2) by (auto simp: v4_encode_total_def)
  from encode_decode [OF assms(1,3) e] obtain msg' where
    "v4_decode A buf = Inr msg'" "v4_view A msg' = v4_view A msg" .
  with e assms(4) show ?thesis by (simp add: encoded_def decoded_def)
qed

lemma relay_get_options:
  assumes "build_ok A D" "mset (relay_iter A info) = relay_sub_options circuit remote"
  shows "bd_relay_get D info AgentCircuitIdCode = map_option AgentCircuitId circuit"
    and "bd_relay_get D info AgentRemoteIdCode = map_option AgentRemoteId remote"
proof -
  define so :: "(relay_code \<times> 'c relay_info) list" where
    "so = (case circuit of None \<Rightarrow> [] | Some d \<Rightarrow> [(AgentCircuitIdCode, AgentCircuitId d)]) @
      (case remote of None \<Rightarrow> [] | Some d \<Rightarrow> [(AgentRemoteIdCode, AgentRemoteId d)])"
  have m: "mset (relay_iter A info) = mset so"
    unfolding assms(2) by (auto simp: so_def relay_sub_options_def split: option.splits)
  have d: "distinct (map fst so)" by (auto simp: so_def split: option.splits)
  have "mset (map fst (relay_iter A info)) = mset (map fst so)" using m by simp
  then have "distinct (map fst (relay_iter A info))" using d by (metis mset_eq_imp_distinct_iff)
  then have "map_of (relay_iter A info) = map_of so"
    using d mset_eq_setD [OF m] by (simp add: map_of_inject_set)
  then show "bd_relay_get D info AgentCircuitIdCode = map_option AgentCircuitId circuit"
    "bd_relay_get D info AgentRemoteIdCode = map_option AgentRemoteId remote"
    using assms(1) by (auto simp: build_ok_def so_def split: option.splits)
qed

lemma strips_both_intro:
  assumes "dhcproto_v4_ok A" "circuit_first A"
    and "opt82_of A msg = Some (relay_sub_options (Some b_eth0) (Some b_10_0_0_1))"
  shows "strips_both A msg"
  using assms(1)
proof (cases rule: opt82_cases [of A msg])
  case (present i)
  then have "relay_iter A i =
      [(AgentCircuitIdCode, AgentCircuitId b_eth0), (AgentRemoteIdCode, AgentRemoteId b_10_0_0_1)]"
    using assms(2,3) by (simp add: circuit_first_def)
  then have "snd (option82_strip A msg) =
      Some [sub_option_new 1 b_eth0, sub_option_new 2 b_10_0_0_1]"
    by (simp add: option82_strip_def case_prod_beta' remove_result [OF assms(1)] present
        sub_opts_of_def)
  moreover have "\<not> v4_contains A (fst (option82_strip A msg)) RelayAgentInformationCode"
    using view_eqD(4) [OF option82_strip_view [OF assms(1)]]
    by (simp add: contains_iff_opt82 [OF assms(1)])
  ultimately show ?thesis
    by (cases "option82_strip A msg") (simp add: strips_both_def sub_option_new_def)
qed (use assms in simp)

lemma option82_insert_tests_pass:
  assumes "dhcproto_v4_ok A" "build_ok A D"
  shows "test_insert_option82_with_both_sub_options A D"
    "test_insert_option82_with_circuit_id_only A D"
    "test_insert_option82_with_remote_id_only A D"
    "test_insert_option82_no_sub_options_is_error A D"
    "test_insert_option82_already_present_is_error A D"
    "test_reforwarded_packet_not_modified A D"
proof -
  have none: "opt82_of A (make_discover D) = None"
    using view_eqD(4) [OF make_discover_view [OF assms(2)]] by simp
  note info = inserted_info [OF assms(1) none] and get = relay_get_options [OF assms(2)]
  show "test_insert_option82_with_both_sub_options A D"
    unfolding test_insert_option82_with_both_sub_options_def by (rule info) (simp_all add: get)
  show "test_insert_option82_with_circuit_id_only A D"
    unfolding test_insert_option82_with_circuit_id_only_def by (rule info) (simp_all add: get)
  show "test_insert_option82_with_remote_id_only A D"
    unfolding test_insert_option82_with_remote_id_only_def by (rule info) (simp_all add: get)
  show "test_insert_option82_no_sub_options_is_error A D"
    by (simp add: test_insert_option82_no_sub_options_is_error_def option82_insert_def)
  have again: "inserted A msg (Some b_eth0) None (\<lambda>msg'. \<not> is_ok (option82_insert A msg' (Some b_eth1) None))"
    if "opt82_of A msg = None" for msg
  proof (rule inserted_intro [OF assms(1) that])
    fix msg'
    assume "v4_view A msg' = (v4_view A msg)\<lparr>vw_opt82 := Some (relay_sub_options (Some b_eth0) None)\<rparr>"
    from view_eqD(4) [OF this] show "\<not> is_ok (option82_insert A msg' (Some b_eth1) None)"
      by (simp add: option82_insert_def contains_iff_opt82 [OF assms(1)])
  qed simp
  from again [OF none] show "test_insert_option82_already_present_is_error A D"
    by (simp add: test_insert_option82_already_present_is_error_def)
  have "opt82_of A (v4_set_giaddr A (bd_default D) ip) = None" for ip
    using view_eqD(4) [OF view_set_giaddr [OF assms(1)], of "bd_default D" ip]
      build_views(1) [OF assms(2)] by simp
  then show "test_reforwarded_packet_not_modified A D"
    by (simp add: test_reforwarded_packet_not_modified_def again)
qed

lemma option82_echo_tests_pass:
  "test_validate_echo_exact_match" "test_validate_echo_mismatch_data"
  "test_validate_echo_mismatch_length" "test_validate_echo_empty_both"
  by (simp_all add: test_validate_echo_exact_match_def test_validate_echo_mismatch_data_def
      test_validate_echo_mismatch_length_def test_validate_echo_empty_both_def validate_echo_iff
      sub_option_new_def b_eth_differ)

lemma option82_strip_tests_pass:
  assumes "dhcproto_v4_ok A" "build_ok A D"
  shows "test_strip_no_option82_returns_none A D" "test_strip_zero_length_sub_option A D"
proof -
  have none: "opt82_of A (make_discover D) = None"
    using view_eqD(4) [OF make_discover_view [OF assms(2)]] by simp
  then show "test_strip_no_option82_returns_none A D"
    using option82_strip_result [OF assms(1), of "make_discover D"]
    by (simp add: test_strip_no_option82_returns_none_def)
  define info where "info = relay_insert A (relay_default A) (AgentCircuitId [])"
  define msg where "msg = v4_insert A (make_discover D) (RelayAgentInformation info)"
  have "mset (relay_iter A info) = {# (AgentCircuitIdCode, AgentCircuitId []) #}"
    by (simp add: info_def dhcproto_v4_laws [OF assms(1)] sub_put_def)
  then have "opt82_of A msg = Some {# (AgentCircuitIdCode, AgentCircuitId []) #}"
    using view_eqD(4) [OF view_insert [OF assms(1)], of "make_discover D" info] by (simp add: msg_def)
  then have "map_option mset (snd (option82_strip A msg)) = Some {# sub_option_new 1 [] #}"
    by (simp add: option82_strip_result [OF assms(1)])
  then show "test_strip_zero_length_sub_option A D"
    by (auto simp: test_strip_zero_length_sub_option_def sub_option_new_def Let_def
        simp flip: info_def msg_def)
qed

text \<open>A round trip through the wire keeps what was inserted.\<close>

lemma inserted_wire:
  assumes "dhcproto_v4_ok A" "v4_encode_total A" "opt82_of A msg = None"
    and "circuit \<noteq> None \<or> remote \<noteq> None"
    and "\<And>msg'. opt82_of A msg' = Some (relay_sub_options circuit remote) \<Longrightarrow> check msg'"
  shows "inserted A msg circuit remote (\<lambda>msg'. encoded A msg' (\<lambda>buf. decoded A buf check))"
proof (rule inserted_intro [OF assms(1,3,4)])
  fix msg'
  assume v: "v4_view A msg' = (v4_view A msg)\<lparr>vw_opt82 := Some (relay_sub_options circuit remote)\<rparr>"
  have "canonical_view (v4_view A msg')"
    unfolding v by (simp add: relay_sub_options_canonical)
  with assms(1,2) show "encoded A msg' (\<lambda>buf. decoded A buf check)"
  proof (rule encoded_decoded)
    fix m assume "v4_view A m = v4_view A msg'"
    from view_eqD(4) [OF this] view_eqD(4) [OF v] show "check m" by (intro assms(5)) simp
  qed
qed

lemma option82_wire_tests_pass:
  assumes "dhcproto_v4_ok A" "build_ok A D" "v4_encode_total A"
  shows "test_option82_round_trip A D" "test_echo_mismatch_is_detected A D"
proof -
  have none: "opt82_of A (make_discover D) = None"
    using view_eqD(4) [OF make_discover_view [OF assms(2)]] by simp
  show "test_option82_round_trip A D"
    unfolding test_option82_round_trip_def
  proof (rule inserted_wire [OF assms(1,3) none])
    fix m assume "opt82_of A m = Some (relay_sub_options (Some b_eth0) (Some b_10_0_0_1))"
    from assms(1) this show "with_info A m (\<lambda>info.
        (case bd_relay_get D info AgentCircuitIdCode of Some (AgentCircuitId d) \<Rightarrow> d = b_eth0
         | _ \<Rightarrow> False) \<and>
        (case bd_relay_get D info AgentRemoteIdCode of Some (AgentRemoteId d) \<Rightarrow> d = b_10_0_0_1
         | _ \<Rightarrow> False))"
      by (rule with_info_intro) (simp add: relay_get_options [OF assms(2)])
  qed simp
  show "test_echo_mismatch_is_detected A D"
    unfolding test_echo_mismatch_is_detected_def
    by (rule inserted_intro [OF assms(1) none])
      (simp_all add: validate_echo_iff sub_option_new_def b_eth_differ)
qed

lemma option82_order_tests_pass:
  assumes "dhcproto_v4_ok A" "build_ok A D" "v4_encode_total A" "circuit_first A"
  shows "test_strip_option82_returns_sub_options A D"
    "test_discover_relay_offer_full_round_trip A D"
proof -
  have none: "opt82_of A (make_discover D) = None"
    using view_eqD(4) [OF make_discover_view [OF assms(2)]] by simp
  note both = strips_both_intro [OF assms(1,4)]
  show "test_strip_option82_returns_sub_options A D"
    unfolding test_strip_option82_returns_sub_options_def
  proof (rule inserted_intro [OF assms(1) none])
    fix msg'
    assume "v4_view A msg' = (v4_view A (make_discover D))
        \<lparr>vw_opt82 := Some (relay_sub_options (Some b_eth0) (Some b_10_0_0_1))\<rparr>"
    from view_eqD(4) [OF this] show "strips_both A msg'" by (intro both) simp
  qed simp
  show "test_discover_relay_offer_full_round_trip A D"
    unfolding test_discover_relay_offer_full_round_trip_def
  proof (rule inserted_wire [OF assms(1,3) none])
    fix m assume o: "opt82_of A m = Some (relay_sub_options (Some b_eth0) (Some b_10_0_0_1))"
    show "with_info A m (\<lambda>info.
        let offer = v4_insert A (bd_set_type D (bd_set_reply D (bd_default D)) v4_offer)
                      (RelayAgentInformation info) in
        encoded A offer (\<lambda>offer_wire. decoded A offer_wire (strips_both A)))"
      unfolding Let_def
    proof (rule with_info_intro [OF assms(1) o])
      fix info
      assume i: "mset (relay_iter A info) = relay_sub_options (Some b_eth0) (Some b_10_0_0_1)"
      let ?offer = "v4_insert A (bd_set_type D (bd_set_reply D (bd_default D)) v4_offer)
          (RelayAgentInformation info)"
      have can: "canonical_view (v4_view A ?offer)"
        by (simp add: view_insert [OF assms(1)] i relay_sub_options_canonical)
      have "opt82_of A ?offer = Some (relay_sub_options (Some b_eth0) (Some b_10_0_0_1))"
        using view_eqD(4) [OF view_insert [OF assms(1)]] by (simp add: i)
      then show "encoded A ?offer (\<lambda>offer_wire. decoded A offer_wire (strips_both A))"
        by (intro encoded_decoded [OF assms(1,3) can] both) (simp add: v4_view_def)
    qed
  qed simp
qed

section \<open>Pipelines\<close>

definition client_context :: pipeline_ctx where
  "client_context = ctx_new [] (socket_new (V4 (Ipv4Addr 192 168 1 100)) 68) ''eth0''"

definition test_relay_ip :: ipv4addr where "test_relay_ip = Ipv4Addr 10 0 0 1"

definition test_server :: socket_addr where
  "test_server = socket_new (V4 (Ipv4Addr 10 0 0 100)) 67"

text \<open>\<open>pipeline.execute(&mut ctx).unwrap()\<close> on the client context with a buffer, then assertions.\<close>

definition executed :: "pipeline \<Rightarrow> bytes \<Rightarrow> (bool \<Rightarrow> pipeline_ctx \<Rightarrow> bool) \<Rightarrow> bool" where
  "executed pl buf check =
     (case execute pl (client_context\<lparr>buffer := buf\<rparr>) of
        Some (Inr result, ctx) \<Rightarrow> check result ctx | _ \<Rightarrow> False)"

definition execute_fails :: "pipeline \<Rightarrow> bytes \<Rightarrow> bool" where
  "execute_fails pl buf =
     (case execute pl (client_context\<lparr>buffer := buf\<rparr>) of Some (Inl _, _) \<Rightarrow> True | _ \<Rightarrow> False)"

definition test_request_pipeline_first_relay ::
    "('m, 'i, 'f) v4_api \<Rightarrow> ('m, 'i, 'f) v4_build \<Rightarrow> bool" where
  "test_request_pipeline_first_relay A D \<longleftrightarrow>
     encoded A (make_discover D)
       (\<lambda>buf. executed (build_request_v4 A [test_relay_ip] (Some b_eth0) (Some b_relay1)
                         test_relay_ip test_server None True) buf
          (\<lambda>result ctx. result \<and>
             decoded A (buffer ctx) (\<lambda>msg. v4_giaddr A msg = test_relay_ip \<and>
               v4_contains A msg RelayAgentInformationCode) \<and>
             dst_addr ctx = Some test_server))"

definition test_request_pipeline_drops_spoofed_packet ::
    "('m, 'i, 'f) v4_api \<Rightarrow> ('m, 'i, 'f) v4_build \<Rightarrow> bool" where
  "test_request_pipeline_drops_spoofed_packet A D \<longleftrightarrow>
     encoded A (v4_set_giaddr A (bd_default D) test_relay_ip)
       (execute_fails (build_request_v4 A [test_relay_ip] (Some b_eth0) None
                         test_relay_ip test_server None True))"

definition test_request_pipeline_reforwarded ::
    "('m, 'i, 'f) v4_api \<Rightarrow> ('m, 'i, 'f) v4_build \<Rightarrow> bool" where
  "test_request_pipeline_reforwarded A D \<longleftrightarrow>
     encoded A (v4_set_giaddr A (bd_default D) (Ipv4Addr 172 16 0 1))
       (\<lambda>buf. executed (build_request_v4 A [test_relay_ip] (Some b_eth0) (Some b_relay1)
                         test_relay_ip test_server None True) buf
          (\<lambda>result ctx. result \<and>
             decoded A (buffer ctx) (\<lambda>msg. v4_giaddr A msg = Ipv4Addr 172 16 0 1 \<and>
               \<not> v4_contains A msg RelayAgentInformationCode)))"

definition offer_with_circuit ::
    "('m, 'i, 'f) v4_api \<Rightarrow> ('m, 'i, 'f) v4_build \<Rightarrow> bytes \<Rightarrow> 'm" where
  "offer_with_circuit A D d =
     v4_insert A (bd_set_type D (bd_set_reply D (bd_default D)) v4_offer)
       (RelayAgentInformation (relay_insert A (relay_default A) (AgentCircuitId d)))"

definition broadcast_client :: socket_addr where
  "broadcast_client = socket_new (V4 (Ipv4Addr 255 255 255 255)) 68"

definition test_reply_pipeline_strips_option82 ::
    "('m, 'i, 'f) v4_api \<Rightarrow> ('m, 'i, 'f) v4_build \<Rightarrow> bool" where
  "test_reply_pipeline_strips_option82 A D \<longleftrightarrow>
     encoded A (offer_with_circuit A D b_eth0)
       (\<lambda>buf. executed (build_reply_v4 A (Some [sub_option_new 1 b_eth0]) None True) buf
          (\<lambda>result ctx. result \<and>
             decoded A (buffer ctx) (\<lambda>msg. \<not> v4_contains A msg RelayAgentInformationCode) \<and>
             dst_addr ctx = Some broadcast_client))"

definition test_reply_pipeline_echo_mismatch_is_error ::
    "('m, 'i, 'f) v4_api \<Rightarrow> ('m, 'i, 'f) v4_build \<Rightarrow> bool" where
  "test_reply_pipeline_echo_mismatch_is_error A D \<longleftrightarrow>
     encoded A (offer_with_circuit A D b_wrong_id)
       (execute_fails (build_reply_v4 A (Some [sub_option_new 1 b_eth0]) None True))"

text \<open>The test of the VSS stage runs the reply pipeline without it.\<close>

definition test_vss_insert_adds_sub_options ::
    "('m, 'i, 'f) v4_api \<Rightarrow> ('m, 'i, 'f) v4_build \<Rightarrow> bool" where
  "test_vss_insert_adds_sub_options A D \<longleftrightarrow>
     encoded A (offer_with_circuit A D b_eth0)
       (\<lambda>buf. executed (build_reply_v4 A (Some [sub_option_new 1 b_eth0]) None True) buf
          (\<lambda>result ctx. result \<and>
             decoded A (buffer ctx) (\<lambda>msg. \<not> v4_contains A msg RelayAgentInformationCode)))"

text \<open>\<open>stage.process(&mut ctx).unwrap()\<close>.\<close>

definition processed ::
    "(pipeline_ctx \<Rightarrow> stage_run) \<Rightarrow> bytes \<Rightarrow> (bool \<Rightarrow> pipeline_ctx \<Rightarrow> bool) \<Rightarrow> bool" where
  "processed process buf check =
     (case process (client_context\<lparr>buffer := buf\<rparr>) of
        Some (Inr result, ctx) \<Rightarrow> check result ctx | _ \<Rightarrow> False)"

definition test_reply_addr_ciaddr_nonzero_unicast ::
    "('m, 'i, 'f) v4_api \<Rightarrow> ('m, 'i, 'f) v4_build \<Rightarrow> bool" where
  "test_reply_addr_ciaddr_nonzero_unicast A D \<longleftrightarrow>
     encoded A (bd_set_ciaddr D (bd_set_reply D (bd_default D)) (Ipv4Addr 192 168 1 100))
       (\<lambda>buf. processed (reply_addr_process A) buf (\<lambda>result ctx. result \<and>
          dst_addr ctx = Some (socket_new (V4 (Ipv4Addr 192 168 1 100)) 68)))"

definition test_reply_addr_ciaddr_zero_broadcast ::
    "('m, 'i, 'f) v4_api \<Rightarrow> ('m, 'i, 'f) v4_build \<Rightarrow> bool" where
  "test_reply_addr_ciaddr_zero_broadcast A D \<longleftrightarrow>
     encoded A (bd_set_reply D (bd_default D))
       (\<lambda>buf. processed (reply_addr_process A) buf (\<lambda>result ctx. result \<and>
          dst_addr ctx = Some broadcast_client))"

text \<open>The reply still carries the VSS-Control sub-option.\<close>

definition test_vss_check_detects_unsupported_server ::
    "('m, 'i, 'f) v4_api \<Rightarrow> ('m, 'i, 'f) v4_build \<Rightarrow> bool" where
  "test_vss_check_detects_unsupported_server A D \<longleftrightarrow>
     (let info = relay_insert A (relay_insert A (relay_default A) (AgentCircuitId b_eth0))
                   (UnknownRelayInfo VirtualSubnetControl []);
          msg = v4_insert A (bd_set_type D (bd_set_reply D (bd_default D)) v4_offer)
                  (RelayAgentInformation info) in
      encoded A msg
        (\<lambda>buf. processed
           (vss_check_process A (test_vss_cfg VSS_TYPE_NVT_ASCII (as_bytes ''vpn-x''))) buf
           (\<lambda>result _. result)))"

subsection \<open>Proofs\<close>

lemma encoded_intro:
  assumes "dhcproto_v4_ok A" "v4_encode_total A" "canonical_view (v4_view A msg)"
    and "\<And>buf msg'. v4_decode A buf = Inr msg' \<Longrightarrow> v4_view A msg' = v4_view A msg \<Longrightarrow> check buf"
  shows "encoded A msg check"
proof -
  obtain buf where e: "v4_encode A msg = Inr buf" using assms(2) by (auto simp: v4_encode_total_def)
  from encode_decode [OF assms(1,3) e] assms(4) have "check buf" by blast
  with e show ?thesis by (simp add: encoded_def)
qed

text \<open>The request pipeline on the context of the tests, by the specification.\<close>

lemma request_in_test:
  assumes ok: "dhcproto_v4_ok A" and tot: "v4_encode_total A" and dec: "v4_decode A buf = Inr m"
    and spec: "spec_run (spec_request_steps ls ci ri ip srv vss en82) (initial_abs (v4_view A m)) = (r, a)"
  obtains c' m' where
    "execute (build_request_v4 A ls ci ri ip srv vss en82) (client_context\<lparr>buffer := buf\<rparr>) = Some (r, c')"
    "dst_addr c' = ab_dst a" "v4_decode A (buffer c') = Inr m'" "v4_view A m' = ab_view a"
proof -
  have "carries A (client_context\<lparr>buffer := buf\<rparr>) (initial_abs (v4_view A m))"
    by (simp add: carries_def client_context_def initial_abs_def ctx_new_def dec)
  with request_refines [OF ok, of ls ci ri ip srv vss en82] tot spec obtain c' where
    "execute (build_request_v4 A ls ci ri ip srv vss en82) (client_context\<lparr>buffer := buf\<rparr>) = Some (r, c')"
    "carries A c' a"
    unfolding refines_def by fastforce
  moreover from this(2) obtain m' where "v4_decode A (buffer c') = Inr m'" "v4_view A m' = ab_view a"
    by (auto simp: carries_def)
  ultimately show thesis by (intro that) (simp_all add: carries_def)
qed

lemma giaddr_msg_view:
  assumes "dhcproto_v4_ok A" "build_ok A D"
  shows "v4_view A (v4_set_giaddr A (bd_default D) ip) =
      \<lparr> vw_giaddr = ip, vw_ciaddr = IPV4_UNSPECIFIED, vw_type = None, vw_opt82 = None \<rparr>"
  by (simp add: view_set_giaddr [OF assms(1)] build_views [OF assms(2)])

lemma first_relay_test_passes:
  assumes ok: "dhcproto_v4_ok A" and D: "build_ok A D" and tot: "v4_encode_total A"
  shows "test_request_pipeline_first_relay A D"
  unfolding test_request_pipeline_first_relay_def
proof (rule encoded_intro [OF ok tot])
  show "canonical_view (v4_view A (make_discover D))"
    by (simp add: make_discover_view [OF D] canonical_view_def)
  fix buf m assume dec: "v4_decode A buf = Inr m" and v: "v4_view A m = v4_view A (make_discover D)"
  let ?pl = "build_request_v4 A [test_relay_ip] (Some b_eth0) (Some b_relay1) test_relay_ip
    test_server None True"
  have "vw_giaddr (v4_view A m) = IPV4_UNSPECIFIED" "vw_opt82 (v4_view A m) = None"
    by (simp_all only: v make_discover_view [OF D]) simp_all
  then obtain a where run: "spec_run (spec_request_steps [test_relay_ip] (Some b_eth0)
      (Some b_relay1) test_relay_ip test_server None True) (initial_abs (v4_view A m)) = (Inr True, a)"
    and a: "ab_view a =
        first_relay_view (Some b_eth0) (Some b_relay1) test_relay_ip None True (v4_view A m)"
      "ab_dst a = Some test_server"
    by (rule spec_first_relay [where vss = None and ci = "Some b_eth0"
        and ri = "Some b_relay1" and ls = "[test_relay_ip]" and ip = test_relay_ip
        and srv = test_server]) (simp_all add: vss_valid_def)
  from request_in_test [OF ok tot dec run] obtain c' m' where c':
    "execute ?pl (client_context\<lparr>buffer := buf\<rparr>) = Some (Inr True, c')" "dst_addr c' = ab_dst a"
    "v4_decode A (buffer c') = Inr m'" "v4_view A m' = ab_view a" .
  have "v4_giaddr A m' = test_relay_ip" "v4_contains A m' RelayAgentInformationCode"
    by (simp_all add: view_eqD(1,4) [OF trans [OF c'(4) a(1)]] first_relay_view_def
        contains_iff_opt82 [OF ok])
  with c'(1-3) a(2) show "executed ?pl buf (\<lambda>result ctx. result \<and>
         decoded A (buffer ctx) (\<lambda>msg. v4_giaddr A msg = test_relay_ip \<and>
           v4_contains A msg RelayAgentInformationCode) \<and> dst_addr ctx = Some test_server)"
    by (simp add: executed_def decoded_def)
qed

lemma spoof_test_passes:
  assumes ok: "dhcproto_v4_ok A" and D: "build_ok A D" and tot: "v4_encode_total A"
  shows "test_request_pipeline_drops_spoofed_packet A D"
  unfolding test_request_pipeline_drops_spoofed_packet_def
proof (rule encoded_intro [OF ok tot])
  show "canonical_view (v4_view A (v4_set_giaddr A (bd_default D) test_relay_ip))"
    by (simp add: giaddr_msg_view [OF ok D] canonical_view_def)
  fix buf m assume dec: "v4_decode A buf = Inr m"
    and v: "v4_view A m = v4_view A (v4_set_giaddr A (bd_default D) test_relay_ip)"
  have g: "vw_giaddr (v4_view A m) = test_relay_ip"
    by (simp only: v giaddr_msg_view [OF ok D]) simp
  have "vw_giaddr (v4_view A m) \<noteq> IPV4_UNSPECIFIED" "vw_giaddr (v4_view A m) \<in> set [test_relay_ip]"
    unfolding g by (simp_all add: test_relay_ip_def IPV4_UNSPECIFIED_def)
  from request_in_test [OF ok tot dec spec_spoof [OF this]] obtain c' where
    "execute (build_request_v4 A [test_relay_ip] (Some b_eth0) None test_relay_ip test_server None True)
       (client_context\<lparr>buffer := buf\<rparr>) = Some (Inl (spoof_error (vw_giaddr (v4_view A m))), c')" by metis
  then show "execute_fails (build_request_v4 A [test_relay_ip] (Some b_eth0) None test_relay_ip
      test_server None True) buf"
    by (simp add: execute_fails_def)
qed

lemma reforwarded_test_passes:
  assumes ok: "dhcproto_v4_ok A" and D: "build_ok A D" and tot: "v4_encode_total A"
  shows "test_request_pipeline_reforwarded A D"
  unfolding test_request_pipeline_reforwarded_def
proof (rule encoded_intro [OF ok tot])
  show "canonical_view (v4_view A (v4_set_giaddr A (bd_default D) (Ipv4Addr 172 16 0 1)))"
    by (simp add: giaddr_msg_view [OF ok D] canonical_view_def)
  fix buf m assume dec: "v4_decode A buf = Inr m"
    and v: "v4_view A m = v4_view A (v4_set_giaddr A (bd_default D) (Ipv4Addr 172 16 0 1))"
  let ?pl = "build_request_v4 A [test_relay_ip] (Some b_eth0) (Some b_relay1) test_relay_ip
    test_server None True"
  have g: "vw_giaddr (v4_view A m) = Ipv4Addr 172 16 0 1" "vw_opt82 (v4_view A m) = None"
    by (simp_all only: v giaddr_msg_view [OF ok D]) simp_all
  have "vw_giaddr (v4_view A m) \<noteq> IPV4_UNSPECIFIED" "vw_giaddr (v4_view A m) \<notin> set [test_relay_ip]"
    unfolding g by (simp_all add: test_relay_ip_def IPV4_UNSPECIFIED_def)
  then obtain a where run: "spec_run (spec_request_steps [test_relay_ip] (Some b_eth0)
      (Some b_relay1) test_relay_ip test_server None True) (initial_abs (v4_view A m)) = (Inr True, a)"
    and a: "ab_view a = v4_view A m"
    by (rule spec_reforwarded [where vss = None and ci = "Some b_eth0"
        and ri = "Some b_relay1" and ls = "[test_relay_ip]" and ip = test_relay_ip
        and srv = test_server]) (simp_all add: vss_valid_def)
  from request_in_test [OF ok tot dec run] obtain c' m' where c':
    "execute ?pl (client_context\<lparr>buffer := buf\<rparr>) = Some (Inr True, c')"
    "v4_decode A (buffer c') = Inr m'" "v4_view A m' = ab_view a" .
  then have "v4_giaddr A m' = Ipv4Addr 172 16 0 1" "\<not> v4_contains A m' RelayAgentInformationCode"
    using view_eqD(1,4) [of A m' "ab_view a"] g by (simp_all add: a contains_iff_opt82 [OF ok])
  with c' show "executed ?pl buf (\<lambda>result ctx. result \<and>
         decoded A (buffer ctx) (\<lambda>msg. v4_giaddr A msg = Ipv4Addr 172 16 0 1 \<and>
           \<not> v4_contains A msg RelayAgentInformationCode))"
    by (simp add: executed_def decoded_def)
qed

lemma offer_view:
  assumes ok: "dhcproto_v4_ok A" and D: "build_ok A D"
  shows "v4_view A (offer_with_circuit A D d) =
    \<lparr> vw_giaddr = IPV4_UNSPECIFIED, vw_ciaddr = IPV4_UNSPECIFIED, vw_type = Some v4_offer,
      vw_opt82 = Some {# (AgentCircuitIdCode, AgentCircuitId d) #} \<rparr>"
  by (simp add: offer_with_circuit_def view_insert [OF ok] build_views [OF D]
      dhcproto_v4_laws [OF ok] sub_put_def)

text \<open>The echo check on a reply whose Option 82 holds one circuit identifier.\<close>

lemma check_echo_circuit:
  assumes ok: "dhcproto_v4_ok A"
    and o: "opt82_of A m = Some {# (AgentCircuitIdCode, AgentCircuitId d) #}"
  shows "check_echo_and_strip A (Some [sub_option_new 1 e]) m =
    (if d = e then Inr (fst (option82_strip A m)) else Inl Option82Mismatch)"
  using ok
proof (cases rule: opt82_cases [of A m])
  case (present i)
  with o have "relay_iter A i = [(AgentCircuitIdCode, AgentCircuitId d)]" by simp
  then show ?thesis
    using present by (simp add: check_echo_present sub_opts_of_def sub_option_new_def)
qed (use o in simp)

lemma reply_in_test:
  assumes ok: "dhcproto_v4_ok A" and D: "build_ok A D" and tot: "v4_encode_total A"
    and dec: "v4_decode A buf = Inr m" and v: "v4_view A m = v4_view A (offer_with_circuit A D d)"
  obtains r c' where
    "execute (build_reply_v4 A (Some [sub_option_new 1 e]) None True) (client_context\<lparr>buffer := buf\<rparr>) =
       Some (r, c')"
    "d \<noteq> e \<Longrightarrow> r = Inl Option82Mismatch"
    "d = e \<Longrightarrow> r = Inr True \<and> dst_addr c' = Some broadcast_client \<and>
       (\<exists>m'. v4_decode A (buffer c') = Inr m' \<and> \<not> v4_contains A m' RelayAgentInformationCode)"
proof -
  let ?run = "execute (build_reply_v4 A (Some [sub_option_new 1 e]) None True)
    (client_context\<lparr>buffer := buf\<rparr>)"
  from dec have "v4_decode A (buffer (client_context\<lparr>buffer := buf\<rparr>)) = Inr m" by simp
  with ok show thesis
  proof (cases rule: reply_run_at [of A _ m "Some [sub_option_new 1 e]" None True])
    case (finished m1 res)
    note view = trans [OF finished(2) trans [OF v offer_view [OF ok D]]]
    have echo: "check_echo_and_strip A (Some [sub_option_new 1 e]) m1 =
        (if d = e then Inr (fst (option82_strip A m1)) else Inl Option82Mismatch)"
      by (rule check_echo_circuit [OF ok]) (simp add: view_eqD(4) [OF view])
    have client: "reply_client A m1 = broadcast_client"
      by (simp add: reply_client_def view_eqD(2) [OF view] broadcast_client_def)
    obtain r c' where res: "res = (r, c')" by (cases res)
    show thesis
    proof (rule that [of r c'])
      show "?run = Some (r, c')" using finished(1) res by simp
      show "r = Inl Option82Mismatch" if "d \<noteq> e"
        using finished(3) that by (simp add: reply_outcome_def res echo)
      assume "d = e"
      with finished(3) obtain m' where "r = Inr True" "dst_addr c' = Some (reply_client A m1)"
        "v4_decode A (buffer c') = Inr m'" and m': "v4_view A m' = (v4_view A m1)\<lparr>vw_opt82 := None\<rparr>"
        by (auto simp: reply_outcome_def res echo)
      moreover have "\<not> v4_contains A m' RelayAgentInformationCode"
        by (simp add: contains_iff_opt82 [OF ok] view_eqD(4) [OF m'])
      ultimately show "r = Inr True \<and> dst_addr c' = Some broadcast_client \<and>
          (\<exists>m'. v4_decode A (buffer c') = Inr m' \<and> \<not> v4_contains A m' RelayAgentInformationCode)"
        using client by simp
    qed
  qed (use tot in simp)
qed

lemma offer_canonical:
  "dhcproto_v4_ok A \<Longrightarrow> build_ok A D \<Longrightarrow> canonical_view (v4_view A (offer_with_circuit A D d))"
  by (simp add: offer_view canonical_view_def)

lemma reply_tests_pass:
  assumes ok: "dhcproto_v4_ok A" and D: "build_ok A D" and tot: "v4_encode_total A"
  shows "test_reply_pipeline_strips_option82 A D" "test_vss_insert_adds_sub_options A D"
    "test_reply_pipeline_echo_mismatch_is_error A D"
proof -
  note intro = encoded_intro [OF ok tot offer_canonical [OF ok D]]
  note run = reply_in_test [OF ok D tot, where e = b_eth0]
  show "test_reply_pipeline_strips_option82 A D"
    unfolding test_reply_pipeline_strips_option82_def
    by (rule intro, rule run, assumption, assumption) (auto simp: executed_def decoded_def)
  show "test_vss_insert_adds_sub_options A D"
    unfolding test_vss_insert_adds_sub_options_def
    by (rule intro, rule run, assumption, assumption) (auto simp: executed_def decoded_def)
  show "test_reply_pipeline_echo_mismatch_is_error A D"
    unfolding test_reply_pipeline_echo_mismatch_is_error_def
    by (rule intro, rule run, assumption, assumption) (auto simp: execute_fails_def b_eth_differ)
qed

lemma stage_tests_pass:
  assumes ok: "dhcproto_v4_ok A" and D: "build_ok A D" and tot: "v4_encode_total A"
  shows "test_reply_addr_ciaddr_nonzero_unicast A D" "test_reply_addr_ciaddr_zero_broadcast A D"
    "test_vss_check_detects_unsupported_server A D"
proof -
  have ciaddr: "v4_ciaddr A (bd_set_ciaddr D (bd_set_reply D (bd_default D)) ip) = ip"
    "v4_ciaddr A (bd_set_reply D (bd_default D)) = IPV4_UNSPECIFIED" for ip
    by (simp_all add: view_eqD(2) [OF build_views(5) [OF D]]
        view_eqD(2) [OF trans [OF build_views(4) [OF D] build_views(1) [OF D]]])
  show "test_reply_addr_ciaddr_nonzero_unicast A D"
    unfolding test_reply_addr_ciaddr_nonzero_unicast_def
  proof (rule encoded_intro [OF ok tot])
    show "canonical_view (v4_view A (bd_set_ciaddr D (bd_set_reply D (bd_default D)) (Ipv4Addr 192 168 1 100)))"
      by (simp add: build_views [OF D] canonical_view_def)
    fix buf m assume "v4_decode A buf = Inr m" and "v4_view A m = v4_view A (bd_set_ciaddr D
        (bd_set_reply D (bd_default D)) (Ipv4Addr 192 168 1 100))"
    from this(1) reply_client_view [OF this(2)]
    show "processed (reply_addr_process A) buf (\<lambda>result ctx. result \<and>
        dst_addr ctx = Some (socket_new (V4 (Ipv4Addr 192 168 1 100)) 68))"
      by (simp add: processed_def reply_addr_run) (simp add: reply_client_def ciaddr IPV4_UNSPECIFIED_def)
  qed
  show "test_reply_addr_ciaddr_zero_broadcast A D"
    unfolding test_reply_addr_ciaddr_zero_broadcast_def
  proof (rule encoded_intro [OF ok tot])
    show "canonical_view (v4_view A (bd_set_reply D (bd_default D)))"
      by (simp add: build_views [OF D] canonical_view_def)
    fix buf m assume "v4_decode A buf = Inr m" and "v4_view A m = v4_view A (bd_set_reply D (bd_default D))"
    from this(1) reply_client_view [OF this(2)]
    show "processed (reply_addr_process A) buf (\<lambda>result ctx. result \<and>
        dst_addr ctx = Some broadcast_client)"
      by (simp add: processed_def reply_addr_run) (simp add: reply_client_def ciaddr broadcast_client_def)
  qed
  show "test_vss_check_detects_unsupported_server A D"
    unfolding test_vss_check_detects_unsupported_server_def Let_def
    by (rule encoded_intro [OF ok tot])
      (auto simp: view_insert [OF ok] dhcproto_v4_laws [OF ok] sub_put_def processed_def
        vss_check_passes)
qed

section \<open>An instance\<close>

text \<open>The instance of the witnesses satisfies the laws of this theory too.\<close>

definition sample_build :: "(sample_msg, raw_sub list, byte) v4_build" where
  "sample_build =
     \<lparr> bd_default = (IPV4_UNSPECIFIED, IPV4_UNSPECIFIED, 0, None),
       bd_set_type = (\<lambda>(g, c, _, opt) t. (g, c, if t = Discover then 1 else 2, opt)),
       bd_set_reply = (\<lambda>m. m),
       bd_set_ciaddr = (\<lambda>(g, _, t, opt) ip. (g, ip, t, opt)),
       bd_relay_get = (\<lambda>i c. map_of (sample_iter i) c) \<rparr>"

lemma sample_build_ok: "build_ok sample_v4 sample_build"
  by (auto simp: build_ok_def sample_build_def sample_view v4_offer_def)

lemma sample_circuit_first: "circuit_first sample_v4"
proof -
  have "sample_iter i = [(AgentCircuitIdCode, AgentCircuitId d), (AgentRemoteIdCode, AgentRemoteId e)]"
    if "mset (sample_iter i) = relay_sub_options (Some d) (Some e)" for i d e
  proof -
    have "sample_iter [(0, d), (1, e)] =
        [(AgentCircuitIdCode, AgentCircuitId d), (AgentRemoteIdCode, AgentRemoteId e)]"
      by (simp add: sample_iter_def raw_info_def)
    moreover from this that have "mset (sample_iter i) = mset (sample_iter [(0, d), (1, e)])"
      by (simp add: relay_sub_options_def)
    ultimately show ?thesis using sample_iter_ordered by metis
  qed
  then show ?thesis by (simp add: circuit_first_def)
qed

lemma sample_passes_round_trip: "test_discover_relay_offer_full_round_trip sample_v4 sample_build"
  by (rule option82_order_tests_pass(2) [OF sample_v4_ok sample_build_ok sample_v4_total
        sample_circuit_first])

end
