(* ===== verification/Tests_V6.thy ===== *)
theory Tests_V6
  imports V6_Properties
begin

text \<open>
  The unit tests of \<open>dhcp/v6/\<close> and the round trip of \<open>tests/dhcpv6_relay.rs\<close>, one definition per test
  function, and that they hold of the model. A test is the conjunction of its assertions; an \<open>unwrap\<close>
  of an error or of nothing fails the test. The tests that build messages hold for every
  implementation of the \<open>dhcproto\<close> interface that satisfies its laws, here with the constructor
  \<open>v6::Message::new\<close> as one more parameter.
\<close>

section \<open>Relay-forward and Relay-reply\<close>

definition make_client_solicit :: bytes where "make_client_solicit = [1, 0, 0, 1]"

definition make_server_advertise :: bytes where "make_server_advertise = [2, 0, 0, 1]"

definition test_peer_addr :: socket_addr where
  "test_peer_addr = socket_new (V6 (Ipv6Addr 0x2001 0xdb8 0 0 0 0 0 1)) 546"

text \<open>The assertions on a Relay-forward that two of the tests make.\<close>

definition is_relay_forward :: "bytes \<Rightarrow> ipv6addr \<Rightarrow> ipv6addr \<Rightarrow> bytes \<Rightarrow> bool" where
  "is_relay_forward relay link peer client \<longleftrightarrow>
     idx relay 0 = Some RELAY_FORW \<and> idx relay 1 = Some 0 \<and>
     slice_of relay 2 18 = Some (ipv6_octets link) \<and>
     slice_of relay 18 34 = Some (ipv6_octets peer) \<and>
     read_u16 relay 34 = Some OPTION_RELAY_MSG \<and>
     (case read_u16 relay 36 of
        None \<Rightarrow> False
      | Some opt_len \<Rightarrow>
          unat opt_len = length client \<and> slice_of relay 38 (38 + unat opt_len) = Some client)"

definition test_encapsulate_produces_valid_relay_forward :: bool where
  "test_encapsulate_produces_valid_relay_forward \<longleftrightarrow>
     (let client = make_client_solicit;
          link = Ipv6Addr 0xfe80 0 0 0 0 0 0 1;
          relay = encapsulate client link test_peer_addr in
      is_relay_forward relay link (Ipv6Addr 0x2001 0xdb8 0 0 0 0 0 1) client)"

definition test_encapsulate_hop_count_is_zero :: bool where
  "test_encapsulate_hop_count_is_zero \<longleftrightarrow>
     idx (encapsulate make_client_solicit IPV6_LOCALHOST test_peer_addr) 1 = Some 0"

text \<open>A Relay-reply as the tests build it, with a hop count and a message.\<close>

definition test_reply :: "byte \<Rightarrow> bytes \<Rightarrow> bytes" where
  "test_reply hops msg =
     [RELAY_REPL, hops] @ ipv6_octets IPV6_LOCALHOST @ ipv6_octets IPV6_LOCALHOST @
     be16 OPTION_RELAY_MSG @ be16 (of_nat (length msg)) @ msg"

definition test_decapsulate_single_layer_relay_reply :: bool where
  "test_decapsulate_single_layer_relay_reply \<longleftrightarrow>
     decapsulate (test_reply 0 make_server_advertise) = Some (Inr make_server_advertise)"

definition test_decapsulate_double_nested_relay_reply :: bool where
  "test_decapsulate_double_nested_relay_reply \<longleftrightarrow>
     decapsulate (test_reply 0 (test_reply 1 make_server_advertise)) = Some (Inr make_server_advertise)"

definition is_error :: "'a relay_result option \<Rightarrow> bool" where
  "is_error r \<longleftrightarrow> (case r of Some (Inl e) \<Rightarrow> True | _ \<Rightarrow> False)"

definition test_decapsulate_too_short_errors :: bool where
  "test_decapsulate_too_short_errors \<longleftrightarrow> is_error (decapsulate [RELAY_REPL, 0])"

definition test_decapsulate_wrong_msg_type_errors :: bool where
  "test_decapsulate_wrong_msg_type_errors \<longleftrightarrow>
     is_error (decapsulate ((replicate RELAY_HDR_LEN 0)[0 := 1]))"

definition test_decapsulate_no_relay_msg_option_errors :: bool where
  "test_decapsulate_no_relay_msg_option_errors \<longleftrightarrow>
     is_error (decapsulate ((replicate RELAY_HDR_LEN 0)[0 := RELAY_REPL]))"

definition test_relay_forward_decoded_by_custom_parser :: bool where
  "test_relay_forward_decoded_by_custom_parser \<longleftrightarrow>
     (let client = make_client_solicit;
          link = Ipv6Addr 0xfe80 0 0 0 1 2 3 4;
          peer = socket_new (V6 (Ipv6Addr 0x2001 0xdb8 0 0 0 0 0 100)) 546 in
      is_relay_forward (encapsulate client link peer) link (Ipv6Addr 0x2001 0xdb8 0 0 0 0 0 100) client)"

definition test_encapsulate_with_ipv4_peer_uses_unspecified :: bool where
  "test_encapsulate_with_ipv4_peer_uses_unspecified \<longleftrightarrow>
     (case parse_ipv4 ''10.0.0.1'' of
        None \<Rightarrow> False
      | Some ip \<Rightarrow>
          slice_of (encapsulate make_client_solicit IPV6_LOCALHOST (socket_new (V4 ip) 67)) 18 34 =
            Some (replicate 16 0))"

lemma encapsulate_is_relay_forward:
  assumes "length client < 65536" "socket_ip peer = V6 ip"
  shows "is_relay_forward (encapsulate client link peer) link ip client"
proof -
  let ?n = "of_nat (length client) :: u16"
  let ?rest = "be16 OPTION_RELAY_MSG @ be16 ?n @ client"
  have relay: "encapsulate client link peer = [RELAY_FORW, 0] @ ipv6_octets link @ ipv6_octets ip @ ?rest"
    using assms(2) by (simp add: encapsulate_def)
  have len: "length (ipv6_octets a) = 16" for a by (cases a) (simp add: ipv6_octets_def)
  have n: "unat ?n = length client" using assms(1) by (simp add: unat_of_nat)
  have b: "length (be16 w) = 2" for w by (simp add: be16_def)
  have read: "read_u16 (xs @ be16 w @ ys) (length xs) = Some w" for xs w ys
    using from_be16_be16 [of w] b [of w] by (simp add: read_u16_def idx_def nth_append)
  have 34: "read_u16 (encapsulate client link peer) 34 = Some OPTION_RELAY_MSG"
    using read [of "[RELAY_FORW, 0] @ ipv6_octets link @ ipv6_octets ip" OPTION_RELAY_MSG "be16 ?n @ client"]
    by (simp add: relay len)
  have 36: "read_u16 (encapsulate client link peer) 36 = Some ?n"
    using read [of "[RELAY_FORW, 0] @ ipv6_octets link @ ipv6_octets ip @ be16 OPTION_RELAY_MSG" ?n client]
    by (simp add: relay len b)
  show ?thesis
    unfolding is_relay_forward_def 34 36
    by (simp add: n relay idx_def slice_of_def len b)
qed

lemma test_reply_encapsulates:
  "test_reply 0 msg = (encapsulate msg IPV6_LOCALHOST (socket_new (V6 IPV6_LOCALHOST) 546))[0 := RELAY_REPL]"
  by (simp add: test_reply_def encapsulate_def)

lemma decapsulate_test_reply:
  "length msg < 65536 \<Longrightarrow> decapsulate (test_reply h msg) =
     (if starts_reply msg then decapsulate msg else Some (Inr msg))"
  using decapsulate_wrap [of "plain_layer h IPV6_LOCALHOST IPV6_LOCALHOST" msg]
  by (simp add: test_reply_def wrap_def relay_header_def put_tlv_def plain_layer_def layer_ok_def)

lemma relay_tests_pass:
  "test_encapsulate_produces_valid_relay_forward" "test_encapsulate_hop_count_is_zero"
  "test_decapsulate_single_layer_relay_reply" "test_decapsulate_double_nested_relay_reply"
  "test_decapsulate_too_short_errors" "test_decapsulate_wrong_msg_type_errors"
  "test_decapsulate_no_relay_msg_option_errors" "test_relay_forward_decoded_by_custom_parser"
  "test_encapsulate_with_ipv4_peer_uses_unspecified"
proof -
  show "test_encapsulate_produces_valid_relay_forward" "test_relay_forward_decoded_by_custom_parser"
    by (simp_all add: test_encapsulate_produces_valid_relay_forward_def make_client_solicit_def
        test_relay_forward_decoded_by_custom_parser_def test_peer_addr_def encapsulate_is_relay_forward)
  show "test_encapsulate_hop_count_is_zero"
    by (simp add: test_encapsulate_hop_count_is_zero_def encapsulate_def idx_def)
  have ad: "length make_server_advertise < 65536" "\<not> starts_reply make_server_advertise"
    by (simp_all add: make_server_advertise_def starts_reply_def idx_def RELAY_REPL_def)
  then show "test_decapsulate_single_layer_relay_reply"
    by (simp add: test_decapsulate_single_layer_relay_reply_def decapsulate_test_reply)
  have "starts_reply (test_reply 1 make_server_advertise)" "length (test_reply 1 make_server_advertise) = 42"
    by (simp_all add: test_reply_def starts_reply_def idx_def make_server_advertise_def ipv6_octets_def
        IPV6_LOCALHOST_def be16_def)
  with ad show "test_decapsulate_double_nested_relay_reply"
    by (simp add: test_decapsulate_double_nested_relay_reply_def decapsulate_test_reply)
  show "test_decapsulate_too_short_errors" "test_decapsulate_wrong_msg_type_errors"
    "test_decapsulate_no_relay_msg_option_errors"
    by (simp_all add: test_decapsulate_too_short_errors_def test_decapsulate_wrong_msg_type_errors_def
        test_decapsulate_no_relay_msg_option_errors_def is_error_def decapsulate.simps RELAY_HDR_LEN_def
        RELAY_REPL_def idx_def slice_from_in extract_relay_msg_def extract_from.simps OPTION_TLV_HDR_def)
  have "parse_ipv4 ''10.0.0.1'' = Some (Ipv4Addr 10 0 0 1)" by (simp add: std_parse_defs)
  moreover have be0: "be16 0 = [0, 0]" by (simp add: be16_def numeral_2_eq_2)
  have "replicate 16 0 = [0, 0, 0, 0, 0, 0, 0, 0, 0, 0, 0, 0, 0, 0, 0, 0 :: byte]"
    by (simp add: eval_nat_numeral)
  with be0 have "ipv6_octets IPV6_UNSPECIFIED = replicate 16 0"
    by (simp add: ipv6_octets_def IPV6_UNSPECIFIED_def)
  moreover have "length (ipv6_octets a) = 16" for a by (cases a) (simp add: ipv6_octets_def)
  ultimately show "test_encapsulate_with_ipv4_peer_uses_unspecified"
    by (simp add: test_encapsulate_with_ipv4_peer_uses_unspecified_def encapsulate_def slice_of_def)
qed

section \<open>Options\<close>

text \<open>\<open>ElapsedTime\<close> is one of the options the sources do not name.\<close>

definition elapsed_time :: v6_option where "elapsed_time = OtherV6Option"

definition test_interface_id_round_trip :: bool where
  "test_interface_id_round_trip \<longleftrightarrow> interface_id_decode (interface_id_encode ''eth0'') = Some ''eth0''"

definition test_decode_non_interface_id_returns_none :: bool where
  "test_decode_non_interface_id_returns_none \<longleftrightarrow> interface_id_decode elapsed_time = None"

definition test_decode_invalid_utf8_returns_none :: bool where
  "test_decode_invalid_utf8_returns_none \<longleftrightarrow> interface_id_decode (InterfaceId [0xFF, 0xFE, 0x00]) = None"

definition test_remote_id_round_trip :: bool where
  "test_remote_id_round_trip \<longleftrightarrow>
     remote_id_decode (remote_id_encode (as_bytes ''remote-agent-1'')) = Some (as_bytes ''remote-agent-1'')"

definition test_decode_wrong_code_returns_none :: bool where
  "test_decode_wrong_code_returns_none \<longleftrightarrow> remote_id_decode elapsed_time = None"

definition test_remote_id_empty_data :: bool where
  "test_remote_id_empty_data \<longleftrightarrow> remote_id_decode (remote_id_encode []) = Some []"

definition test_vss :: "byte \<Rightarrow> bytes \<Rightarrow> vss_config" where
  "test_vss t info = \<lparr> vss_enabled = True, vss_type = t, vss_info = info, vpn_name = None \<rparr>"

definition test_v6_encode_type0_round_trip :: "'m v6_api \<Rightarrow> bool" where
  "test_v6_encode_type0_round_trip A \<longleftrightarrow>
     (case v6_vss_encode (test_vss 0 (as_bytes ''vpn-abc'')) of
        Inl e \<Rightarrow> False
      | Inr opt \<Rightarrow> v6_vss_extract A [opt] = Some (Some (0, as_bytes ''vpn-abc'')))"

definition test_v6_encode_type1_vpn_id :: bool where
  "test_v6_encode_type1_vpn_id \<longleftrightarrow>
     (case v6_vss_encode (test_vss 1 [0, 0, 0, 0, 0, 0, 1]) of Inl e \<Rightarrow> False | Inr opt \<Rightarrow> True)"

definition test_v6_encode_type255_global :: bool where
  "test_v6_encode_type255_global \<longleftrightarrow>
     (case v6_vss_encode (test_vss 255 []) of Inl e \<Rightarrow> False | Inr opt \<Rightarrow> True)"

definition test_extract_no_vss_option_returns_none :: "'m v6_api \<Rightarrow> bool" where
  "test_extract_no_vss_option_returns_none A \<longleftrightarrow> v6_vss_extract A [] = Some None"

lemma v6_option_tests_pass:
  "test_interface_id_round_trip" "test_decode_non_interface_id_returns_none"
  "test_decode_invalid_utf8_returns_none" "test_remote_id_round_trip"
  "test_decode_wrong_code_returns_none" "test_remote_id_empty_data"
  "test_v6_encode_type1_vpn_id" "test_v6_encode_type255_global"
  "test_extract_no_vss_option_returns_none A"
proof -
  have "rust_string ''eth0''" by (simp add: rust_string_def as_bytes_def)
  then show "test_interface_id_round_trip"
    by (simp add: test_interface_id_round_trip_def interface_id.round_trip)
  have "\<not> utf8_valid [0xFF, 0xFE, 0x00]"
    by (simp add: utf8_valid.simps in_range_def second_of_3_def is_cont_def word_le_nat_alt)
  then show "test_decode_invalid_utf8_returns_none"
    by (simp add: test_decode_invalid_utf8_returns_none_def from_utf8_def)
qed (simp_all add: test_decode_non_interface_id_returns_none_def test_remote_id_round_trip_def
    test_decode_wrong_code_returns_none_def test_remote_id_empty_data_def elapsed_time_def
    remote_id.round_trip test_v6_encode_type1_vpn_id_def test_v6_encode_type255_global_def
    test_extract_no_vss_option_returns_none_def v6_vss_encode_def validate_vss_def test_vss_def
    vss_type_defs)

lemma v6_vss_test_passes:
  assumes "dhcproto_v6_ok A"
  shows "test_v6_encode_type0_round_trip A"
  using assms
  by (simp add: test_v6_encode_type0_round_trip_def v6_vss_encode_def validate_vss_def test_vss_def
      vss_type_defs v6_vss_extract_first v6_codes VSS_OPTION_CODE_def)

section \<open>Pipelines\<close>

text \<open>
  \<open>v6::Message::new\<close>: a message of the given type without options, which encodes to bytes that
  decode to a message with this view. \<open>Advertise\<close> is a type that the relay does not name.
\<close>

definition v6_advertise :: v6_message_type where
  "v6_advertise = OtherV6MessageType 2"

definition v6_new_ok :: "'m v6_api \<Rightarrow> (v6_message_type \<Rightarrow> 'm) \<Rightarrow> bool" where
  "v6_new_ok A new \<longleftrightarrow>
     (\<forall>t \<in> {V6Solicit, v6_advertise}. \<forall>b. v6_encode A (new t) = Inr b \<longrightarrow>
        (\<exists>m. v6_decode A b = Inr m \<and> v6_view A m = (t, {#})))"

definition test_v6_request_encapsulates :: "'m v6_api \<Rightarrow> (v6_message_type \<Rightarrow> 'm) \<Rightarrow> bool" where
  "test_v6_request_encapsulates A new \<longleftrightarrow>
     (let server = socket_new (V6 (Ipv6Addr 2001 0xdb8 0 0 0 0 0 100)) 547;
          peer = socket_new (V6 IPV6_LOCALHOST) 546;
          link = Ipv6Addr 0xfe80 0 0 0 0 0 0 1;
          pipeline = build_request_v6 A ''eth0'' (as_bytes ''agent-1'') link peer server None True True in
      case v6_encode A (new V6Solicit) of
        Inl e \<Rightarrow> False
      | Inr solicit \<Rightarrow>
         (case execute pipeline ((ctx_new [] peer ''eth0'')\<lparr>buffer := solicit\<rparr>) of
            Some (Inr result, ctx) \<Rightarrow>
              result \<and> idx (buffer ctx) 0 = Some RELAY_FORW \<and> dst_addr ctx = Some server
          | _ \<Rightarrow> False))"

definition test_v6_reply_decapsulates :: "'m v6_api \<Rightarrow> (v6_message_type \<Rightarrow> 'm) \<Rightarrow> bool" where
  "test_v6_reply_decapsulates A new \<longleftrightarrow>
     (case v6_encode A (new v6_advertise) of
        Inl e \<Rightarrow> False
      | Inr advertise \<Rightarrow>
         (let client = socket_new (V6 IPV6_LOCALHOST) 546;
              reply = (encapsulate advertise IPV6_LOCALHOST client)[0 := RELAY_REPL];
              src = socket_new (V6 (Ipv6Addr 2001 0xdb8 0 0 0 0 0 100)) 547 in
          case execute (build_reply_v6 A client None) ((ctx_new [] src ''eth0'')\<lparr>buffer := reply\<rparr>) of
            Some (Inr result, ctx) \<Rightarrow>
              result \<and> dst_addr ctx = Some client \<and>
              (case v6_decode A (buffer ctx) of
                 Inl e \<Rightarrow> False
               | Inr inner \<Rightarrow> v6_msg_type A inner = v6_advertise)
          | _ \<Rightarrow> False))"

text \<open>\<open>tests/dhcpv6_relay.rs\<close>: \<open>solicit\<close> is the encoded client message with its options.\<close>

definition test_v6_full_round_trip :: "'m v6_api \<Rightarrow> (v6_message_type \<Rightarrow> 'm) \<Rightarrow> bytes \<Rightarrow> bool" where
  "test_v6_full_round_trip A new solicit \<longleftrightarrow>
     (let link = Ipv6Addr 0xfe80 0 0 0 0 0 0 1;
          peer = socket_new (V6 (Ipv6Addr 0x2001 0xdb8 0 0 0 0 0 100)) 546;
          relay_fwd = encapsulate solicit link peer in
      idx relay_fwd 0 = Some 12 \<and> idx relay_fwd 1 = Some 0 \<and>
      (case v6_encode A (new v6_advertise) of
         Inl e \<Rightarrow> False
       | Inr advertise \<Rightarrow>
          (case decapsulate ((encapsulate advertise link peer)[0 := 13]) of
             Some (Inr inner) \<Rightarrow>
               (case v6_decode A inner of
                  Inl e \<Rightarrow> False
                | Inr final_msg \<Rightarrow> v6_msg_type A final_msg = v6_advertise)
           | _ \<Rightarrow> False)))"

lemma decapsulate_answered:
  assumes "length msg < 65536" "\<not> starts_reply msg"
  shows "decapsulate ((encapsulate msg link peer)[0 := RELAY_REPL]) = Some (Inr msg)"
proof -
  have "(encapsulate msg link peer)[0 := RELAY_REPL] =
      wrap (plain_layer 0 link (case socket_ip peer of V6 ip \<Rightarrow> ip | V4 _ \<Rightarrow> IPV6_UNSPECIFIED)) msg"
    by (simp add: encapsulate_def wrap_def relay_header_def put_tlv_def plain_layer_def)
  with assms decapsulate_wrap show ?thesis by (simp add: layer_ok_def plain_layer_def)
qed

lemma v6_request_test_passes:
  assumes "dhcproto_v6_ok A" "v6_encode_total A" "v6_new_ok A new"
  shows "test_v6_request_encapsulates A new"
proof -
  obtain b where b: "v6_encode A (new V6Solicit) = Inr b" using assms(2) by (auto simp: v6_encode_total_def)
  let ?peer = "socket_new (V6 IPV6_LOCALHOST) 546"
  let ?c = "(ctx_new [] ?peer ''eth0'')\<lparr>buffer := b\<rparr>"
  have carried: "v6_carries A ?c (V6Solicit, {#})"
    using assms(3) b by (auto simp: v6_new_ok_def v6_carries_def)
  have "v6_options_ok ''eth0'' (as_bytes ''agent-1'') None True True"
    by (simp add: v6_options_ok_def as_bytes_def)
  from stage_addsE [OF option_stages_add [OF assms(1) this] carried] assms(2) obtain c' where "execute_stages
      [\<lparr>stage_name = ''dhcpv6::parse'', stage_process = v6_parse_process A\<rparr>,
       \<lparr>stage_name = ''dhcpv6::interface_id'', stage_process = interface_id_process A ''eth0''\<rparr>,
       \<lparr>stage_name = ''dhcpv6::remote_id'', stage_process = remote_id_process A (as_bytes ''agent-1'')\<rparr>] ?c =
      Some (Inr True, c')" by fastforce
  then have "execute_stages
      ([\<lparr>stage_name = ''dhcpv6::parse'', stage_process = v6_parse_process A\<rparr>,
        \<lparr>stage_name = ''dhcpv6::interface_id'', stage_process = interface_id_process A ''eth0''\<rparr>,
        \<lparr>stage_name = ''dhcpv6::remote_id'', stage_process = remote_id_process A (as_bytes ''agent-1'')\<rparr>]
       @ sts) ?c = execute_stages sts c'" for sts
    by (simp add: execute_stages_append del: append.simps execute_stages.simps)
  then have "execute (build_request_v6 A ''eth0'' (as_bytes ''agent-1'') link ?peer srv None True True) ?c =
      Some (Inr True, c'\<lparr>buffer := encapsulate (buffer c') link ?peer, dst_addr := Some srv\<rparr>)" for link srv
    by (simp add: build_request_v6_def relay_fwd_process_def v6_forward_process_def
        del: execute_stages.simps(2)) (simp add: relay_fwd_process_def v6_forward_process_def)
  then show ?thesis
    using b by (simp add: test_v6_request_encapsulates_def encapsulate_def idx_def)
qed

text \<open>
  For the tests on replies, what the wire format of \<open>dhcproto\<close> gives: an Advertise message without
  options starts with its type and is short, and a Relay-reply can be decoded as a message.
\<close>

definition v6_wire_ok :: "'m v6_api \<Rightarrow> (v6_message_type \<Rightarrow> 'm) \<Rightarrow> bool" where
  "v6_wire_ok A new \<longleftrightarrow>
     (\<forall>b. v6_encode A (new v6_advertise) = Inr b \<longrightarrow> length b < 65536 \<and> idx b 0 = Some 2) \<and>
     (\<forall>b. starts_reply b \<longrightarrow> RELAY_HDR_LEN \<le> length b \<longrightarrow> (\<exists>m. v6_decode A b = Inr m))"

lemma v6_reply_tests_pass:
  assumes "v6_encode_total A" "v6_new_ok A new" "v6_wire_ok A new"
  shows "test_v6_reply_decapsulates A new" "test_v6_full_round_trip A new solicit"
proof -
  obtain b where b: "v6_encode A (new v6_advertise) = Inr b"
    using assms(1) by (auto simp: v6_encode_total_def)
  with assms(2) obtain m where m: "v6_decode A b = Inr m" "v6_msg_type A m = v6_advertise"
    by (auto simp: v6_new_ok_def v6_view_def)
  from assms(3) b have wire: "length b < 65536" "idx b 0 = Some 2" by (auto simp: v6_wire_ok_def)
  then have "\<not> starts_reply b" by (simp add: starts_reply_def RELAY_REPL_def)
  note inner = decapsulate_answered [OF wire(1) this]
  have octets: "length (ipv6_octets a) = 16" for a by (cases a) (simp add: ipv6_octets_def)
  have "starts_reply ((encapsulate b link peer)[0 := RELAY_REPL])"
    "RELAY_HDR_LEN \<le> length ((encapsulate b link peer)[0 := RELAY_REPL])" for link peer
    by (simp_all add: encapsulate_def starts_reply_def idx_def RELAY_HDR_LEN_def octets)
  with assms(3) have "\<exists>m. v6_decode A ((encapsulate b link peer)[0 := RELAY_REPL]) = Inr m" for link peer
    unfolding v6_wire_ok_def by blast
  then obtain outer where "v6_decode A ((encapsulate b IPV6_LOCALHOST (socket_new (V6 IPV6_LOCALHOST) 546))
      [0 := RELAY_REPL]) = Inr outer" by blast
  then show "test_v6_reply_decapsulates A new"
    using b m inner
    by (simp add: test_v6_reply_decapsulates_def build_reply_v6_def v6_parse_process_def
        relay_reply_process_def interface_id_extract_process_def v6_forward_process_def
        split: option.splits)
  show "test_v6_full_round_trip A new solicit"
    using b m inner [unfolded RELAY_REPL_def]
    by (simp add: test_v6_full_round_trip_def encapsulate_def RELAY_FORW_def idx_def)
qed

end
