(* ===== verification/Tests_Smf.thy ===== *)
theory Tests_Smf
  imports Smf_Engine
begin

text \<open>
  The unit tests of \<open>smf/\<close>, one definition per test function, and that they hold of the model. A
  test is the conjunction of its assertions; an \<open>unwrap\<close> of an error fails the test. Clock values
  are arguments, in the order of the calls of \<open>Instant::now\<close>, and the tests hold for all of them, or
  for those that the sleeping of the test allows.

  One test is left out: \<open>h_dpd_different_content_different_key\<close> of \<open>smf/dpd_ipv4.rs\<close>, whose result is
  a value of the hash function of the crate \<open>murmur3\<close>.
\<close>

definition secs :: "nat \<Rightarrow> duration" where
  "secs n = n * NANOS_PER_SEC"

definition millis :: "nat \<Rightarrow> duration" where
  "millis n = n * 1000000"

section \<open>The duplicate detection cache\<close>

definition test_v4_key :: "u64 \<Rightarrow> dpd_key" where
  "test_v4_key n = dpd_key_new (V4 (Ipv4Addr 10 0 0 1)) (V4 (Ipv4Addr 224 0 0 1)) n"

definition test_new_packet_returns_true :: "instant \<Rightarrow> bool" where
  "test_new_packet_returns_true now \<longleftrightarrow>
     (let cache = dpd_cache_new (secs 10) in
      fst (check_and_insert now cache (test_v4_key 1) 64) = Inr True)"

text \<open>Two arrivals of one key, and the answer to the second.\<close>

definition second_answer :: "instant \<Rightarrow> instant \<Rightarrow> byte \<Rightarrow> byte \<Rightarrow> bool relay_result" where
  "second_answer now1 now2 ttl1 ttl2 =
     (let cache1 = snd (check_and_insert now1 (dpd_cache_new (secs 10)) (test_v4_key 1) ttl1) in
      fst (check_and_insert now2 cache1 (test_v4_key 1) ttl2))"

definition test_duplicate_same_ttl_returns_false :: "instant \<Rightarrow> instant \<Rightarrow> bool" where
  "test_duplicate_same_ttl_returns_false now1 now2 \<longleftrightarrow> second_answer now1 now2 64 64 = Inr False"

definition test_larger_ttl_updates_and_returns_true :: "instant \<Rightarrow> instant \<Rightarrow> bool" where
  "test_larger_ttl_updates_and_returns_true now1 now2 \<longleftrightarrow> second_answer now1 now2 32 64 = Inr True"

definition test_smaller_ttl_returns_error :: "instant \<Rightarrow> instant \<Rightarrow> bool" where
  "test_smaller_ttl_returns_error now1 now2 \<longleftrightarrow> (\<exists>e. second_answer now1 now2 64 32 = Inl e)"

definition test_different_keys_are_independent :: "instant \<Rightarrow> instant \<Rightarrow> instant \<Rightarrow> bool" where
  "test_different_keys_are_independent now1 now2 now3 \<longleftrightarrow>
     (let cache0 = dpd_cache_new (secs 10);
          (r1, cache1) = check_and_insert now1 cache0 (test_v4_key 1) 64;
          (r2, cache2) = check_and_insert now2 cache1 (test_v4_key 2) 64;
          (r3, cache3) = check_and_insert now3 cache2 (test_v4_key 1) 64 in
      r1 = Inr True \<and> r2 = Inr True \<and> r3 = Inr False)"

text \<open>The test sleeps for 5 ms before the eviction at \<open>now2\<close>.\<close>

definition test_evict_expired_removes_old_entries :: "instant \<Rightarrow> instant \<Rightarrow> instant \<Rightarrow> bool" where
  "test_evict_expired_removes_old_entries t_min now1 now2 \<longleftrightarrow>
     (let cache1 = snd (check_and_insert now1 (dpd_cache_new (millis 1)) (test_v4_key 1) 64) in
      dpd_len cache1 = 1 \<and>
      (case evict_expired t_min now2 cache1 of
         None \<Rightarrow> False
       | Some cache2 \<Rightarrow> dpd_len cache2 = 0))"

definition test_different_src_addr_are_different_keys :: "instant \<Rightarrow> instant \<Rightarrow> bool" where
  "test_different_src_addr_are_different_keys now1 now2 \<longleftrightarrow>
     (let key1 = dpd_key_new (V4 (Ipv4Addr 10 0 0 1)) (V4 (Ipv4Addr 224 0 0 1)) 1;
          key2 = dpd_key_new (V4 (Ipv4Addr 10 0 0 2)) (V4 (Ipv4Addr 224 0 0 1)) 1;
          (r1, cache1) = check_and_insert now1 (dpd_cache_new (secs 10)) key1 64 in
      r1 = Inr True \<and> fst (check_and_insert now2 cache1 key2 64) = Inr True)"

definition test_clear_removes_all :: "instant \<Rightarrow> instant \<Rightarrow> bool" where
  "test_clear_removes_all now1 now2 \<longleftrightarrow>
     (let cache1 = snd (check_and_insert now1 (dpd_cache_new (secs 10)) (test_v4_key 1) 64);
          cache2 = snd (check_and_insert now2 cache1 (test_v4_key 2) 64) in
      dpd_is_empty (dpd_clear cache2))"

lemmas dpd_test_defs =
  test_v4_key_def dpd_key_new_def second_answer_def check_and_insert_def dpd_cache_new_def
  test_new_packet_returns_true_def test_duplicate_same_ttl_returns_false_def
  test_larger_ttl_updates_and_returns_true_def test_smaller_ttl_returns_error_def
  test_different_keys_are_independent_def test_evict_expired_removes_old_entries_def
  test_different_src_addr_are_different_keys_def test_clear_removes_all_def

lemma byte_orders: "(32 :: byte) < 64" "\<not> (64 :: byte) < 32"
  by (simp_all add: word_less_nat_alt)

lemma dpd_tests_pass:
  "test_new_packet_returns_true now1" "test_duplicate_same_ttl_returns_false now1 now2"
  "test_larger_ttl_updates_and_returns_true now1 now2" "test_smaller_ttl_returns_error now1 now2"
  "test_different_keys_are_independent now1 now2 now3"
  "test_different_src_addr_are_different_keys now1 now2" "test_clear_removes_all now1 now2"
  by (simp_all add: dpd_test_defs byte_orders dpd_is_empty_def dpd_clear_def)

lemma evict_test_passes:
  assumes "t_min + 1000000 \<le> now2" "now1 + 5000000 \<le> now2"
  shows "test_evict_expired_removes_old_entries t_min now1 now2"
proof -
  have "dpd_len (snd (check_and_insert now1 (dpd_cache_new (millis 1)) (test_v4_key 1) 64)) = 1"
    by (simp add: check_and_insert_def dpd_cache_new_def dpd_len_def)
  moreover have "retain_from (now2 - 1000000) [test_v4_key 1 \<mapsto> \<lparr> first_seen = now1, entry_ttl = 64 \<rparr>] = Map.empty"
    using assms by (auto simp: retain_from_def fun_eq_iff)
  ultimately show ?thesis
    using assms by (simp add: test_evict_expired_removes_old_entries_def evict_expired_def
        check_and_insert_def dpd_cache_new_def dpd_len_def millis_def Let_def)
qed

text \<open>The integration tests in \<open>tests/smf_dpd.rs\<close> are the same sequences; one goes on after the eviction.\<close>

definition test_window_expiry_allows_reforwarding ::
    "instant \<Rightarrow> instant \<Rightarrow> instant \<Rightarrow> instant \<Rightarrow> bool" where
  "test_window_expiry_allows_reforwarding t_min now1 now2 now3 \<longleftrightarrow>
     (let cache1 = snd (check_and_insert now1 (dpd_cache_new (millis 1)) (test_v4_key 42) 64) in
      dpd_len cache1 = 1 \<and>
      (case evict_expired t_min now2 cache1 of
         None \<Rightarrow> False
       | Some cache2 \<Rightarrow>
           dpd_len cache2 = 0 \<and> fst (check_and_insert now3 cache2 (test_v4_key 42) 64) = Inr True))"

lemma window_expiry_test_passes:
  assumes "t_min + 1000000 \<le> now2" "now1 + 5000000 \<le> now2"
  shows "test_window_expiry_allows_reforwarding t_min now1 now2 now3"
proof -
  have "dpd_len (snd (check_and_insert now1 (dpd_cache_new (millis 1)) (test_v4_key 42) 64)) = 1"
    by (simp add: check_and_insert_def dpd_cache_new_def dpd_len_def)
  moreover have "retain_from (now2 - 1000000) [test_v4_key 42 \<mapsto> \<lparr> first_seen = now1, entry_ttl = 64 \<rparr>] = Map.empty"
    using assms by (auto simp: retain_from_def fun_eq_iff)
  ultimately show ?thesis
    using assms by (simp add: test_window_expiry_allows_reforwarding_def evict_expired_def
        check_and_insert_def dpd_cache_new_def dpd_len_def millis_def Let_def)
qed

section \<open>Packet identifiers\<close>

definition test_i_dpd_same_ip_id_same_key :: bool where
  "test_i_dpd_same_ip_id_same_key \<longleftrightarrow>
     (let key1 = i_dpd_packet_id (V4 (Ipv4Addr 10 0 0 1)) (V4 (Ipv4Addr 224 0 0 1)) 42;
          key2 = i_dpd_packet_id (V4 (Ipv4Addr 10 0 0 1)) (V4 (Ipv4Addr 224 0 0 1)) 42 in
      key1 = key2)"

definition test_i_dpd_different_ip_id_different_key :: bool where
  "test_i_dpd_different_ip_id_different_key \<longleftrightarrow>
     (let key1 = i_dpd_packet_id (V4 (Ipv4Addr 10 0 0 1)) (V4 (Ipv4Addr 224 0 0 1)) 42;
          key2 = i_dpd_packet_id (V4 (Ipv4Addr 10 0 0 1)) (V4 (Ipv4Addr 224 0 0 1)) 43 in
      key1 \<noteq> key2)"

text \<open>The hash of the crate is a parameter that does not fail on data in memory.\<close>

definition test_h_dpd_same_content_same_key :: "(bytes \<Rightarrow> string + u128) \<Rightarrow> bool" where
  "test_h_dpd_same_content_same_key murmur \<longleftrightarrow>
     (let payload = as_bytes ''hello world'';
          key1 = h_dpd_packet_id_v4 murmur (V4 (Ipv4Addr 10 0 0 1)) (V4 (Ipv4Addr 224 0 0 1)) payload;
          key2 = h_dpd_packet_id_v4 murmur (V4 (Ipv4Addr 10 0 0 1)) (V4 (Ipv4Addr 224 0 0 1)) payload in
      key1 \<noteq> None \<and> key1 = key2)"

definition test_h_dpd_truncates_to_64_bytes :: "(bytes \<Rightarrow> string + u128) \<Rightarrow> bool" where
  "test_h_dpd_truncates_to_64_bytes murmur \<longleftrightarrow>
     (let payload = replicate 128 0xAA;
          key = h_dpd_packet_id_v4 murmur (V4 (Ipv4Addr 10 0 0 1)) (V4 (Ipv4Addr 224 0 0 1)) payload;
          key2 = h_dpd_packet_id_v4 murmur (V4 (Ipv4Addr 10 0 0 1)) (V4 (Ipv4Addr 224 0 0 1)) payload in
      key \<noteq> None \<and> key = key2)"

definition v6_group :: ip_addr where
  "v6_group = V6 (Ipv6Addr 0xff02 0 0 0 0 0 0 1)"

definition test_i_dpd_from_raw_same_id_same_key :: bool where
  "test_i_dpd_from_raw_same_id_same_key \<longleftrightarrow>
     (let key1 = i_dpd_packet_id_from_raw (V6 IPV6_LOCALHOST) v6_group 42;
          key2 = i_dpd_packet_id_from_raw (V6 IPV6_LOCALHOST) v6_group 42 in
      key1 = key2)"

definition test_i_dpd_from_option_uses_identifier_bytes :: bool where
  "test_i_dpd_from_option_uses_identifier_bytes \<longleftrightarrow>
     (let opt = new_i_dpd [0, 0, 0, 0, 0, 0, 0, 42] in
      case i_dpd_packet_id_from_option (V6 IPV6_LOCALHOST) v6_group opt of
        None \<Rightarrow> False
      | Some key \<Rightarrow> packet_id key = 42)"

definition test_h_dpd_v6_same_content_same_key :: "(bytes \<Rightarrow> string + u128) \<Rightarrow> bool" where
  "test_h_dpd_v6_same_content_same_key murmur \<longleftrightarrow>
     (let payload = as_bytes ''hello world'' in
      case (h_dpd_packet_id_v6 murmur (V6 IPV6_LOCALHOST) v6_group payload,
            h_dpd_packet_id_v6 murmur (V6 IPV6_LOCALHOST) v6_group payload) of
        (Some (key1, hav1), Some (key2, hav2)) \<Rightarrow> key1 = key2
      | _ \<Rightarrow> False)"

definition test_has_collision_true_when_hav_matches :: bool where
  "test_has_collision_true_when_hav_matches \<longleftrightarrow> has_collision (Some 42) 42"

definition test_has_collision_false_when_hav_differs :: bool where
  "test_has_collision_false_when_hav_differs \<longleftrightarrow> \<not> has_collision (Some 42) 43"

definition test_has_collision_false_when_no_cached_hav :: bool where
  "test_has_collision_false_when_no_cached_hav \<longleftrightarrow> \<not> has_collision None 42"

lemmas id_test_defs =
  test_i_dpd_same_ip_id_same_key_def test_i_dpd_different_ip_id_different_key_def
  test_i_dpd_from_raw_same_id_same_key_def test_i_dpd_from_option_uses_identifier_bytes_def
  test_has_collision_true_when_hav_matches_def test_has_collision_false_when_hav_differs_def
  test_has_collision_false_when_no_cached_hav_def

lemma id_tests_pass:
  "test_i_dpd_same_ip_id_same_key" "test_i_dpd_different_ip_id_different_key"
  "test_i_dpd_from_raw_same_id_same_key" "test_i_dpd_from_option_uses_identifier_bytes"
  "test_has_collision_true_when_hav_matches" "test_has_collision_false_when_hav_differs"
  "test_has_collision_false_when_no_cached_hav"
  by (simp_all add: id_test_defs i_dpd_packet_id_def i_dpd_packet_id_from_raw_def dpd_key_new_def
      i_dpd_packet_id_from_option_def bytes_to_u64_def new_i_dpd_def slice_of_def be_nat_def
      has_collision_def)

lemma hash_tests_pass:
  assumes "\<And>input. \<exists>hash. murmur input = Inr hash"
  shows "test_h_dpd_same_content_same_key murmur" "test_h_dpd_truncates_to_64_bytes murmur"
    "test_h_dpd_v6_same_content_same_key murmur"
proof -
  have total: "h_dpd_hash murmur src dst payload \<noteq> None" for src dst payload
  proof -
    obtain input where "hash_input src dst payload = Some input"
      by (cases "hash_input src dst payload") (auto simp: hash_input_def slice_of_def)
    moreover obtain hash where "murmur input = Inr hash" using assms by blast
    ultimately show ?thesis by (simp add: h_dpd_hash_def Let_def)
  qed
  then show "test_h_dpd_same_content_same_key murmur" "test_h_dpd_truncates_to_64_bytes murmur"
    by (simp_all add: test_h_dpd_same_content_same_key_def test_h_dpd_truncates_to_64_bytes_def
        h_dpd_packet_id_v4_def)
  from total show "test_h_dpd_v6_same_content_same_key murmur"
    by (auto simp: test_h_dpd_v6_same_content_same_key_def h_dpd_packet_id_v6_def Let_def
        split: option.splits)
qed

section \<open>The option codec\<close>

definition TID_TYPE_DEFAULT :: byte where "TID_TYPE_DEFAULT = 1"

text \<open>\<open>SmfDpdOption::decode(&encoded[2..]).unwrap() == opt\<close>.\<close>

definition decodes_back :: "smf_dpd_option \<Rightarrow> bool" where
  "decodes_back opt \<longleftrightarrow>
     (case slice_from (smf_encode opt) 2 of
        None \<Rightarrow> False
      | Some data \<Rightarrow> smf_decode data = Some (Some opt))"

definition test_i_dpd_round_trip :: bool where
  "test_i_dpd_round_trip \<longleftrightarrow> decodes_back (new_i_dpd [0xAA, 0xBB, 0xCC, 0xDD])"

definition test_h_dpd_round_trip :: bool where
  "test_h_dpd_round_trip \<longleftrightarrow> decodes_back (new_h_dpd [0x11, 0x22, 0x33, 0x44])"

definition test_i_dpd_has_h_bit_clear :: bool where
  "test_i_dpd_has_h_bit_clear \<longleftrightarrow> \<not> h_bit (new_i_dpd [1, 2, 3])"

definition test_h_dpd_has_h_bit_set :: bool where
  "test_h_dpd_has_h_bit_set \<longleftrightarrow> h_bit (new_h_dpd [1, 2, 3])"

definition test_decode_invalid_too_short :: bool where
  "test_decode_invalid_too_short \<longleftrightarrow> smf_decode [0x00] = Some None"

definition test_decode_invalid_empty_identifier :: bool where
  "test_decode_invalid_empty_identifier \<longleftrightarrow> smf_decode [0x00] = Some None"

definition test_option_with_tagger_id_round_trip :: bool where
  "test_option_with_tagger_id_round_trip \<longleftrightarrow>
     decodes_back \<lparr> h_bit = False, tid_type = TID_TYPE_DEFAULT, tid_len = 4,
                    tagger_id = Some [0x01, 0x02, 0x03, 0x04], opt_identifier = [0xAA, 0xBB] \<rparr>"

definition test_encode_produces_correct_header :: bool where
  "test_encode_produces_correct_header \<longleftrightarrow>
     (let encoded = smf_encode (new_i_dpd [1, 2, 3, 4]) in
      idx encoded 0 = Some SMF_DPD_OPTION_TYPE \<and> idx encoded 1 = Some 5 \<and>
      idx encoded 2 = Some 0x00 \<and> slice_from encoded 3 = Some [1, 2, 3, 4])"

lemmas option_test_defs =
  test_i_dpd_round_trip_def test_h_dpd_round_trip_def test_i_dpd_has_h_bit_clear_def
  test_h_dpd_has_h_bit_set_def test_decode_invalid_too_short_def
  test_decode_invalid_empty_identifier_def test_option_with_tagger_id_round_trip_def
  test_encode_produces_correct_header_def

lemma option_tests_pass:
  "test_i_dpd_round_trip" "test_h_dpd_round_trip" "test_i_dpd_has_h_bit_clear"
  "test_h_dpd_has_h_bit_set" "test_decode_invalid_too_short"
  "test_decode_invalid_empty_identifier" "test_option_with_tagger_id_round_trip"
  "test_encode_produces_correct_header"
  by (simp_all add: option_test_defs decodes_back_def smf_encode_def smf_decode_def option_flags_def
      new_i_dpd_def new_h_dpd_def TID_TYPE_NULL_def TID_TYPE_DEFAULT_def SMF_DPD_OPTION_TYPE_def
      slice_from_def slice_of_def idx_def)

section \<open>Forwarding rules and engine\<close>

definition test_rule1_non_multicast_dropped :: bool where
  "test_rule1_non_multicast_dropped \<longleftrightarrow>
     \<not> check_forwarding_rules (V4 (Ipv4Addr 10 0 0 1)) (V4 (Ipv4Addr 10 0 0 2)) 64 []"

definition test_rule2_ttl_one_or_less_dropped :: bool where
  "test_rule2_ttl_one_or_less_dropped \<longleftrightarrow>
     \<not> check_forwarding_rules (V4 (Ipv4Addr 10 0 0 1)) (V4 (Ipv4Addr 224 0 0 1)) 1 [] \<and>
     \<not> check_forwarding_rules (V4 (Ipv4Addr 10 0 0 1)) (V4 (Ipv4Addr 224 0 0 1)) 0 []"

definition test_rule3_link_local_multicast_dropped :: bool where
  "test_rule3_link_local_multicast_dropped \<longleftrightarrow>
     \<not> check_forwarding_rules (V4 (Ipv4Addr 10 0 0 1)) (V4 (Ipv4Addr 224 0 0 1)) 64 [] \<and>
     \<not> check_forwarding_rules (V6 IPV6_LOCALHOST) (V6 (Ipv6Addr 0xff02 0 0 0 0 0 0 1)) 64 []"

definition test_rule4_source_matches_local_dropped :: bool where
  "test_rule4_source_matches_local_dropped \<longleftrightarrow>
     (let local_addr = V4 (Ipv4Addr 10 0 0 1) in
      \<not> check_forwarding_rules local_addr (V4 (Ipv4Addr 224 0 1 1)) 64 [local_addr])"

definition test_all_rules_pass_forwards :: bool where
  "test_all_rules_pass_forwards \<longleftrightarrow>
     check_forwarding_rules (V4 (Ipv4Addr 10 0 0 1)) (V4 (Ipv4Addr 239 0 0 1)) 64
       [V4 (Ipv4Addr 10 0 0 2)]"

definition test_ipv6_non_link_local_multicast_forwarded :: bool where
  "test_ipv6_non_link_local_multicast_forwarded \<longleftrightarrow>
     check_forwarding_rules (V6 (Ipv6Addr 0x2001 0xdb8 0 0 0 0 0 1))
       (V6 (Ipv6Addr 0xff05 0 0 0 0 0 0 1)) 64 []"

definition test_process_packet_forwards_valid_multicast :: bool where
  "test_process_packet_forwards_valid_multicast \<longleftrightarrow>
     (let engine = smf_engine_new smf_config_default [];
          packet = [0x46, 0, 0, 20, 0, 0, 0, 0, 64, 0, 0, 0, 0, 10, 0, 0, 1, 239, 0, 0, 1] in
      case process_packet engine packet (V4 (Ipv4Addr 10 0 0 2)) (V4 (Ipv4Addr 239 0 0 1)) 64
             ''eth0'' (V4 (Ipv4Addr 10 0 0 2)) of
        Inr (Some out) \<Rightarrow> idx out 8 = Some 63
      | _ \<Rightarrow> False)"

definition test_process_packet_drops_non_multicast :: bool where
  "test_process_packet_drops_non_multicast \<longleftrightarrow>
     (let engine = smf_engine_new smf_config_default [] in
      process_packet engine [] (V4 (Ipv4Addr 10 0 0 1)) (V4 (Ipv4Addr 10 0 0 2)) 64
        ''eth0'' (V4 (Ipv4Addr 10 0 0 1)) = Inr None)"

lemmas forwarding_test_defs =
  test_rule1_non_multicast_dropped_def test_rule2_ttl_one_or_less_dropped_def
  test_rule3_link_local_multicast_dropped_def test_rule4_source_matches_local_dropped_def
  test_all_rules_pass_forwards_def test_ipv6_non_link_local_multicast_forwarded_def
  test_process_packet_forwards_valid_multicast_def test_process_packet_drops_non_multicast_def

lemma forwarding_tests_pass:
  "test_rule1_non_multicast_dropped" "test_rule2_ttl_one_or_less_dropped"
  "test_rule3_link_local_multicast_dropped" "test_rule4_source_matches_local_dropped"
  "test_all_rules_pass_forwards" "test_ipv6_non_link_local_multicast_forwarded"
  "test_process_packet_forwards_valid_multicast" "test_process_packet_drops_non_multicast"
  by (simp_all add: forwarding_test_defs check_forwarding_rules_def word_le_nat_alt IPV6_LOCALHOST_def
      process_packet_def smf_engine_new_def classic_flooding_def decrement_ttl_def ttl_offset_def
      saturating_dec_def idx_def)

end
