(* ===== verification/Tests_Agent.thy ===== *)
theory Tests_Agent
  imports Agent_System
begin

text \<open>
  The unit tests of \<open>config.rs\<close>, \<open>pipeline.rs\<close> and \<open>lib.rs\<close>, one definition per test function, and
  that they hold of the model; and the agent of \<open>examples/simple_relay.rs\<close>. Left out are
  \<open>config_serialize_deserialize\<close>, which tests \<open>serde\<close>, and \<open>shutdown_sets_signal\<close>, which asserts nothing.
\<close>

section \<open>Configuration\<close>

definition test_default_config_is_valid :: bool where
  "test_default_config_is_valid \<longleftrightarrow>
     (let cfg = relay_config_default in
      max_packet_size cfg = 1500 \<and> interfaces cfg = [] \<and> enable_option82 (dhcpv4 cfg) \<and>
      \<not> smf_enabled (smf cfg))"

lemma config_tests_pass: "test_default_config_is_valid"
  by (simp add: test_default_config_is_valid_def relay_config_default_def dhcpv4_config_default_def
      smf_config_default_def)

section \<open>Pipeline\<close>

definition dummy_stage :: "string \<Rightarrow> bool \<Rightarrow> stage" where
  "dummy_stage name should_continue =
     \<lparr> stage_name = name, stage_process = (\<lambda>ctx. Some (Inr should_continue, ctx)) \<rparr>"

definition metadata_stage :: stage where
  "metadata_stage =
     \<lparr> stage_name = ''metadata'',
       stage_process = (\<lambda>ctx. Some (Inr True, ctx\<lparr>metadata := (metadata ctx)(''processed'' \<mapsto> ''true'')\<rparr>)) \<rparr>"

definition pipeline_test_ctx :: pipeline_ctx where
  "pipeline_test_ctx = ctx_new [1, 2, 3] (socket_new (V4 (Ipv4Addr 192 168 1 1)) 68) ''eth0''"

definition test_pipeline_executes_all_stages :: bool where
  "test_pipeline_executes_all_stages \<longleftrightarrow>
     (case execute (with_stages [dummy_stage ''s1'' True, dummy_stage ''s2'' True]) pipeline_test_ctx of
        Some (Inr result, ctx) \<Rightarrow> result
      | _ \<Rightarrow> False)"

definition test_pipeline_halts_on_false :: bool where
  "test_pipeline_halts_on_false \<longleftrightarrow>
     (case execute (with_stages [dummy_stage ''s1'' False, dummy_stage ''s2'' True]) pipeline_test_ctx of
        Some (Inr result, ctx) \<Rightarrow> \<not> result
      | _ \<Rightarrow> False)"

definition test_pipeline_stages_can_set_metadata :: bool where
  "test_pipeline_stages_can_set_metadata \<longleftrightarrow>
     (case execute (with_stages [metadata_stage]) pipeline_test_ctx of
        Some (Inr result, ctx) \<Rightarrow> metadata ctx ''processed'' = Some ''true''
      | _ \<Rightarrow> False)"

definition test_pipeline_context_defaults :: bool where
  "test_pipeline_context_defaults \<longleftrightarrow>
     (let ctx = pipeline_test_ctx in
      \<not> is_reforwarded ctx \<and> \<not> is_trusted_circuit ctx \<and> dst_addr ctx = None \<and>
      interface ctx = ''eth0'')"

lemma pipeline_tests_pass:
  "test_pipeline_executes_all_stages" "test_pipeline_halts_on_false"
  "test_pipeline_stages_can_set_metadata" "test_pipeline_context_defaults"
  by (simp_all add: test_pipeline_executes_all_stages_def test_pipeline_halts_on_false_def
      test_pipeline_stages_can_set_metadata_def test_pipeline_context_defaults_def
      dummy_stage_def metadata_stage_def pipeline_test_ctx_def)

section \<open>Agent\<close>

definition agent_test_config :: relay_config where
  "agent_test_config = relay_config_default\<lparr>interfaces := interfaces relay_config_default @
     [\<lparr> if_name = ''eth0'', if_ip_addr = ''10.0.0.1'', if_trusted = False, if_enabled = True \<rparr>]\<rparr>"

definition test_relay_agent_new_defaults :: bool where
  "test_relay_agent_new_defaults \<longleftrightarrow>
     (case agent_new agent_test_config of
        Inl e \<Rightarrow> False
      | Inr agent \<Rightarrow> packets_received (stats_snapshot (ag_stats agent)) = 0)"

definition test_config_requires_interface :: bool where
  "test_config_requires_interface \<longleftrightarrow>
     (case agent_new relay_config_default of Inl e \<Rightarrow> True | Inr agent \<Rightarrow> False)"

definition test_stats_snapshot_reflects_counters :: bool where
  "test_stats_snapshot_reflects_counters \<longleftrightarrow>
     (case agent_new agent_test_config of
        Inl e \<Rightarrow> False
      | Inr agent \<Rightarrow>
         (let st = ag_stats agent;
              agent' = agent\<lparr>ag_stats := st\<lparr>packets_received := packets_received st + 5\<rparr>\<rparr> in
          packets_received (stats_snapshot (ag_stats agent')) = 5))"

definition dummy_topology :: topology_provider where
  "dummy_topology = \<lparr> neighbors = (\<lambda>iface. []), two_hop_neighbors = two_hop_default \<rparr>"

definition dummy_selector :: relay_set_selector where
  "dummy_selector ingress prev_hop src dst = False"

definition test_smf_trait_injection_stores_and_retrieves :: bool where
  "test_smf_trait_injection_stores_and_retrieves \<longleftrightarrow>
     (case agent_new agent_test_config of
        Inl e \<Rightarrow> False
      | Inr agent \<Rightarrow>
         (let agent1 = agent_with_selector dummy_selector (with_topology_provider dummy_topology agent);
              (topology, agent2) = take_topology_provider agent1;
              (selector, agent3) = take_relay_selector agent2;
              (topology', agent4) = take_topology_provider agent3 in
          topology \<noteq> None \<and> selector \<noteq> None \<and> topology' = None))"

lemma agent_test_new:
  "agent_new agent_test_config =
     Inr \<lparr> ag_config = agent_test_config, ag_stats = stats_default, ag_topology = None, ag_selector = None \<rparr>"
  by (simp add: agent_new_def validate_config_def agent_test_config_def relay_config_default_def
      dhcpv4_config_default_def dhcpv6_config_default_def vss_config_default_def)

lemma agent_tests_pass:
  "test_relay_agent_new_defaults" "test_config_requires_interface"
  "test_stats_snapshot_reflects_counters" "test_smf_trait_injection_stores_and_retrieves"
  by (simp_all add: test_relay_agent_new_defaults_def test_config_requires_interface_def
      test_stats_snapshot_reflects_counters_def test_smf_trait_injection_stores_and_retrieves_def
      agent_test_new stats_snapshot_def stats_default_def take_topology_provider_def
      take_relay_selector_def agent_with_selector_def with_topology_provider_def)
    (simp add: agent_new_def validate_config_def relay_config_default_def)

section \<open>The example\<close>

text \<open>
  \<open>examples/simple_relay.rs\<close>: the agent is created, and where the socket can be bound, its one
  DHCPv4 task listens on all addresses at port 67, with its own address as server, because no
  server is configured.
\<close>

definition simple_relay_config :: relay_config where
  "simple_relay_config = relay_config_default\<lparr>interfaces :=
     [\<lparr> if_name = ''eth0'', if_ip_addr = ''0.0.0.0:67'', if_trusted = False, if_enabled = True \<rparr>]\<rparr>"

lemma simple_relay_starts:
  assumes "udp (SocketAddrV4 (Ipv4Addr 0 0 0 0) 67) = Inr loc"
  shows "\<exists>agent task. agent_new simple_relay_config = Inr agent \<and>
    spawn_v4_tasks udp (v4_from_inner (ag_config agent))
      (first_server (v4_server_addrs (dhcpv4 (ag_config agent)))) (interfaces (ag_config agent)) =
      ([task], Inr ()) \<and>
    t4_bind_addr task = SocketAddrV4 (Ipv4Addr 0 0 0 0) 67 \<and> t4_server task = t4_bind_addr task"
proof -
  have "parse_socket_addr ''0.0.0.0:67'' = Some (SocketAddrV4 (Ipv4Addr 0 0 0 0) 67)"
    by (simp add: std_parse_defs)
  with assms show ?thesis
    by (simp add: agent_new_def validate_config_def simple_relay_config_def relay_config_default_def
        dhcpv4_config_default_def dhcpv6_config_default_def vss_config_default_def first_server_def Let_def)
qed

end
