(* ===== verification/Spec2Isabelle.thy ===== *)
theory Spec2Isabelle
  imports Agent_Snapshot Agent_Socket Agent_Calls_Props Smf_Eviction Smf_Node Context_Types
    Tests_V4 Tests_V6 Tests_Smf Tests_Agent
begin

text \<open>
  The DHCP relay agent library \<open>src/src\<close>: a relay for DHCPv4 (RFC 2131, RFC 3046, RFC 6607) and
  DHCPv6 (RFC 8415), and the simplified multicast forwarding of RFC 6621.

  \<^bold>\<open>Parts of the program and their theories.\<close>

  \<^item> \<open>Relay_Prelude\<close>, \<open>Rust_String\<close>, \<open>Net_Addr\<close>, \<open>Addr_Text\<close>: what the sources use of the language
    and its standard library: checked slices, big-endian integers, UTF-8 validation, addresses and
    their parsers. \<open>Codec\<close> holds the contracts of encoders and decoders.
  \<^item> \<open>Relay_Config\<close>: \<open>error.rs\<close> and \<open>config.rs\<close>. \<open>relay_error\<close> has the variants of \<open>RelayError\<close>, the
    configuration records have the fields of the structs, \<open>validate_config\<close> is \<open>validate\<close>.
  \<^item> \<open>Pipeline\<close>: \<open>pipeline.rs\<close>. The context of a packet is the record \<open>pipeline_ctx\<close>, a stage a name
    with a \<open>process\<close> function, \<open>execute\<close> runs the stages until one fails or stops.
  \<^item> \<open>Dhcp_V4_Api\<close>, \<open>Dhcp_V6_Api\<close>: the message types and functions of the third-party crate
    \<open>dhcproto\<close>, which is not part of the repository, as records of parameters; the predicates
    \<open>dhcproto_v4_ok\<close> and \<open>dhcproto_v6_ok\<close> name the documented behaviour that the relay relies on.
    \<open>V4_Sample\<close> and \<open>V6_Sample\<close> are concrete instances that satisfy them, for the witnesses only.
  \<^item> \<open>V4_Giaddr\<close>, \<open>V4_Option82\<close>, \<open>V4_Vss\<close>, \<open>V4_Pipeline\<close>: \<open>dhcp/v4/\<close>, file by file; one \<open>_process\<close>
    definition per stage, \<open>build_request_v4\<close> and \<open>build_reply_v4\<close> for the two builders.
  \<^item> \<open>V6_Relay_Fwd\<close>, \<open>V6_Options\<close>, \<open>V6_Pipeline\<close>: \<open>dhcp/v6/\<close> in the same way.
  \<^item> \<open>Smf_Dpd_Option\<close>, \<open>Smf_Dpd\<close>, \<open>Smf_Engine\<close>: \<open>smf/\<close> and \<open>traits/mod.rs\<close>: the option codec, the
    duplicate detection cache with its packet identifiers, and the forwarding engine.
  \<^item> \<open>Relay_Agent\<close>: \<open>lib.rs\<close>: counters, spawn contexts, handlers, the dispatch of a datagram to the
    request or reply handler, the loop of a task over its events, and the construction of the tasks
    from the configuration.
  \<^item> \<open>Watch_Api\<close>, \<open>Agent_System\<close>: \<open>run\<close> and \<open>shutdown\<close> of \<open>lib.rs\<close> as a step relation: the families
    are spawned interface by interface, the tasks interleave, and \<open>shutdown\<close> may be called at any
    moment. The watch channel of \<open>tokio\<close> is a record of parameters, \<open>watch_ok\<close> its documentation.
    \<open>agent_life\<close> is the life of an agent: when a call of \<open>run\<close> has returned, \<open>run\<close> may be called
    again (\<open>call_run\<close>) with the tasks and the channel that the earlier calls left behind; a call
    waits for its own tasks (\<open>own_handles\<close>) only.
  \<^item> \<open>Agent_Calls\<close>: any number of calls of \<open>run\<close> on one agent that overlap, each with its phase, whose
    futures may be dropped before they return. The steps of a call are those of \<open>Agent_System\<close> on a
    view of the shared state (\<open>call_view\<close>). Every task has the address it has bound; \<open>exclusive\<close> is the
    rule of the operating system that an address in use (\<open>held\<close>) is not given out again.
  \<^item> \<open>Udp_Transport\<close>: \<open>transport/\<close>, with the sockets of \<open>tokio\<close> as parameters. \<open>Agent_Socket\<close>: the
    loop of a task over its transport, with the datagrams it receives and the replies it sends.
    \<open>Agent_Snapshot\<close>: \<open>stats\<close> on a running agent, one load per counter between the steps of the tasks.
  \<^item> \<open>Smf_Eviction\<close>, \<open>Smf_Node\<close>: the eviction task of \<open>smf/dpd.rs\<close>, and a node that runs the engine
    together with its eviction tasks as a step relation.
  \<^item> \<open>Tests_V4\<close>, \<open>Tests_V6\<close>, \<open>Tests_Smf\<close>, \<open>Tests_Agent\<close>: the unit tests of the sources, those of
    \<open>tests/\<close> and the configuration of \<open>examples/simple_relay.rs\<close>, one \<open>test_\<close> definition per test
    function. That they hold of the model is a check of the translation against what the authors
    run; the tests of the DHCP parts hold for every message library that satisfies the laws.

  A datagram reaches \<open>task_run\<close> as an event; \<open>v4_datagram\<close> or \<open>v6_datagram\<close> decodes it once to
  choose the direction, and the handler builds a pipeline, executes it on a new context and sends
  the buffer to the destination the last stage has set. Panics are \<open>None\<close>, errors \<open>Inl\<close>.

  \<^bold>\<open>Interfaces.\<close> Where a part relies on another, the contract is a locale, and its interpretation on
  the definitions of the code discharges the laws:

  \<^item> \<open>codec\<close> and its extension \<open>exact_codec\<close> (\<open>Codec\<close>): UTF-8 strings, IPv4 texts, Interface-ID,
    Remote-ID, the SMF_DPD option, Relay-reply wrapping.
  \<^item> \<open>passing_stage\<close>, \<open>sound_stage\<close>, \<open>sound_pipeline\<close> (\<open>Pipeline\<close>): what each stage keeps, and what
    \<open>execute\<close> then keeps of the whole; interpreted on the stages of both families.
  \<^item> \<open>duplicate_detector\<close> (\<open>Smf_Dpd\<close>): a table that accepts what exceeds the value seen.
  \<^item> \<open>typed_stage\<close>, \<open>typed_pipeline\<close> (\<open>Context_Types\<close>): extensions of the former by the type invariant
    of the strings in a context; interpreted on all stages and on the four pipelines.
  \<^item> \<open>datagram_handler\<close> (\<open>Agent_Loop\<close>) and its extension \<open>additive_handler\<close> (\<open>Agent_Run\<close>): what a
    handler owes the loop of a task and the other tasks; interpreted on the DHCPv4 and the DHCPv6
    dispatch. The counters are an instance of \<open>comm_monoid_add\<close>.
  \<^item> \<open>task_spawner\<close> (\<open>Agent_Ledger\<close>): the two loops that spawn tasks.

  \<^bold>\<open>What is shown.\<close>

  \<^item> \<open>V4_Spec\<close>, \<open>V4_Request\<close>: the request pipeline of DHCPv4 refines an abstract specification on
    views of messages (addresses, type and sub-options of Option 82); from it follow what a first
    relay sends, what becomes of packets relayed before, and that no local relay address passes.
    \<open>V4_Reply\<close> does the same for replies, \<open>V4_Options\<close> for the option codecs on their own.
  \<^item> \<open>V6_Relay_Wrap\<close>, \<open>V6_Relay\<close>, \<open>V6_Properties\<close>: unwrapping inverts any number of wrapped layers, the
    index-based search equals the search in the list of options, how deep the recursion can get,
    and the outcomes of both pipelines on every branch.
  \<^item> \<open>Smf_Dpd_Props\<close>: the answers of the cache in terms of the history of arrivals, safety within the
    window, eviction, and the interleavings of concurrent threads as an inductive step relation.
    \<open>Smf_Engine\<close> ends with the exact condition of forwarding and the behaviour of chains of relays,
    \<open>Smf_Node\<close> shows that the cache of a running node stays empty.
  \<^item> \<open>Agent_Loop\<close>, \<open>Agent_Props\<close>: absence of panics and accounting of the tasks over any events, and the
    composition of dispatch, handler and pipeline from the datagram received to the one sent.
  \<^item> \<open>Agent_Shutdown\<close>, \<open>Agent_Ledger\<close>, \<open>Agent_System_Props\<close>: which receivers of the shutdown signal are in
    use, that a call stops all tasks and lets \<open>run\<close> return when it comes after both families were
    spawned, that it is lost or incomplete when it comes before, that the interleaved run is the
    sum of the runs of its tasks, and that all of this holds in every life of an agent, whose next
    call of \<open>run\<close> starts living tasks again. \<open>Agent_Snapshot\<close> bounds what a snapshot shows, and
    its witness is one that counts more packets forwarded than received. \<open>Agent_Socket\<close> refines the loop over events by the loop
    over a socket.
  \<^item> \<open>Agent_Ports\<close>, \<open>Agent_Calls_Props\<close>: with overlapping calls no port is bound twice; until \<open>shutdown\<close>
    one call at most starts tasks, and none gets to wait if two of its tasks need one address; a
    call of \<open>shutdown\<close> reaches the tasks of all calls; and calls one after the other refine
    \<open>agent_life\<close>, so that what is shown of it holds with the sockets as they are held.
  \<^item> \<open>Udp_Transport\<close>: the reused buffer never shows bytes of an earlier datagram. \<open>Smf_Eviction\<close>: how
    old and how many the entries of the cache can be while the eviction task runs.
    \<open>Context_Types\<close>: strings stay well-formed UTF-8.

  Several of these theorems state behaviour that a reader of the documentation would not expect: the
  engine of SMF does not consult its cache, the agent compares an echoed option with itself,
  the DHCPv6 tasks bind IPv4 addresses only. They are stated because they are what the code does.

  \<^bold>\<open>Bounds and termination.\<close> No definition uses fuel: the loops over options and the recursion of
  \<open>decapsulate\<close> terminate on the remaining length, which is proved with each definition. Counters,
  TTLs, codes and identifiers are words of their width. Positions in a buffer are natural numbers;
  they stay below the length of a datagram plus 65539, so \<open>usize\<close> cannot overflow. The one addition
  that can, in \<open>check_packet_size\<close>, is modelled on 64 bit words. Instants are integers with the least
  representable one as a parameter, because the cutoff of the eviction is a subtraction that panics.

  Time enters in two places: instants are arguments of the cache operations, and a tick of the
  eviction task runs at most \<open>lag\<close> after its instant, where \<open>lag\<close> is arbitrary.

  \<^bold>\<open>Not modelled.\<close> Third-party code is a parameter with named laws and never defined: \<open>dhcproto\<close>, the
  sockets and the watch channel of \<open>tokio\<close>, the hash function of \<open>murmur3\<close>. A step of a task handles a
  whole datagram; the interleaving inside a handler is left out, because the handlers only add to
  the counters, atomically, and do not read them. Conflicts of sockets other than on equal addresses,
  as between a wildcard and a specific address, are left to the parameter \<open>binds\<close>. Left out are log
  output, deserialization of the configuration (serde), the rendering of errors, accessors that
  return a field, and the tests of these; of the other tests, one that fixes values of the hash function,
  one that asserts nothing, and those that count the calls of an injected trait object.

  With this every operation of the sources that changes state has its definition; what remains of
  the implementation is module declarations, imports, attributes and documentation.
\<close>

end
